(* ===== verification/Prelude.thy ===== *)
theory Prelude
  imports Main "HOL-Library.Word"
begin

section \<open>Shared vocabulary and automation\<close>

text \<open>
  The types every component is stated over (bytes, 64-bit machine words, addresses) and the
  generic lemmas the component theories share: addresses counted up from a base without
  wrapping, sums of weighted bits, and the reading of a bit as a number.

  Collections: \<open>model_defs\<close> gathers the constants of a component that a concrete evaluation
  unfolds, \<open>addr_simps\<close> the address arithmetic used by the memory proofs.
\<close>

named_theorems model_defs \<open>definitions unfolded when a concrete input is evaluated\<close>
named_theorems addr_simps \<open>address arithmetic\<close>

type_synonym byte = "8 word"
type_synonym u32 = "32 word"
type_synonym u64 = "64 word"
type_synonym addr = "64 word"

unbundle bit_operations_syntax

subsection \<open>Addresses\<close>

text \<open>The addresses of \<open>n\<close> consecutive bytes from \<open>a\<close> on (64-bit arithmetic, which wraps).\<close>

definition span :: "addr \<Rightarrow> nat \<Rightarrow> addr set" where
  "span a n = (\<lambda>i. a + of_nat i) ` {..<n}"

lemma span_0 [simp]: "span a 0 = {}"
  by (simp add: span_def)

lemma in_span: "i < n \<Longrightarrow> a + of_nat i \<in> span a n"
  by (auto simp: span_def)

lemma base_in_span: "0 < n \<Longrightarrow> a \<in> span a n"
  using in_span [of 0 n a] by simp

lemma span_Suc: "span a (Suc n) = insert a (span (a + 1) n)"
proof -
  have "{..<Suc n} = insert 0 (Suc ` {..<n})"
    using lessThan_Suc_eq_insert_0 by blast
  then show ?thesis
    by (simp add: span_def image_image add.assoc)
qed

lemma span_mono: "m \<le> n \<Longrightarrow> span a m \<subseteq> span a n"
  by (auto simp: span_def)

lemma span_shift: "k + m \<le> n \<Longrightarrow> span (a + of_nat k) m \<subseteq> span a n"
proof
  fix x
  assume kmn: "k + m \<le> n" and "x \<in> span (a + of_nat k) m"
  then obtain i where "i < m" "x = a + of_nat (k + i)"
    by (auto simp: span_def add.assoc)
  with kmn show "x \<in> span a n"
    by (auto simp only: span_def image_iff lessThan_iff intro!: bexI [of _ "k + i"])
qed

lemma of_nat_u64_inj:
  "i < 2 ^ 64 \<Longrightarrow> j < 2 ^ 64 \<Longrightarrow> (of_nat i :: 64 word) = of_nat j \<longleftrightarrow> i = j"
  by (simp add: word_of_nat_eq_iff take_bit_nat_eq_self)

lemma unat_add_nowrap:
  "unat (a :: 64 word) + n < 2 ^ 64 \<Longrightarrow> unat (a + of_nat n) = unat a + n"
  by (simp add: unat_word_ariths unat_of_nat)

lemma unat_Suc_nowrap:
  "unat (a :: 64 word) + 1 < 2 ^ 64 \<Longrightarrow> unat (a + 1) = unat a + 1"
  using unat_add_nowrap [of a 1] by simp

lemma less_add_nowrap:
  "unat (a :: 64 word) + n < 2 ^ 64 \<Longrightarrow> a < a + of_nat n \<longleftrightarrow> 0 < n"
  by (simp add: word_less_nat_alt unat_add_nowrap)

lemma unat_u64_less: "unat (w :: 64 word) < 2 ^ 64"
  using unsigned_less [of w, where 'a = nat] by simp

lemma word_of_unat: "unat w = n \<Longrightarrow> w = of_nat n"
  by auto

lemma unat_eqI: "unat v = unat w \<Longrightarrow> v = w" for v w :: "'a::len word"
  by (simp add: word_unat_eq_iff)

lemma take_bit_self: "unat v < 2 ^ n \<Longrightarrow> take_bit n v = v" for v :: "'a::len word"
  by (rule unat_eqI) (simp only: unsigned_take_bit_eq take_bit_nat_eq_self)

lemma bit_less_exp: "bit v k \<Longrightarrow> unat v < 2 ^ n \<Longrightarrow> k < n" for v :: "'a::len word"
  by (metis bit_take_bit_iff take_bit_self)

lemma in_span_iff:
  assumes "unat a + n \<le> 2 ^ 64"
  shows "x \<in> span a n \<longleftrightarrow> unat a \<le> unat x \<and> unat x < unat a + n"
proof
  assume "x \<in> span a n"
  then obtain i where "i < n" "x = a + of_nat i" by (auto simp: span_def)
  with assms unat_add_nowrap [of a i] show "unat a \<le> unat x \<and> unat x < unat a + n" by simp
next
  assume x: "unat a \<le> unat x \<and> unat x < unat a + n"
  then have "unat (a + of_nat (unat x - unat a)) = unat x"
    using unat_add_nowrap [of a "unat x - unat a"] unat_u64_less [of x] by simp
  then have "x = a + of_nat (unat x - unat a)" by (metis word_of_unat)
  moreover have "unat x - unat a < n" using x by arith
  then have "a + of_nat (unat x - unat a) \<in> span a n" by (rule in_span)
  ultimately show "x \<in> span a n" by metis
qed

lemma span_disjoint:
  assumes "unat a + n \<le> unat b" "unat b + m \<le> 2 ^ 64"
  shows "span a n \<inter> span b m = {}"
  using assms unat_u64_less [of b] by (auto simp: in_span_iff)

text \<open>The measure of a loop that counts a pointer up to its end.\<close>

lemma pointer_step:
  assumes "(d :: 64 word) < e"
  shows "unat (d + 1) = unat d + 1" and "unat e - unat (d + 1) < unat e - unat d"
proof -
  from assms have lt: "unat d < unat e" by (simp add: word_less_nat_alt)
  moreover have "unat e < 2 ^ 64" by (rule unat_u64_less)
  ultimately show "unat (d + 1) = unat d + 1" by (intro unat_Suc_nowrap) simp
  with lt show "unat e - unat (d + 1) < unat e - unat d" by simp
qed

lemma sint_of_int:
  "- (2 ^ (LENGTH('a) - 1)) \<le> i \<Longrightarrow> i < 2 ^ (LENGTH('a) - 1) \<Longrightarrow> sint (of_int i :: 'a::len word) = i"
  by (simp add: sint_sbintrunc' signed_take_bit_int_eq_self)

subsection \<open>Bits as numbers\<close>

text \<open>The simplifier reads a bit of a word numeral off the integer numeral.\<close>

lemma bit_255: "bit (255 :: int) k \<longleftrightarrow> k < 8"
proof -
  have eq: "(255 :: int) = mask 8" by (simp add: mask_eq_exp_minus_1)
  show ?thesis by (subst eq) (auto simp: bit_mask_iff)
qed

lemma mod_minus_dvd: "m dvd n \<Longrightarrow> n \<le> k \<Longrightarrow> (k - n) mod m = k mod (m :: nat)"
  by (metis le_mod_geq mod_eq_dvd_iff_nat diff_diff_cancel diff_le_self)

lemma of_bool_xor_eq: "(of_bool (a \<noteq> b) :: int) = of_bool a + of_bool b - 2 * of_bool (a \<and> b)"
  by auto

subsection \<open>The range of a signed word\<close>

lemma sint_bounds: "- (2 ^ (LENGTH('a) - 1)) \<le> sint w \<and> sint w < 2 ^ (LENGTH('a) - 1)" for w :: "'a::len word"
  using sint_ge [of w] sint_lt [of w] by simp

lemma word_of_take_bit: "LENGTH('n) \<le> n \<Longrightarrow> (word_of_int (take_bit n x) :: 'n::len word) = word_of_int x"
  by (rule bit_word_eqI) (auto simp: bit_of_int_iff bit_take_bit_iff)

text \<open>A 64-bit operand with one more bit on top, its sign or 0, stands for the same number.\<close>

lemma extended_operand:
  "sint (word_cat (of_bool (c \<and> bit x 63) :: 1 word) x :: 65 word) = (if c then sint x else uint x)" for x :: u64
proof -
  have "(word_cat (of_bool (c \<and> bit x 63) :: 1 word) x :: 65 word) = (if c then scast x else ucast x)"
    by (rule bit_word_eqI) (auto simp: bit_word_cat_iff bit_signed_iff bit_ucast_iff not_less less_Suc_eq
      dest: bit_imp_le_length)
  moreover have "sint (scast x :: 65 word) = sint x" by (rule sint_up_scast) (simp add: is_up)
  moreover have "sint (ucast x :: 65 word) = uint x"
  proof -
    have u: "0 \<le> uint x" "uint x < 2 ^ 64" using uint_bounded [of x] by simp_all
    moreover have "- (2 ^ 64) \<le> uint x" by (rule order_trans [OF _ u(1)]) simp
    ultimately have "take_bit 65 (uint x) = uint x" "signed_take_bit 64 (uint x) = uint x"
      by (simp_all add: take_bit_int_eq_self_iff signed_take_bit_int_eq_self_iff)
    then show ?thesis by (simp add: sint_uint unsigned_ucast_eq)
  qed
  ultimately show ?thesis by simp
qed

end
