(* ===== verification/LibC.thy ===== *)
theory LibC
  imports Prelude
begin

section \<open>The C string library of the virtual-memory test environment\<close>

text \<open>
  \<open>micro-arch-tests/performance_tests/env/v/string.c\<close>, compiled for RV64:
  \<open>sizeof(uintptr_t)\<close> is 8, \<open>size_t\<close> and \<open>long\<close> have 64 bits, \<open>int\<close> has 32, memory is
  little endian. The routines run on a byte store \<open>m\<close> seen through an address translation
  \<open>tr\<close>: C code runs under the page tables that vm.c sets up, so a load at \<open>a\<close> reads
  the physical byte \<open>m (tr a)\<close>. With \<open>tr = id\<close> this is a flat memory. Loops over words
  step by 8 and compare with \<open><\<close>, so with an end that is not a multiple of 8 away they
  could run past it: they are \<open>partial_function (option)\<close>, and the theorems show that
  they return. Signed \<open>char\<close> does not matter here: every comparison of the source is made
  on \<open>unsigned char\<close> or with 0.
\<close>

type_synonym pmem = "addr \<Rightarrow> byte"
type_synonym xlate = "addr \<Rightarrow> addr"

subsection \<open>Loads and stores\<close>

definition load8 :: "xlate \<Rightarrow> pmem \<Rightarrow> addr \<Rightarrow> byte" where
  "load8 tr m a = m (tr a)"

definition store8 :: "xlate \<Rightarrow> pmem \<Rightarrow> addr \<Rightarrow> byte \<Rightarrow> pmem" where
  "store8 tr m a b = m(tr a := b)"

fun load_le :: "xlate \<Rightarrow> pmem \<Rightarrow> addr \<Rightarrow> nat \<Rightarrow> u64" where
  "load_le tr m a 0 = 0"
| "load_le tr m a (Suc n) = ucast (load8 tr m a) OR push_bit 8 (load_le tr m (a + 1) n)"

fun store_le :: "xlate \<Rightarrow> pmem \<Rightarrow> addr \<Rightarrow> nat \<Rightarrow> u64 \<Rightarrow> pmem" where
  "store_le tr m a 0 w = m"
| "store_le tr m a (Suc n) w = store_le tr (store8 tr m a (ucast w)) (a + 1) n (drop_bit 8 w)"

definition load64 :: "xlate \<Rightarrow> pmem \<Rightarrow> addr \<Rightarrow> u64" where
  "load64 tr m a = load_le tr m a 8"

definition store64 :: "xlate \<Rightarrow> pmem \<Rightarrow> addr \<Rightarrow> u64 \<Rightarrow> pmem" where
  "store64 tr m a w = store_le tr m a 8 w"

definition word_aligned :: "addr \<Rightarrow> bool" where
  "word_aligned a \<longleftrightarrow> a AND 7 = 0"

subsection \<open>memcpy and memset\<close>

partial_function (option) memcpy_words ::
    "xlate \<Rightarrow> pmem \<Rightarrow> addr \<Rightarrow> addr \<Rightarrow> addr \<Rightarrow> pmem option" where
  "memcpy_words tr m d s e =
     (if d < e then memcpy_words tr (store64 tr m d (load64 tr m s)) (d + 8) (s + 8) e
      else Some m)"

function memcpy_bytes :: "xlate \<Rightarrow> pmem \<Rightarrow> addr \<Rightarrow> addr \<Rightarrow> addr \<Rightarrow> pmem" where
  "memcpy_bytes tr m d s e =
     (if d < e then memcpy_bytes tr (store8 tr m d (load8 tr m s)) (d + 1) (s + 1) e else m)"
  by pat_completeness auto
termination
  by (relation "measure (\<lambda>(tr, m, d, s, e). unat e - unat d)") (auto dest: pointer_step)

definition memcpy :: "xlate \<Rightarrow> pmem \<Rightarrow> addr \<Rightarrow> addr \<Rightarrow> u64 \<Rightarrow> (pmem \<times> addr) option" where
  "memcpy tr m dest src len =
     (if word_aligned (dest OR src OR len)
      then map_option (\<lambda>m'. (m', dest)) (memcpy_words tr m dest src (dest + len))
      else Some (memcpy_bytes tr m dest src (dest + len), dest))"

definition memset_word :: "u32 \<Rightarrow> u64" where
  "memset_word b =
     (let w0 = ucast (b AND 0xFF);
          w1 = w0 OR push_bit 8 w0;
          w2 = w1 OR push_bit 16 w1
      in w2 OR push_bit 16 (push_bit 16 w2))"

partial_function (option) memset_words ::
    "xlate \<Rightarrow> pmem \<Rightarrow> u64 \<Rightarrow> addr \<Rightarrow> addr \<Rightarrow> pmem option" where
  "memset_words tr m w d e =
     (if d < e then memset_words tr (store64 tr m d w) w (d + 8) e else Some m)"

function memset_bytes :: "xlate \<Rightarrow> pmem \<Rightarrow> byte \<Rightarrow> addr \<Rightarrow> addr \<Rightarrow> pmem" where
  "memset_bytes tr m b d e =
     (if d < e then memset_bytes tr (store8 tr m d b) b (d + 1) e else m)"
  by pat_completeness auto
termination
  by (relation "measure (\<lambda>(tr, m, b, d, e). unat e - unat d)") (auto dest: pointer_step)

definition memset :: "xlate \<Rightarrow> pmem \<Rightarrow> addr \<Rightarrow> u32 \<Rightarrow> u64 \<Rightarrow> (pmem \<times> addr) option" where
  "memset tr m dest b len =
     (if word_aligned (dest OR len)
      then map_option (\<lambda>m'. (m', dest)) (memset_words tr m (memset_word b) dest (dest + len))
      else Some (memset_bytes tr m (ucast b) dest (dest + len), dest))"

subsection \<open>strlen, strcmp, strcpy, memcmp\<close>

partial_function (option) strlen_from :: "xlate \<Rightarrow> pmem \<Rightarrow> addr \<Rightarrow> addr option" where
  "strlen_from tr m p = (if load8 tr m p \<noteq> 0 then strlen_from tr m (p + 1) else Some p)"

definition strlen :: "xlate \<Rightarrow> pmem \<Rightarrow> addr \<Rightarrow> u64 option" where
  "strlen tr m s = map_option (\<lambda>p. p - s) (strlen_from tr m s)"

text \<open>The two bytes are promoted to \<open>int\<close> before the subtraction, which cannot overflow.\<close>

partial_function (option) strcmp :: "xlate \<Rightarrow> pmem \<Rightarrow> addr \<Rightarrow> addr \<Rightarrow> int option" where
  "strcmp tr m s1 s2 =
     (let c1 = load8 tr m s1; c2 = load8 tr m s2
      in if c1 \<noteq> 0 \<and> c1 = c2 then strcmp tr m (s1 + 1) (s2 + 1)
         else Some (uint c1 - uint c2))"

partial_function (option) strcpy_loop :: "xlate \<Rightarrow> pmem \<Rightarrow> addr \<Rightarrow> addr \<Rightarrow> pmem option" where
  "strcpy_loop tr m d s =
     (let c = load8 tr m s; m' = store8 tr m d c
      in if c \<noteq> 0 then strcpy_loop tr m' (d + 1) (s + 1) else Some m')"

definition strcpy :: "xlate \<Rightarrow> pmem \<Rightarrow> addr \<Rightarrow> addr \<Rightarrow> (pmem \<times> addr) option" where
  "strcpy tr m dest src = map_option (\<lambda>m'. (m', dest)) (strcpy_loop tr m dest src)"

text \<open>The word loop of memcmp stops at the first pair of words that differ.\<close>

partial_function (option) memcmp_words ::
    "xlate \<Rightarrow> pmem \<Rightarrow> addr \<Rightarrow> addr \<Rightarrow> addr \<Rightarrow> (addr \<times> addr) option" where
  "memcmp_words tr m u1 u2 e =
     (if u1 < e \<and> load64 tr m u1 = load64 tr m u2 then memcmp_words tr m (u1 + 8) (u2 + 8) e
      else Some (u1, u2))"

fun memcmp_bytes :: "xlate \<Rightarrow> pmem \<Rightarrow> addr \<Rightarrow> addr \<Rightarrow> nat \<Rightarrow> int" where
  "memcmp_bytes tr m s1 s2 0 = 0"
| "memcmp_bytes tr m s1 s2 (Suc n) =
     (let c1 = load8 tr m s1; c2 = load8 tr m s2
      in if c1 \<noteq> c2 then uint c1 - uint c2 else memcmp_bytes tr m (s1 + 1) (s2 + 1) n)"

definition memcmp :: "xlate \<Rightarrow> pmem \<Rightarrow> addr \<Rightarrow> addr \<Rightarrow> u64 \<Rightarrow> int option" where
  "memcmp tr m s1 s2 n =
     (if word_aligned (s1 OR s2)
      then map_option (\<lambda>(u1, u2). memcmp_bytes tr m u1 u2 (unat (n - (u1 - s1))))
             (memcmp_words tr m s1 s2 (s1 + 8 * (n div 8)))
      else Some (memcmp_bytes tr m s1 s2 (unat n)))"

subsection \<open>atol\<close>

text \<open>
  \<open>long\<close> arithmetic is kept at 64 bits. (A sum that overflows is undefined in C; the theorem
  about \<open>atol\<close> gives the wrapped value, and the exact one where there is no overflow.)
\<close>

partial_function (option) skip_spaces :: "xlate \<Rightarrow> pmem \<Rightarrow> addr \<Rightarrow> addr option" where
  "skip_spaces tr m p = (if load8 tr m p = 32 then skip_spaces tr m (p + 1) else Some p)"

partial_function (option) atol_digits :: "xlate \<Rightarrow> pmem \<Rightarrow> addr \<Rightarrow> u64 \<Rightarrow> u64 option" where
  "atol_digits tr m p res =
     (if load8 tr m p \<noteq> 0
      then atol_digits tr m (p + 1) (res * 10 + (ucast (load8 tr m p) - 48)) else Some res)"

definition atol :: "xlate \<Rightarrow> pmem \<Rightarrow> addr \<Rightarrow> u64 option" where
  "atol tr m str =
     Option.bind (skip_spaces tr m str) (\<lambda>p.
       let c = load8 tr m p; signed = (c = 45 \<or> c = 43); neg = (c = 45)
       in map_option (\<lambda>res. if neg then - res else res)
            (atol_digits tr m (if signed then p + 1 else p) 0))"


subsection \<open>Loads and stores, byte by byte\<close>

lemma load8_store8: "load8 tr (store8 tr m a b) c = (if tr c = tr a then b else load8 tr m c)"
  by (simp add: load8_def store8_def)

lemma div8: "(8 + k) div 8 = Suc (k div (8::nat))"
  by simp

lemma bit_load_le:
  "bit (load_le tr m a n) k \<longleftrightarrow>
     k < 8 * n \<and> k < 64 \<and> bit (load8 tr m (a + of_nat (k div 8))) (k mod 8)"
proof (induction n arbitrary: a k)
  case 0
  then show ?case by simp
next
  case (Suc n)
  show ?case
  proof (cases "k < 8")
    case True
    then show ?thesis by (simp add: bit_or_iff bit_push_bit_iff bit_ucast_iff)
  next
    case False
    then obtain j where k: "k = 8 + j" by (metis le_Suc_ex not_less)
    have "\<not> bit (load8 tr m a) k" using False by (auto dest!: bit_imp_le_length)
    then show ?thesis
      by (auto simp: k bit_or_iff bit_push_bit_iff bit_ucast_iff Suc.IH add.assoc div8)
  qed
qed

lemma load_le_low: "(ucast (load_le tr m a (Suc n)) :: byte) = load8 tr m a"
  by (rule bit_word_eqI) (simp add: bit_ucast_iff bit_load_le del: load_le.simps)

lemma load_le_high:
  assumes "n < 8"
  shows "drop_bit 8 (load_le tr m a (Suc n)) = load_le tr m (a + 1) n"
  using assms
  by (intro bit_word_eqI) (auto simp: bit_drop_bit_eq bit_load_le add.assoc div8 simp del: load_le.simps)

lemma load_le_cong:
  "(\<And>i. i < n \<Longrightarrow> load8 tr m (a + of_nat i) = load8 tr m' (a + of_nat i)) \<Longrightarrow>
   load_le tr m a n = load_le tr m' a n"
  by (intro bit_word_eqI) (auto simp: bit_load_le)

subsection \<open>memcpy\<close>

text \<open>The reference: \<open>n\<close> bytes copied one at a time, upwards.\<close>

fun copy_ref :: "xlate \<Rightarrow> pmem \<Rightarrow> addr \<Rightarrow> addr \<Rightarrow> nat \<Rightarrow> pmem" where
  "copy_ref tr m d s 0 = m"
| "copy_ref tr m d s (Suc n) = copy_ref tr (store8 tr m d (load8 tr m s)) (d + 1) (s + 1) n"

lemma copy_ref_add:
  "copy_ref tr m d s (a + b) =
     copy_ref tr (copy_ref tr m d s a) (d + of_nat a) (s + of_nat a) b"
  by (induction a arbitrary: m d s) (simp_all add: add.assoc)

lemma copy_ref_other: "x \<notin> tr ` span d n \<Longrightarrow> copy_ref tr m d s n x = m x"
proof (induction n arbitrary: m d s)
  case (Suc n)
  then have "x \<noteq> tr d" "x \<notin> tr ` span (d + 1) n" by (auto simp: span_Suc)
  with Suc.IH show ?case by (simp add: store8_def)
qed simp

lemma copy_ref_at:
  assumes "inj_on tr (span d n)" "tr ` span d n \<inter> tr ` span s n = {}" "i < n" "n \<le> 2 ^ 64"
  shows "load8 tr (copy_ref tr m d s n) (d + of_nat i) = load8 tr m (s + of_nat i)"
  using assms
proof (induction n arbitrary: m d s i)
  case (Suc n)
  let ?m = "store8 tr m d (load8 tr m s)"
  have d_notin: "d \<notin> span (d + 1) n"
  proof
    assume "d \<in> span (d + 1) n"
    then obtain j where "j < n" "d = d + (1 + of_nat j)" by (auto simp: span_def add.assoc)
    then have "(of_nat (Suc j) :: 64 word) = of_nat 0" by (simp add: add.commute)
    then show False using \<open>j < n\<close> Suc.prems(4) of_nat_u64_inj [of "Suc j" 0] by simp
  qed
  then have td: "tr d \<notin> tr ` span (d + 1) n"
    using Suc.prems(1) by (auto simp: span_Suc inj_on_def)
  show ?case
  proof (cases i)
    case 0
    then show ?thesis using copy_ref_other [OF td] by (simp add: load8_def store8_def)
  next
    case (Suc j)
    have "load8 tr (copy_ref tr ?m (d + 1) (s + 1) n) (d + 1 + of_nat j) =
        load8 tr ?m (s + 1 + of_nat j)"
      using Suc.prems Suc by (intro Suc.IH) (auto simp: span_Suc)
    also have "\<dots> = load8 tr m (s + of_nat i)"
    proof -
      have "s + of_nat i \<in> span s (Suc n)" using Suc.prems(3) by (rule in_span)
      then have "tr (s + of_nat i) \<noteq> tr d"
        using Suc.prems(2) base_in_span [of "Suc n" d] by (auto simp: disjoint_iff)
      then show ?thesis by (simp add: load8_store8 Suc add.assoc)
    qed
    finally show ?thesis by (simp add: Suc add.assoc)
  qed
qed simp

lemma store_le_load_le:
  assumes "tr ` span d n \<inter> tr ` span s n = {}" "n \<le> 8"
  shows "store_le tr m d n (load_le tr m s n) = copy_ref tr m d s n"
  using assms
proof (induction n arbitrary: m d s)
  case (Suc n)
  let ?m = "store8 tr m d (load8 tr m s)"
  have "load8 tr m (s + 1 + of_nat i) = load8 tr ?m (s + 1 + of_nat i)" if "i < n" for i
  proof -
    have "s + 1 + of_nat i \<in> span s (Suc n)" using in_span [of "Suc i" "Suc n" s] that
      by (simp add: add.assoc)
    then have "tr (s + 1 + of_nat i) \<noteq> tr d"
      using Suc.prems(1) base_in_span [of "Suc n" d] by (auto simp: disjoint_iff)
    then show ?thesis by (simp add: load8_store8)
  qed
  then have "load_le tr m (s + 1) n = load_le tr ?m (s + 1) n" by (rule load_le_cong)
  moreover have "store_le tr ?m (d + 1) n (load_le tr ?m (s + 1) n) = copy_ref tr ?m (d + 1) (s + 1) n"
    using Suc.prems by (intro Suc.IH) (auto simp: span_Suc)
  ultimately show ?case
    using Suc.prems(2) load_le_low [of tr m s n] load_le_high [of n tr m s]
    by (simp del: load_le.simps)
qed simp

lemma memcpy_bytes_ref:
  "unat d + n < 2 ^ 64 \<Longrightarrow> memcpy_bytes tr m d s (d + of_nat n) = copy_ref tr m d s n"
proof (induction n arbitrary: m d s)
  case 0
  then show ?case by (subst memcpy_bytes.simps) simp
next
  case (Suc n)
  then have "d < d + of_nat (Suc n)" using less_add_nowrap [of d "Suc n"] by simp
  moreover have "unat (d + 1) + n < 2 ^ 64" using Suc.prems unat_Suc_nowrap [of d] by simp
  ultimately show ?case
    using Suc.IH [of "d + 1"] by (subst memcpy_bytes.simps) (simp add: add.assoc)
qed

lemma memcpy_words_ref:
  assumes "unat d + 8 * n < 2 ^ 64" "tr ` span d (8 * n) \<inter> tr ` span s (8 * n) = {}"
  shows "memcpy_words tr m d s (d + of_nat (8 * n)) = Some (copy_ref tr m d s (8 * n))"
  using assms
proof (induction n arbitrary: m d s)
  case 0
  then show ?case by (subst memcpy_words.simps) simp
next
  case (Suc n)
  have less: "d < d + of_nat (8 * Suc n)"
    using less_add_nowrap [of d "8 * Suc n"] Suc.prems(1) by simp
  have "unat (d + of_nat 8) = unat d + 8" using Suc.prems(1) by (intro unat_add_nowrap) simp
  then have wrap: "unat (d + 8) + 8 * n < 2 ^ 64" using Suc.prems(1) by simp
  have sub: "span (a + of_nat 8) (8 * n) \<subseteq> span a (8 * Suc n)" "span a 8 \<subseteq> span a (8 * Suc n)" for a
    using span_shift [of 8 "8 * n" "8 * Suc n" a] span_mono [of 8 "8 * Suc n" a] by simp_all
  have "store64 tr m d (load64 tr m s) = copy_ref tr m d s 8"
    unfolding store64_def load64_def
    using Suc.prems(2) sub(2) [of d] sub(2) [of s] by (intro store_le_load_le) blast+
  moreover have "tr ` span (d + 8) (8 * n) \<inter> tr ` span (s + 8) (8 * n) = {}"
    using Suc.prems(2) sub(1) [of d] sub(1) [of s] by (simp add: disjoint_iff) blast
  ultimately show ?case
    using less Suc.IH [of "d + 8" "s + 8" "copy_ref tr m d s 8"] wrap
      copy_ref_add [of tr m d s 8 "8 * n"]
    by (subst memcpy_words.simps) (simp add: add.assoc)
qed


subsection \<open>Alignment\<close>

lemma word_aligned_or: "word_aligned (a OR b) \<longleftrightarrow> word_aligned a \<and> word_aligned b"
  by (simp add: word_aligned_def bit.conj_disj_distrib2 or_eq_0_iff)

lemma word_aligned_dvd: "word_aligned a \<longleftrightarrow> 8 dvd unat a"
proof -
  have "a AND 7 = take_bit 3 a" by (simp add: take_bit_eq_mask mask_eq_exp_minus_1)
  moreover have "unat (take_bit 3 a) = unat a mod 8" unfolding unsigned_take_bit_eq by (simp add: take_bit_eq_mod)
  ultimately show ?thesis
    by (metis dvd_eq_mod_eq_0 unat_eq_0 word_aligned_def)
qed

subsection \<open>memset\<close>

fun fill_ref :: "xlate \<Rightarrow> pmem \<Rightarrow> addr \<Rightarrow> byte \<Rightarrow> nat \<Rightarrow> pmem" where
  "fill_ref tr m d b 0 = m"
| "fill_ref tr m d b (Suc n) = fill_ref tr (store8 tr m d b) (d + 1) b n"

lemma fill_ref_add: "fill_ref tr m d b (i + j) = fill_ref tr (fill_ref tr m d b i) (d + of_nat i) b j"
  by (induction i arbitrary: m d) (simp_all add: add.assoc)

lemma fill_ref_apply: "fill_ref tr m d b n x = (if x \<in> tr ` span d n then b else m x)"
  by (induction n arbitrary: m d) (auto simp: span_Suc store8_def)

lemma store_le_fill:
  "(\<And>k. k < 8 * n \<Longrightarrow> bit w k = bit b (k mod 8)) \<Longrightarrow> store_le tr m d n w = fill_ref tr m d b n"
proof (induction n arbitrary: m d w)
  case (Suc n)
  have "ucast w = b" using Suc.prems by (intro bit_word_eqI) (simp add: bit_ucast_iff)
  moreover have "bit (drop_bit 8 w) k = bit b (k mod 8)" if "k < 8 * n" for k
    using Suc.prems [of "8 + k"] that by (simp add: bit_drop_bit_eq)
  ultimately show ?case by (simp add: Suc.IH)
qed simp

lemma bit_repeat:
  fixes w :: u64
  assumes w: "\<And>k. bit w k \<longleftrightarrow> k < n \<and> bit b (k mod 8)" and n: "8 dvd n" and le: "2 * n \<le> 64"
  shows "bit (w OR push_bit n w) k \<longleftrightarrow> k < 2 * n \<and> bit (b :: byte) (k mod 8)"
proof -
  from mod_minus_dvd [OF n] show ?thesis
    using le by (auto simp: bit_or_iff bit_push_bit_iff w)
qed

lemma bit_memset_word: "bit (memset_word b) k \<longleftrightarrow> k < 64 \<and> bit (ucast b :: byte) (k mod 8)"
proof -
  let ?w0 = "ucast (b AND 0xFF) :: u64"
  let ?w1 = "?w0 OR push_bit 8 ?w0"
  let ?w2 = "?w1 OR push_bit 16 ?w1"
  have w0: "bit ?w0 k \<longleftrightarrow> k < 8 \<and> bit (ucast b :: byte) (k mod 8)" for k
    by (auto simp: bit_ucast_iff bit_and_iff bit_255)
  have w1: "bit ?w1 k \<longleftrightarrow> k < 16 \<and> bit (ucast b :: byte) (k mod 8)" for k
    using bit_repeat [OF w0, of k] by simp
  have w2: "bit ?w2 k \<longleftrightarrow> k < 32 \<and> bit (ucast b :: byte) (k mod 8)" for k
    using bit_repeat [OF w1, of k] by simp
  show ?thesis
    using bit_repeat [OF w2, of k] by (simp add: memset_word_def Let_def push_bit_push_bit)
qed

lemma store64_memset_word: "store64 tr m d (memset_word b) = fill_ref tr m d (ucast b) 8"
  unfolding store64_def by (rule store_le_fill) (simp add: bit_memset_word)

lemma memset_bytes_ref:
  "unat d + n < 2 ^ 64 \<Longrightarrow> memset_bytes tr m b d (d + of_nat n) = fill_ref tr m d b n"
proof (induction n arbitrary: m d)
  case 0
  then show ?case by (subst memset_bytes.simps) simp
next
  case (Suc n)
  then have "d < d + of_nat (Suc n)" using less_add_nowrap [of d "Suc n"] by simp
  moreover have "unat (d + 1) + n < 2 ^ 64" using Suc.prems unat_Suc_nowrap [of d] by simp
  ultimately show ?case
    using Suc.IH [of "d + 1"] by (subst memset_bytes.simps) (simp add: add.assoc)
qed

lemma memset_words_ref:
  "unat d + 8 * n < 2 ^ 64 \<Longrightarrow>
   memset_words tr m (memset_word b) d (d + of_nat (8 * n)) = Some (fill_ref tr m d (ucast b) (8 * n))"
proof (induction n arbitrary: m d)
  case 0
  then show ?case by (subst memset_words.simps) simp
next
  case (Suc n)
  have less: "d < d + of_nat (8 * Suc n)"
    using less_add_nowrap [of d "8 * Suc n"] Suc.prems by simp
  have "unat (d + of_nat 8) = unat d + 8" using Suc.prems by (intro unat_add_nowrap) simp
  then have "unat (d + 8) + 8 * n < 2 ^ 64" using Suc.prems by simp
  then show ?case
    using less Suc.IH [of "d + 8" "fill_ref tr m d (ucast b) 8"]
      fill_ref_add [of tr m d "ucast b" 8 "8 * n"]
    by (subst memset_words.simps) (simp add: add.assoc store64_memset_word)
qed

lemma memset_ref:
  assumes "unat dest + unat len < 2 ^ 64"
  shows "memset tr m dest b len = Some (fill_ref tr m dest (ucast b) (unat len), dest)"
proof (cases "word_aligned (dest OR len)")
  case True
  then have "word_aligned len" by (simp add: word_aligned_or)
  then obtain n where n: "unat len = 8 * n" by (auto simp: word_aligned_dvd)
  then have "len = of_nat (8 * n)" by (rule word_of_unat)
  with True n assms memset_words_ref [of dest n tr m b] show ?thesis by (simp add: memset_def)
next
  case False
  have "len = of_nat (unat len)" by simp
  with False assms memset_bytes_ref [of dest "unat len" tr m "ucast b"] show ?thesis
    by (simp add: memset_def)
qed

lemma memcpy_ref:
  assumes "unat dest + unat len < 2 ^ 64"
    and "tr ` span dest (unat len) \<inter> tr ` span src (unat len) = {}"
  shows "memcpy tr m dest src len = Some (copy_ref tr m dest src (unat len), dest)"
proof (cases "word_aligned (dest OR src OR len)")
  case True
  then have "word_aligned len" by (simp add: word_aligned_or)
  then obtain n where n: "unat len = 8 * n" by (auto simp: word_aligned_dvd)
  then have "len = of_nat (8 * n)" by (rule word_of_unat)
  with True n assms memcpy_words_ref [of dest n tr src m] show ?thesis by (simp add: memcpy_def)
next
  case False
  have "len = of_nat (unat len)" by simp
  with False assms memcpy_bytes_ref [of dest "unat len" tr m src] show ?thesis
    by (simp add: memcpy_def)
qed

subsection \<open>memcmp\<close>

lemma load64_eq_iff:
  "load64 tr m a = load64 tr m b \<longleftrightarrow> (\<forall>i<8. load8 tr m (a + of_nat i) = load8 tr m (b + of_nat i))"
proof
  assume eq: "load64 tr m a = load64 tr m b"
  show "\<forall>i<8. load8 tr m (a + of_nat i) = load8 tr m (b + of_nat i)"
  proof (intro allI impI bit_word_eqI)
    fix i k :: nat
    assume "i < 8" "k < LENGTH(8)"
    then have "bit (load64 tr m x) (8 * i + k) = bit (load8 tr m (x + of_nat i)) k" for x
      by (auto simp: load64_def bit_load_le div_plus_div_distrib_dvd_left)
    with eq show "bit (load8 tr m (a + of_nat i)) k = bit (load8 tr m (b + of_nat i)) k" by metis
  qed
next
  assume "\<forall>i<8. load8 tr m (a + of_nat i) = load8 tr m (b + of_nat i)"
  then show "load64 tr m a = load64 tr m b"
    unfolding load64_def by (intro bit_word_eqI) (auto simp: bit_load_le)
qed

lemma memcmp_bytes_skip:
  "(\<forall>i<k. load8 tr m (a + of_nat i) = load8 tr m (b + of_nat i)) \<Longrightarrow>
   memcmp_bytes tr m a b (k + n) = memcmp_bytes tr m (a + of_nat k) (b + of_nat k) n"
proof (induction k arbitrary: a b)
  case (Suc k)
  have "load8 tr m a = load8 tr m b" using Suc.prems [rule_format, of 0] by simp
  moreover have "\<forall>i<k. load8 tr m (a + 1 + of_nat i) = load8 tr m (b + 1 + of_nat i)"
    using Suc.prems [rule_format, of "Suc _"] by (simp add: add.assoc)
  ultimately show ?case using Suc.IH [of "a + 1" "b + 1"] by (simp add: add.assoc)
qed simp

lemma memcmp_words_ref:
  "unat a + 8 * k < 2 ^ 64 \<Longrightarrow>
   \<exists>j\<le>k. memcmp_words tr m a b (a + of_nat (8 * k)) = Some (a + of_nat (8 * j), b + of_nat (8 * j)) \<and>
     (\<forall>i<8 * j. load8 tr m (a + of_nat i) = load8 tr m (b + of_nat i))"
proof (induction k arbitrary: a b)
  case 0
  then show ?case by (subst memcmp_words.simps) simp
next
  case (Suc k)
  show ?case
  proof (cases "load64 tr m a = load64 tr m b")
    case False
    then show ?thesis by (subst memcmp_words.simps) (auto intro: exI [of _ 0])
  next
    case True
    have less: "a < a + of_nat (8 * Suc k)"
      using less_add_nowrap [of a "8 * Suc k"] Suc.prems by simp
    have "unat (a + of_nat 8) = unat a + 8" using Suc.prems by (intro unat_add_nowrap) simp
    then have "unat (a + 8) + 8 * k < 2 ^ 64" using Suc.prems by simp
    then obtain j where j: "j \<le> k"
      "memcmp_words tr m (a + 8) (b + 8) (a + 8 + of_nat (8 * k)) =
         Some (a + 8 + of_nat (8 * j), b + 8 + of_nat (8 * j))"
      "\<forall>i<8 * j. load8 tr m (a + 8 + of_nat i) = load8 tr m (b + 8 + of_nat i)"
      using Suc.IH [of "a + 8" "b + 8"] by blast
    have "load8 tr m (a + of_nat i) = load8 tr m (b + of_nat i)" if "i < 8 * Suc j" for i
    proof (cases "i < 8")
      case True
      with \<open>load64 tr m a = load64 tr m b\<close> show ?thesis by (simp add: load64_eq_iff)
    next
      case False
      then obtain l where "i = 8 + l" by (metis le_Suc_ex not_less)
      with that j(3) show ?thesis by (simp add: add.assoc)
    qed
    moreover have "memcmp_words tr m a b (a + of_nat (8 * Suc k)) =
        Some (a + of_nat (8 * Suc j), b + of_nat (8 * Suc j))"
      using less True j(2) by (subst memcmp_words.simps) (simp add: add.assoc)
    ultimately show ?thesis using j(1) by (intro exI [of _ "Suc j"]) auto
  qed
qed

lemma memcmp_ref:
  assumes "unat s1 + unat n < 2 ^ 64"
  shows "memcmp tr m s1 s2 n = Some (memcmp_bytes tr m s1 s2 (unat n))"
proof (cases "word_aligned (s1 OR s2)")
  case False
  then show ?thesis by (simp add: memcmp_def)
next
  case True
  define k where "k = unat n div 8"
  have k8: "8 * k \<le> unat n" by (simp add: k_def)
  have "unat (n div 8) = k" by (simp add: k_def unat_div)
  then have e: "8 * (n div 8) = of_nat (8 * k)"
    using word_of_unat [of "n div 8" k] by simp
  obtain j where j: "j \<le> k"
    "memcmp_words tr m s1 s2 (s1 + of_nat (8 * k)) = Some (s1 + of_nat (8 * j), s2 + of_nat (8 * j))"
    "\<forall>i<8 * j. load8 tr m (s1 + of_nat i) = load8 tr m (s2 + of_nat i)"
    using memcmp_words_ref [of s1 k tr m s2] assms k8 by auto
  have "8 * j \<le> unat n" using j(1) k8 by simp
  moreover have "n - of_nat (8 * j) = of_nat (unat n - 8 * j)"
    using \<open>8 * j \<le> unat n\<close> by (simp add: of_nat_diff)
  moreover have "unat n - 8 * j < 2 ^ 64" using unat_u64_less [of n] by simp
  ultimately have "unat (n - of_nat (8 * j)) = unat n - 8 * j"
    by (simp only: unat_of_nat) simp
  with True j memcmp_bytes_skip [OF j(3), of "unat n - 8 * j"] \<open>8 * j \<le> unat n\<close>
  show ?thesis by (simp add: memcmp_def e)
qed

lemma memcmp_bytes_eq_0:
  "memcmp_bytes tr m a b n = 0 \<longleftrightarrow> (\<forall>i<n. load8 tr m (a + of_nat i) = load8 tr m (b + of_nat i))"
proof (induction n arbitrary: a b)
  case (Suc n)
  show ?case
    using Suc.IH [of "a + 1" "b + 1"]
    by (auto simp: Let_def less_Suc_eq_0_disj add.assoc word_uint_eq_iff [symmetric])
qed simp


lemma memcmp_bytes_sign:
  assumes "\<forall>j<i. load8 tr m (a + of_nat j) = load8 tr m (b + of_nat j)"
    and "i < n" and "load8 tr m (a + of_nat i) \<noteq> load8 tr m (b + of_nat i)"
  shows "memcmp_bytes tr m a b n = uint (load8 tr m (a + of_nat i)) - uint (load8 tr m (b + of_nat i))"
proof -
  obtain l where "n = i + Suc l" using assms(2) by (auto simp: less_iff_Suc_add)
  with memcmp_bytes_skip [OF assms(1), of "Suc l"] assms(3) show ?thesis by (simp add: Let_def)
qed

subsection \<open>Strings\<close>

text \<open>The bytes at \<open>p\<close> are \<open>cs\<close>, none of them 0, followed by the terminating 0.\<close>

fun cstr_at :: "xlate \<Rightarrow> pmem \<Rightarrow> addr \<Rightarrow> byte list \<Rightarrow> bool" where
  "cstr_at tr m p [] \<longleftrightarrow> load8 tr m p = 0"
| "cstr_at tr m p (c # cs) \<longleftrightarrow> load8 tr m p = c \<and> c \<noteq> 0 \<and> cstr_at tr m (p + 1) cs"

lemma strlen_from_cstr:
  "cstr_at tr m p cs \<Longrightarrow> strlen_from tr m p = Some (p + of_nat (length cs))"
proof (induction cs arbitrary: p)
  case Nil
  then show ?case by (subst strlen_from.simps) simp
next
  case (Cons c cs)
  then show ?case by (subst strlen_from.simps) (simp add: add.assoc)
qed

fun strcmp_ref :: "byte list \<Rightarrow> byte list \<Rightarrow> int" where
  "strcmp_ref [] [] = 0"
| "strcmp_ref [] (d # ds) = - uint d"
| "strcmp_ref (c # cs) [] = uint c"
| "strcmp_ref (c # cs) (d # ds) = (if c = d then strcmp_ref cs ds else uint c - uint d)"

lemma strcmp_cstr:
  "cstr_at tr m p cs \<Longrightarrow> cstr_at tr m q ds \<Longrightarrow> strcmp tr m p q = Some (strcmp_ref cs ds)"
proof (induction cs ds arbitrary: p q rule: strcmp_ref.induct)
  case 1
  then show ?case by (subst strcmp.simps) (simp add: Let_def)
next
  case (2 d ds)
  then show ?case by (subst strcmp.simps) (auto simp: Let_def)
next
  case (3 c cs)
  then show ?case by (subst strcmp.simps) (auto simp: Let_def)
next
  case (4 c cs d ds)
  then show ?case by (subst strcmp.simps) (auto simp: Let_def)
qed

lemma uint_pos: "(x :: byte) \<noteq> 0 \<Longrightarrow> 0 < uint x"
  by (simp add: word_neq_0_conv word_less_def)

lemma strcmp_ref_sign:
  "0 \<notin> set cs \<Longrightarrow> 0 \<notin> set ds \<Longrightarrow>
   (strcmp_ref cs ds = 0 \<longleftrightarrow> cs = ds) \<and> (strcmp_ref cs ds < 0 \<longleftrightarrow> ord_class.lexordp cs ds)"
proof (induction cs ds rule: strcmp_ref.induct)
  case (4 c cs d ds)
  then show ?case by (auto simp: word_less_def word_uint_eq_iff)
qed (use uint_pos in \<open>force\<close>)+

lemma cstr_at_nonzero: "cstr_at tr m p cs \<Longrightarrow> 0 \<notin> set cs"
  by (induction cs arbitrary: p) auto

text \<open>A store outside the string's bytes leaves the string as it is.\<close>

lemma cstr_at_cong:
  "(\<And>i. i \<le> length cs \<Longrightarrow> load8 tr m (p + of_nat i) = load8 tr m' (p + of_nat i)) \<Longrightarrow>
   cstr_at tr m p cs \<longleftrightarrow> cstr_at tr m' p cs"
proof (induction cs arbitrary: p)
  case Nil
  then show ?case using Nil [of 0] by simp
next
  case (Cons c cs)
  have "cstr_at tr m (p + 1) cs \<longleftrightarrow> cstr_at tr m' (p + 1) cs"
    using Cons.prems [of "Suc _"] by (intro Cons.IH) (simp add: add.assoc)
  then show ?case using Cons.prems [of 0] by simp
qed

lemma cstr_at_iff_nth:
  "cstr_at tr m p cs \<longleftrightarrow>
     (\<forall>i<length cs. load8 tr m (p + of_nat i) = cs ! i \<and> cs ! i \<noteq> 0) \<and>
     load8 tr m (p + of_nat (length cs)) = 0"
proof (induction cs arbitrary: p)
  case (Cons c cs)
  show ?case
    by (auto simp: Cons.IH [of "p + 1"] add.assoc less_Suc_eq_0_disj)
qed simp

lemma strcpy_loop_ref:
  assumes "cstr_at tr m s cs"
    and "tr ` span d (Suc (length cs)) \<inter> tr ` span s (Suc (length cs)) = {}"
  shows "strcpy_loop tr m d s = Some (copy_ref tr m d s (Suc (length cs)))"
  using assms
proof (induction cs arbitrary: m d s)
  case Nil
  then show ?case by (subst strcpy_loop.simps) (simp add: Let_def)
next
  case (Cons c cs)
  let ?m = "store8 tr m d (load8 tr m s)"
  have "load8 tr ?m (s + 1 + of_nat i) = load8 tr m (s + 1 + of_nat i)" if "i \<le> length cs" for i
  proof -
    have "s + 1 + of_nat i \<in> span s (Suc (length (c # cs)))"
      using in_span [of "Suc i" "Suc (length (c # cs))" s] that by (simp add: add.assoc)
    then have "tr (s + 1 + of_nat i) \<noteq> tr d"
      using Cons.prems(2) base_in_span [of "Suc (length (c # cs))" d] by (auto simp: disjoint_iff)
    then show ?thesis by (simp add: load8_store8)
  qed
  then have "cstr_at tr ?m (s + 1) cs"
    using Cons.prems(1) cstr_at_cong [of cs tr ?m "s + 1" m] by simp
  then have "strcpy_loop tr ?m (d + 1) (s + 1) = Some (copy_ref tr ?m (d + 1) (s + 1) (Suc (length cs)))"
    using Cons.prems(2) by (intro Cons.IH) (auto simp: span_Suc)
  then show ?case using Cons.prems(1) by (subst strcpy_loop.simps) (simp add: Let_def)
qed

subsection \<open>Numbers\<close>

definition digits_value :: "nat list \<Rightarrow> nat" where
  "digits_value ds = foldl (\<lambda>v d. v * 10 + d) 0 ds"

definition digit_char :: "nat \<Rightarrow> byte" where
  "digit_char d = of_nat (48 + d)"

lemma digit_char:
  assumes "d < 10"
  shows "digit_char d \<noteq> 0" "digit_char d \<noteq> 32" "digit_char d \<noteq> 45" "digit_char d \<noteq> 43"
    "(ucast (digit_char d) :: u64) - 48 = of_nat d"
proof -
  have "d \<in> {0,1,2,3,4,5,6,7,8,9}" using assms by auto
  then show "digit_char d \<noteq> 0" "digit_char d \<noteq> 32" "digit_char d \<noteq> 45" "digit_char d \<noteq> 43"
    "(ucast (digit_char d) :: u64) - 48 = of_nat d"
    by (auto simp: digit_char_def)
qed

lemma atol_digits_cstr:
  "cstr_at tr m p (map digit_char ds) \<Longrightarrow> \<forall>d\<in>set ds. d < 10 \<Longrightarrow>
   atol_digits tr m p (of_nat v) = Some (of_nat (foldl (\<lambda>v d. v * 10 + d) v ds))"
proof (induction ds arbitrary: p v)
  case Nil
  then show ?case by (subst atol_digits.simps) simp
next
  case (Cons d ds)
  have "of_nat v * 10 + of_nat d = (of_nat (v * 10 + d) :: u64)" by simp
  with Cons show ?case
    by (subst atol_digits.simps) (simp add: digit_char del: of_nat_add of_nat_mult)
qed

lemma skip_spaces_cstr:
  "cstr_at tr m p (replicate k 32 @ cs) \<Longrightarrow> (cs \<noteq> [] \<Longrightarrow> hd cs \<noteq> 32) \<Longrightarrow>
   skip_spaces tr m p = Some (p + of_nat k) \<and> cstr_at tr m (p + of_nat k) cs"
proof (induction k arbitrary: p)
  case 0
  then show ?case by (subst skip_spaces.simps) (cases cs; simp)
next
  case (Suc k)
  then show ?case using Suc.IH [of "p + 1"] by (subst skip_spaces.simps) (simp add: add.assoc)
qed

text \<open>A numeral: spaces, an optional sign, decimal digits.\<close>

datatype sign = NoSign | Plus | Minus

fun sign_chars :: "sign \<Rightarrow> byte list" where
  "sign_chars NoSign = []"
| "sign_chars Plus = [43]"
| "sign_chars Minus = [45]"

definition numeral_chars :: "nat \<Rightarrow> sign \<Rightarrow> nat list \<Rightarrow> byte list" where
  "numeral_chars k sg ds = replicate k 32 @ sign_chars sg @ map digit_char ds"

lemma atol_cstr:
  assumes str: "cstr_at tr m p (numeral_chars k sg ds)" and ds: "\<forall>d\<in>set ds. d < 10"
  shows "atol tr m p = Some (if sg = Minus then - of_nat (digits_value ds) else of_nat (digits_value ds))"
proof -
  let ?q = "p + of_nat k"
  have "sign_chars sg @ map digit_char ds \<noteq> [] \<Longrightarrow> hd (sign_chars sg @ map digit_char ds) \<noteq> 32"
    using ds by (cases sg; cases ds) (auto simp: digit_char)
  then have sk: "skip_spaces tr m p = Some ?q"
    and q: "cstr_at tr m ?q (sign_chars sg @ map digit_char ds)"
    using skip_spaces_cstr [of tr m p k "sign_chars sg @ map digit_char ds"] str
    by (auto simp: numeral_chars_def)
  have val: "atol_digits tr m r 0 = Some (of_nat (digits_value ds))"
    if "cstr_at tr m r (map digit_char ds)" for r
    using atol_digits_cstr [OF that ds, of 0] by (simp add: digits_value_def)
  show ?thesis
  proof (cases sg)
    case NoSign
    then have "load8 tr m ?q \<noteq> 45 \<and> load8 tr m ?q \<noteq> 43"
      using q ds by (cases ds) (auto simp: digit_char)
    with NoSign q sk val [of ?q] show ?thesis by (simp add: atol_def Let_def)
  next
    case Plus
    with q sk val [of "?q + 1"] show ?thesis by (simp add: atol_def Let_def)
  next
    case Minus
    with q sk val [of "?q + 1"] show ?thesis by (simp add: atol_def Let_def)
  qed
qed


subsection \<open>The contract the library needs of the address space\<close>

text \<open>
  The routines are right on any part \<open>A\<close> of the address space whose translation is
  injective: two virtual addresses of \<open>A\<close> never name the same physical byte. The virtual
  memory component provides such parts (the kernel window, a user page with its home page).
\<close>

locale address_space =
  fixes tr :: xlate and A :: "addr set"
  assumes inj_tr: "inj_on tr A"
begin

lemma images_disjoint: "X \<subseteq> A \<Longrightarrow> Y \<subseteq> A \<Longrightarrow> X \<inter> Y = {} \<Longrightarrow> tr ` X \<inter> tr ` Y = {}"
  using inj_on_image_Int [OF inj_tr, of X Y] by simp

lemma memcpy_copies:
  assumes "span dest (unat len) \<subseteq> A" "span src (unat len) \<subseteq> A"
    and "span dest (unat len) \<inter> span src (unat len) = {}" and "unat dest + unat len < 2 ^ 64"
  shows "\<exists>m'. memcpy tr m dest src len = Some (m', dest) \<and>
    (\<forall>i<unat len. load8 tr m' (dest + of_nat i) = load8 tr m (src + of_nat i)) \<and>
    (\<forall>x. x \<notin> tr ` span dest (unat len) \<longrightarrow> m' x = m x)"
proof -
  let ?m = "copy_ref tr m dest src (unat len)"
  have dj: "tr ` span dest (unat len) \<inter> tr ` span src (unat len) = {}"
    using assms by (intro images_disjoint)
  have inj: "inj_on tr (span dest (unat len))" using inj_tr assms(1) by (rule inj_on_subset)
  have "memcpy tr m dest src len = Some (?m, dest)" using assms(4) dj by (rule memcpy_ref)
  moreover have "\<forall>i<unat len. load8 tr ?m (dest + of_nat i) = load8 tr m (src + of_nat i)"
    using copy_ref_at [OF inj dj] unat_u64_less [of len] by simp
  ultimately show ?thesis using copy_ref_other by blast
qed

lemma memset_fills:
  assumes "span dest (unat len) \<subseteq> A" "unat dest + unat len < 2 ^ 64"
  shows "\<exists>m'. memset tr m dest b len = Some (m', dest) \<and>
    (\<forall>x\<in>A. load8 tr m' x = (if x \<in> span dest (unat len) then ucast b else load8 tr m x))"
proof -
  have "tr x \<in> tr ` span dest (unat len) \<longleftrightarrow> x \<in> span dest (unat len)" if "x \<in> A" for x
    using inj_on_image_mem_iff [OF inj_tr that assms(1)] .
  then show ?thesis
    using memset_ref [OF assms(2)] by (simp add: fill_ref_apply load8_def)
qed

lemma strcpy_copies:
  assumes "cstr_at tr m src cs" and "span dest (Suc (length cs)) \<subseteq> A" "span src (Suc (length cs)) \<subseteq> A"
    and "span dest (Suc (length cs)) \<inter> span src (Suc (length cs)) = {}"
    and "Suc (length cs) \<le> 2 ^ 64"
  shows "\<exists>m'. strcpy tr m dest src = Some (m', dest) \<and> cstr_at tr m' dest cs \<and>
    (\<forall>x. x \<notin> tr ` span dest (Suc (length cs)) \<longrightarrow> m' x = m x)"
proof -
  let ?n = "Suc (length cs)"
  let ?m = "copy_ref tr m dest src ?n"
  have dj: "tr ` span dest ?n \<inter> tr ` span src ?n = {}" using assms by (intro images_disjoint)
  have inj: "inj_on tr (span dest ?n)" using inj_tr assms(2) by (rule inj_on_subset)
  have "load8 tr ?m (dest + of_nat i) = load8 tr m (src + of_nat i)" if "i < ?n" for i
    using copy_ref_at [OF inj dj that assms(5)] .
  then have "cstr_at tr ?m dest cs"
    using assms(1) by (simp add: cstr_at_iff_nth del: copy_ref.simps)
  moreover have "strcpy tr m dest src = Some (?m, dest)"
    using strcpy_loop_ref [OF assms(1) dj] by (simp add: strcpy_def)
  ultimately show ?thesis using copy_ref_other by blast
qed

end

text \<open>With paging off the translation is the identity, and all of memory is such a part.\<close>

interpretation flat: address_space id UNIV
  by unfold_locales simp

subsection \<open>Properties\<close>

text \<open>
  C22 (memcpy). Where the translation is injective on the two ranges, the ranges do not overlap
  and the destination does not wrap around, memcpy returns the destination, every byte of the
  destination is the source's byte, and no other physical byte changes. This holds for the
  word-at-a-time loop and for the byte loop alike.
\<close>

theorem memcpy_correct:
  assumes "inj_on tr (span dest (unat len) \<union> span src (unat len))"
    and "span dest (unat len) \<inter> span src (unat len) = {}"
    and "unat dest + unat len < 2 ^ 64"
  shows "\<exists>m'. memcpy tr m dest src len = Some (m', dest) \<and>
    (\<forall>i<unat len. load8 tr m' (dest + of_nat i) = load8 tr m (src + of_nat i)) \<and>
    (\<forall>x. x \<notin> tr ` span dest (unat len) \<longrightarrow> m' x = m x)"
  using address_space.memcpy_copies [OF address_space.intro [OF assms(1)], of dest len src m] assms(2,3)
  by simp

theorem memcpy_correct_witness:
  "\<exists>m'. memcpy id (\<lambda>a. ucast a) 0x1000 0x2008 16 = Some (m', 0x1000) \<and>
     (\<forall>i<16. load8 id m' (0x1000 + of_nat i) = load8 id (\<lambda>a. ucast a) (0x2008 + of_nat i)) \<and>
     (\<forall>x. x \<notin> id ` span 0x1000 16 \<longrightarrow> m' x = ucast x)"
  using memcpy_correct [of id "0x1000" 16 "0x2008" "\<lambda>a. ucast a"] span_disjoint [of "0x1000" 16 "0x2008" 16]
  by simp

text \<open>
  C33 (memset). memset returns the destination and turns exactly the bytes of its range into
  the low byte of its argument, whether it runs the word loop over the replicated byte or the
  byte loop.
\<close>

theorem memset_correct:
  assumes "inj_on tr A" and "span dest (unat len) \<subseteq> A" and "unat dest + unat len < 2 ^ 64"
  shows "\<exists>m'. memset tr m dest b len = Some (m', dest) \<and>
    (\<forall>x\<in>A. load8 tr m' x = (if x \<in> span dest (unat len) then ucast b else load8 tr m x))"
  using assms(2,3) by (rule address_space.memset_fills [OF address_space.intro [OF assms(1)]])

theorem memset_correct_witness:
  "\<exists>m'. memset id (\<lambda>_. 7) 0x1000 0x1FF 24 = Some (m', 0x1000) \<and>
    (\<forall>x\<in>UNIV. load8 id m' x = (if x \<in> span 0x1000 24 then ucast (0x1FF :: u32) else load8 id (\<lambda>_. 7) x))"
  using memset_correct [of id UNIV "0x1000" 24 "\<lambda>_. 7" "0x1FF"] by simp

text \<open>
  C23 (memcmp). memcmp returns (its word loop stops and hands over to the byte loop) with the
  result of the byte-by-byte comparison: 0 exactly when the ranges agree, otherwise the
  difference of the first two bytes that differ, taken as unsigned values.
\<close>

theorem memcmp_correct:
  assumes "unat s1 + unat n < 2 ^ 64"
  shows "\<exists>r. memcmp tr m s1 s2 n = Some r \<and>
    (r = 0 \<longleftrightarrow> (\<forall>i<unat n. load8 tr m (s1 + of_nat i) = load8 tr m (s2 + of_nat i))) \<and>
    (\<forall>i<unat n. (\<forall>j<i. load8 tr m (s1 + of_nat j) = load8 tr m (s2 + of_nat j)) \<longrightarrow>
       load8 tr m (s1 + of_nat i) \<noteq> load8 tr m (s2 + of_nat i) \<longrightarrow>
       r = uint (load8 tr m (s1 + of_nat i)) - uint (load8 tr m (s2 + of_nat i)))"
  using memcmp_ref [OF assms, of tr m s2] memcmp_bytes_eq_0 [of tr m s1 s2 "unat n"]
    memcmp_bytes_sign [of _ tr m s1 s2 "unat n"]
  by simp

theorem memcmp_correct_witness:
  "\<exists>r. memcmp id (\<lambda>a. if a = 0x1001 then 5 else 3) 0x1000 0x2000 12 = Some r \<and> r = 2"
proof -
  obtain r where r: "memcmp id (\<lambda>a. if a = 0x1001 then 5 else 3) 0x1000 0x2000 12 = Some r"
    and "\<forall>i<unat (12 :: u64). (\<forall>j<i. load8 id (\<lambda>a. if a = 0x1001 then 5 else 3) (0x1000 + of_nat j) =
        load8 id (\<lambda>a. if a = 0x1001 then 5 else 3) (0x2000 + of_nat j)) \<longrightarrow>
      load8 id (\<lambda>a. if a = 0x1001 then 5 else 3) (0x1000 + of_nat i) \<noteq>
        load8 id (\<lambda>a. if a = 0x1001 then 5 else 3) (0x2000 + of_nat i) \<longrightarrow>
      r = uint (load8 id (\<lambda>a. if a = 0x1001 then 5 else 3) (0x1000 + of_nat i)) -
          uint (load8 id (\<lambda>a. if a = 0x1001 then 5 else 3) (0x2000 + of_nat i))"
    using memcmp_correct [of "0x1000" 12 id "\<lambda>a. if a = 0x1001 then 5 else 3" "0x2000"] by auto
  then have "r = 2" by (auto simp: load8_def dest!: spec [of _ 1])
  with r show ?thesis by blast
qed

text \<open>
  C27 (strcmp). On two NUL-terminated strings strcmp returns; the result is 0 exactly for equal
  strings and negative exactly when the first one precedes the second in the dictionary order
  of unsigned bytes.
\<close>

theorem strcmp_correct:
  assumes "cstr_at tr m p cs" and "cstr_at tr m q ds"
  shows "\<exists>r. strcmp tr m p q = Some r \<and> (r = 0 \<longleftrightarrow> cs = ds) \<and> (r < 0 \<longleftrightarrow> ord_class.lexordp cs ds)"
  using strcmp_cstr [OF assms] strcmp_ref_sign [of cs ds] cstr_at_nonzero assms by blast

theorem strcmp_correct_witness:
  "\<exists>r. strcmp id (\<lambda>a. if a = 0 then 97 else if a = 4 then 98 else 0) 0 4 = Some r \<and> r < 0"
  using strcmp_correct [of id "\<lambda>a. if a = 0 then 97 else if a = 4 then 98 else 0" 0 "[97]" 4 "[98]"]
  by (auto simp: load8_def)

text \<open>
  C34 (strcpy). strcpy of a NUL-terminated string returns, leaves that string at the destination
  (terminator included) and changes no physical byte outside it.
\<close>

theorem strcpy_correct:
  assumes "cstr_at tr m src cs" and "Suc (length cs) \<le> 2 ^ 64"
    and "inj_on tr (span dest (Suc (length cs)) \<union> span src (Suc (length cs)))"
    and "span dest (Suc (length cs)) \<inter> span src (Suc (length cs)) = {}"
  shows "\<exists>m'. strcpy tr m dest src = Some (m', dest) \<and> cstr_at tr m' dest cs \<and>
    (\<forall>x. x \<notin> tr ` span dest (Suc (length cs)) \<longrightarrow> m' x = m x)"
  using address_space.strcpy_copies [OF address_space.intro [OF assms(3)] assms(1), of dest] assms(2,4)
  by simp

theorem strcpy_correct_witness:
  "\<exists>m'. strcpy id (\<lambda>a. if a = 0x20 then 97 else 0) 0x40 0x20 = Some (m', 0x40) \<and>
     cstr_at id m' 0x40 [97]"
  using strcpy_correct [of id "\<lambda>a. if a = 0x20 then 97 else 0" "0x20" "[97]" "0x40"]
    span_disjoint [of "0x20" "Suc (Suc 0)" "0x40" "Suc (Suc 0)"]
  by (auto simp: load8_def Int_commute)

text \<open>
  C28 (atol). On a string of spaces, an optional sign and decimal digits, atol returns the
  number it denotes; up to \<open>LONG_MAX\<close> the returned \<open>long\<close> is that number.
\<close>

theorem atol_correct:
  assumes "cstr_at tr m p (numeral_chars k sg ds)" and "\<forall>d\<in>set ds. d < 10"
    and "digits_value ds < 2 ^ 63"
  shows "\<exists>r. atol tr m p = Some r \<and>
    sint r = (if sg = Minus then - int (digits_value ds) else int (digits_value ds))"
proof -
  let ?i = "if sg = Minus then - int (digits_value ds) else int (digits_value ds)"
  have "atol tr m p = Some (of_int ?i)" using atol_cstr [OF assms(1,2)] by simp
  moreover have "sint (of_int ?i :: u64) = ?i" using assms(3) by (intro sint_of_int) auto
  ultimately show ?thesis by blast
qed

theorem atol_correct_witness:
  "\<exists>r. atol id (\<lambda>a. if a = 0 then 32 else if a = 1 then 45 else if a = 2 then 52 else if a = 3 then 50 else 0) 0 =
     Some r \<and> sint r = - 42"
  using atol_correct [of id "\<lambda>a. if a = 0 then 32 else if a = 1 then 45 else if a = 2 then 52 else if a = 3 then 50 else 0"
    0 1 Minus "[4, 2]"]
  by (simp add: numeral_chars_def digit_char_def load8_def digits_value_def)

end
