(* ===== verification/Encoding.thy ===== *)
theory Encoding
  imports Prelude
begin

section \<open>The privileged-architecture constants of encoding.h\<close>

text \<open>
  \<open>micro-arch-tests/performance_tests/env/encoding.h\<close>, lines 1 to 255: the numbers of the
  performance events, the fields of the control registers, the page-table entry bits and the
  memory map the C test environment is built on. A group of macros is a table from the macro's
  name to its value (in the order of the header); a macro that the C code uses is also a
  constant of its own. The instruction, CSR and cause tables follow in their own theories.
\<close>

subsection \<open>Tables\<close>

text \<open>The event numbers written to the \<open>mhpmevent\<close> registers.\<close>

definition perf_event_ids :: "(string \<times> u64) list" where
  "perf_event_ids = [
   (''misprediction'', 1),
   (''exceptions'', 2),
   (''interrupts'', 3),
   (''csrops'', 4),
   (''jumps'', 5),
   (''branches'', 6),
   (''floats'', 7),
   (''muldiv'', 8),
   (''rawstalls'', 9),
   (''exetalls'', 10),
   (''icache_access'', 11),
   (''icache_miss'', 12),
   (''icache_fbhit'', 13),
   (''icache_ncaccess'', 14),
   (''icache_fbrelease'', 15),
   (''dcache_read_access'', 16),
   (''dcache_write_access'', 17),
   (''dcache_atomic_access'', 18),
   (''dcache_nc_read_access'', 19),
   (''dcache_nc_write_access'', 20),
   (''dcache_read_miss'', 21),
   (''dcache_write_miss'', 22),
   (''dcache_atomic_miss'', 23),
   (''dcache_read_fb_hits'', 24),
   (''dcache_write_fb_hits'', 25),
   (''dcache_atomic_fb_hits'', 26),
   (''dcache_fb_releases'', 27),
   (''dcache_line_evictions'', 28),
   (''itlb_misses'', 29),
   (''dtlb_misses'', 30)]"

text \<open>Fields of mstatus, as masks.\<close>

definition mstatus_fields :: "(string \<times> u64) list" where
  "mstatus_fields = [
   (''MSTATUS_UIE'', 0x00000001),
   (''MSTATUS_SIE'', 0x00000002),
   (''MSTATUS_HIE'', 0x00000004),
   (''MSTATUS_MIE'', 0x00000008),
   (''MSTATUS_UPIE'', 0x00000010),
   (''MSTATUS_SPIE'', 0x00000020),
   (''MSTATUS_HPIE'', 0x00000040),
   (''MSTATUS_MPIE'', 0x00000080),
   (''MSTATUS_SPP'', 0x00000100),
   (''MSTATUS_HPP'', 0x00000600),
   (''MSTATUS_MPP'', 0x00001800),
   (''MSTATUS_FS'', 0x00006000),
   (''MSTATUS_XS'', 0x00018000),
   (''MSTATUS_MPRV'', 0x00020000),
   (''MSTATUS_SUM'', 0x00040000),
   (''MSTATUS_MXR'', 0x00080000),
   (''MSTATUS_TVM'', 0x00100000),
   (''MSTATUS_TW'', 0x00200000),
   (''MSTATUS_TSR'', 0x00400000),
   (''MSTATUS32_SD'', 0x80000000),
   (''MSTATUS_UXL'', 0x0000000300000000),
   (''MSTATUS_SXL'', 0x0000000C00000000),
   (''MSTATUS64_SD'', 0x8000000000000000)]"

text \<open>Fields of sstatus, as masks.\<close>

definition sstatus_fields :: "(string \<times> u64) list" where
  "sstatus_fields = [
   (''SSTATUS_UIE'', 0x00000001),
   (''SSTATUS_SIE'', 0x00000002),
   (''SSTATUS_UPIE'', 0x00000010),
   (''SSTATUS_SPIE'', 0x00000020),
   (''SSTATUS_SPP'', 0x00000100),
   (''SSTATUS_FS'', 0x00006000),
   (''SSTATUS_XS'', 0x00018000),
   (''SSTATUS_SUM'', 0x00040000),
   (''SSTATUS_MXR'', 0x00080000),
   (''SSTATUS32_SD'', 0x80000000),
   (''SSTATUS_UXL'', 0x0000000300000000),
   (''SSTATUS64_SD'', 0x8000000000000000)]"

text \<open>Fields of dcsr, as masks.\<close>

definition dcsr_fields :: "(string \<times> u64) list" where
  "dcsr_fields = [
   (''DCSR_XDEBUGVER'', push_bit 30 3),
   (''DCSR_NDRESET'', push_bit 29 1),
   (''DCSR_FULLRESET'', push_bit 28 1),
   (''DCSR_EBREAKM'', push_bit 15 1),
   (''DCSR_EBREAKH'', push_bit 14 1),
   (''DCSR_EBREAKS'', push_bit 13 1),
   (''DCSR_EBREAKU'', push_bit 12 1),
   (''DCSR_STOPCYCLE'', push_bit 10 1),
   (''DCSR_STOPTIME'', push_bit 9 1),
   (''DCSR_CAUSE'', push_bit 6 7),
   (''DCSR_DEBUGINT'', push_bit 5 1),
   (''DCSR_HALT'', push_bit 3 1),
   (''DCSR_STEP'', push_bit 2 1),
   (''DCSR_PRV'', push_bit 0 3)]"

text \<open>Values of the cause field of dcsr.\<close>

definition dcsr_causes :: "(string \<times> u64) list" where
  "dcsr_causes = [
   (''DCSR_CAUSE_NONE'', 0),
   (''DCSR_CAUSE_SWBP'', 1),
   (''DCSR_CAUSE_HWBP'', 2),
   (''DCSR_CAUSE_DEBUGINT'', 3),
   (''DCSR_CAUSE_STEP'', 4),
   (''DCSR_CAUSE_HALT'', 5)]"

text \<open>Fields of mcontrol whose place does not depend on XLEN.\<close>

definition mcontrol_fields :: "(string \<times> u64) list" where
  "mcontrol_fields = [
   (''MCONTROL_SELECT'', push_bit 19 1),
   (''MCONTROL_TIMING'', push_bit 18 1),
   (''MCONTROL_ACTION'', push_bit 12 0x3f),
   (''MCONTROL_CHAIN'', push_bit 11 1),
   (''MCONTROL_MATCH'', push_bit 7 0xf),
   (''MCONTROL_M'', push_bit 6 1),
   (''MCONTROL_H'', push_bit 5 1),
   (''MCONTROL_S'', push_bit 4 1),
   (''MCONTROL_U'', push_bit 3 1),
   (''MCONTROL_EXECUTE'', push_bit 2 1),
   (''MCONTROL_STORE'', push_bit 1 1),
   (''MCONTROL_LOAD'', push_bit 0 1)]"

text \<open>Values of the type, action and match fields of mcontrol.\<close>

definition mcontrol_values :: "(string \<times> u64) list" where
  "mcontrol_values = [
   (''MCONTROL_TYPE_NONE'', 0),
   (''MCONTROL_TYPE_MATCH'', 2),
   (''MCONTROL_ACTION_DEBUG_EXCEPTION'', 0),
   (''MCONTROL_ACTION_DEBUG_MODE'', 1),
   (''MCONTROL_ACTION_TRACE_START'', 2),
   (''MCONTROL_ACTION_TRACE_STOP'', 3),
   (''MCONTROL_ACTION_TRACE_EMIT'', 4),
   (''MCONTROL_MATCH_EQUAL'', 0),
   (''MCONTROL_MATCH_NAPOT'', 1),
   (''MCONTROL_MATCH_GE'', 2),
   (''MCONTROL_MATCH_LT'', 3),
   (''MCONTROL_MATCH_MASK_LOW'', 4),
   (''MCONTROL_MATCH_MASK_HIGH'', 5)]"

text \<open>Bits of mip and sip: \<open>1 << IRQ_*\<close>, with the interrupt number written in.\<close>

definition mip_fields :: "(string \<times> u64) list" where
  "mip_fields = [
   (''MIP_SSIP'', push_bit 1 1),
   (''MIP_HSIP'', push_bit 2 1),
   (''MIP_MSIP'', push_bit 3 1),
   (''MIP_STIP'', push_bit 5 1),
   (''MIP_HTIP'', push_bit 6 1),
   (''MIP_MTIP'', push_bit 7 1),
   (''MIP_SEIP'', push_bit 9 1),
   (''MIP_HEIP'', push_bit 10 1),
   (''MIP_MEIP'', push_bit 11 1),
   (''SIP_SSIP'', push_bit 1 1),
   (''SIP_STIP'', push_bit 5 1)]"

text \<open>Privilege levels.\<close>

definition privilege_levels :: "(string \<times> u64) list" where
  "privilege_levels = [
   (''PRV_U'', 0),
   (''PRV_S'', 1),
   (''PRV_H'', 2),
   (''PRV_M'', 3)]"

text \<open>Fields of satp for both widths.\<close>

definition satp_fields :: "(string \<times> u64) list" where
  "satp_fields = [
   (''SATP32_MODE'', 0x80000000),
   (''SATP32_ASID'', 0x7FC00000),
   (''SATP32_PPN'', 0x003FFFFF),
   (''SATP64_MODE'', 0xF000000000000000),
   (''SATP64_ASID'', 0x0FFFF00000000000),
   (''SATP64_PPN'', 0x00000FFFFFFFFFFF)]"

text \<open>Values of the mode field of satp.\<close>

definition satp_modes :: "(string \<times> u64) list" where
  "satp_modes = [
   (''SATP_MODE_OFF'', 0),
   (''SATP_MODE_SV32'', 1),
   (''SATP_MODE_SV39'', 8),
   (''SATP_MODE_SV48'', 9),
   (''SATP_MODE_SV57'', 10),
   (''SATP_MODE_SV64'', 11)]"

text \<open>Bits of a PMP configuration byte.\<close>

definition pmp_fields :: "(string \<times> u64) list" where
  "pmp_fields = [
   (''PMP_R'', 0x01),
   (''PMP_W'', 0x02),
   (''PMP_X'', 0x04),
   (''PMP_A'', 0x18),
   (''PMP_L'', 0x80),
   (''PMP_SHIFT'', 2),
   (''PMP_TOR'', 0x08),
   (''PMP_NA4'', 0x10),
   (''PMP_NAPOT'', 0x18)]"

text \<open>Interrupt numbers.\<close>

definition irq_numbers :: "(string \<times> u64) list" where
  "irq_numbers = [
   (''IRQ_S_SOFT'', 1),
   (''IRQ_H_SOFT'', 2),
   (''IRQ_M_SOFT'', 3),
   (''IRQ_S_TIMER'', 5),
   (''IRQ_H_TIMER'', 6),
   (''IRQ_M_TIMER'', 7),
   (''IRQ_S_EXT'', 9),
   (''IRQ_H_EXT'', 10),
   (''IRQ_M_EXT'', 11),
   (''IRQ_COP'', 12),
   (''IRQ_HOST'', 13)]"

text \<open>Base addresses.\<close>

definition memory_map :: "(string \<times> u64) list" where
  "memory_map = [
   (''DEFAULT_RSTVEC'', 0x00001000),
   (''CLINT_BASE'', 0x02000000),
   (''CLINT_SIZE'', 0x000c0000),
   (''EXT_IO_BASE'', 0x40000000),
   (''DRAM_BASE'', 0x80000000)]"

text \<open>Fields of a page-table entry.\<close>

definition pte_fields :: "(string \<times> u64) list" where
  "pte_fields = [
   (''PTE_V'', 0x001),
   (''PTE_R'', 0x002),
   (''PTE_W'', 0x004),
   (''PTE_X'', 0x008),
   (''PTE_U'', 0x010),
   (''PTE_G'', 0x020),
   (''PTE_A'', 0x040),
   (''PTE_D'', 0x080),
   (''PTE_SOFT'', 0x300),
   (''PTE_PPN_SHIFT'', 10)]"

text \<open>The XLEN-dependent fields of mcontrol.\<close>

definition MCONTROL_TYPE :: "nat \<Rightarrow> u64" where "MCONTROL_TYPE xlen = push_bit (xlen - 4) 0xf"
definition MCONTROL_DMODE :: "nat \<Rightarrow> u64" where "MCONTROL_DMODE xlen = push_bit (xlen - 5) 1"
definition MCONTROL_MASKMAX :: "nat \<Rightarrow> u64" where "MCONTROL_MASKMAX xlen = push_bit (xlen - 11) 0x3f"

subsection \<open>Constants the C code uses\<close>

definition DRAM_BASE :: u64 where [model_defs]: "DRAM_BASE = 0x80000000"
definition PTE_V :: u64 where [model_defs]: "PTE_V = 0x001"
definition PTE_R :: u64 where [model_defs]: "PTE_R = 0x002"
definition PTE_W :: u64 where [model_defs]: "PTE_W = 0x004"
definition PTE_X :: u64 where [model_defs]: "PTE_X = 0x008"
definition PTE_U :: u64 where [model_defs]: "PTE_U = 0x010"
definition PTE_G :: u64 where [model_defs]: "PTE_G = 0x020"
definition PTE_A :: u64 where [model_defs]: "PTE_A = 0x040"
definition PTE_D :: u64 where [model_defs]: "PTE_D = 0x080"
definition SSTATUS_SUM :: u64 where [model_defs]: "SSTATUS_SUM = 0x00040000"
definition MSTATUS_FS :: u64 where [model_defs]: "MSTATUS_FS = 0x00006000"
definition MSTATUS_XS :: u64 where [model_defs]: "MSTATUS_XS = 0x00018000"
definition SATP_MODE_SV39 :: u64 where [model_defs]: "SATP_MODE_SV39 = 8"
definition SATP64_MODE :: u64 where [model_defs]: "SATP64_MODE = 0xF000000000000000"
definition SATP64_PPN :: u64 where [model_defs]: "SATP64_PPN = 0x00000FFFFFFFFFFF"
definition PMP_R :: u64 where [model_defs]: "PMP_R = 0x01"
definition PMP_W :: u64 where [model_defs]: "PMP_W = 0x02"
definition PMP_X :: u64 where [model_defs]: "PMP_X = 0x04"
definition PMP_NAPOT :: u64 where [model_defs]: "PMP_NAPOT = 0x18"
definition CAUSE_ILLEGAL_INSTRUCTION :: u64 where [model_defs]: "CAUSE_ILLEGAL_INSTRUCTION = 0x2"
definition CAUSE_USER_ECALL :: u64 where [model_defs]: "CAUSE_USER_ECALL = 0x8"
definition CAUSE_FETCH_PAGE_FAULT :: u64 where [model_defs]: "CAUSE_FETCH_PAGE_FAULT = 0xc"
definition CAUSE_LOAD_PAGE_FAULT :: u64 where [model_defs]: "CAUSE_LOAD_PAGE_FAULT = 0xd"
definition CAUSE_STORE_PAGE_FAULT :: u64 where [model_defs]: "CAUSE_STORE_PAGE_FAULT = 0xf"
definition PTE_PPN_SHIFT :: nat where [model_defs]: "PTE_PPN_SHIFT = 10"
definition RISCV_PGLEVEL_BITS :: nat where [model_defs]: "RISCV_PGLEVEL_BITS = 9"
definition RISCV_PGSHIFT :: nat where [model_defs]: "RISCV_PGSHIFT = 12"

text \<open>On RV64 (\<open>__riscv_xlen == 64\<close>) \<open>SATP_MODE\<close> is the 64-bit mask.\<close>

definition SATP_MODE :: u64 where [model_defs]: "SATP_MODE = SATP64_MODE"
definition RISCV_PGSIZE :: u64 where [model_defs]: "RISCV_PGSIZE = push_bit RISCV_PGSHIFT 1"

text \<open>A PTE that points to the next table: valid, with none of R, W, X set.\<close>

definition PTE_TABLE :: "u64 \<Rightarrow> bool" where
  "PTE_TABLE pte \<longleftrightarrow> pte AND (PTE_V OR PTE_R OR PTE_W OR PTE_X) = PTE_V"

subsection \<open>CSR access macros\<close>

text \<open>
  \<open>read_csr\<close>, \<open>write_csr\<close>, \<open>swap_csr\<close>, \<open>set_csr\<close>, \<open>clear_csr\<close>: one csrr/csrw/csrrw/csrrs/csrrc
  instruction each, on a register file from CSR names to values; each returns the old value
  where the macro does.
\<close>

type_synonym csr_file = "string \<Rightarrow> u64"

definition read_csr :: "csr_file \<Rightarrow> string \<Rightarrow> u64" where
  "read_csr f reg = f reg"

definition write_csr :: "csr_file \<Rightarrow> string \<Rightarrow> u64 \<Rightarrow> csr_file" where
  "write_csr f reg val = f(reg := val)"

definition swap_csr :: "csr_file \<Rightarrow> string \<Rightarrow> u64 \<Rightarrow> u64 \<times> csr_file" where
  "swap_csr f reg val = (f reg, f(reg := val))"

definition set_csr :: "csr_file \<Rightarrow> string \<Rightarrow> u64 \<Rightarrow> u64 \<times> csr_file" where
  "set_csr f reg b = (f reg, f(reg := f reg OR b))"

definition clear_csr :: "csr_file \<Rightarrow> string \<Rightarrow> u64 \<Rightarrow> u64 \<times> csr_file" where
  "clear_csr f reg b = (f reg, f(reg := f reg AND NOT b))"

subsection \<open>Properties\<close>

text \<open>
  The fields of a control register do not overlap, and an sstatus field is the mstatus field of
  the same name (\<open>SSTATUS_X\<close> has the value of \<open>MSTATUS_X\<close>).
\<close>

definition masks_disjoint :: "(string \<times> u64) list \<Rightarrow> bool" where
  "masks_disjoint t \<longleftrightarrow> sorted_wrt (\<lambda>(_, a) (_, b). a AND b = 0) t"

definition mstatus_name :: "string \<Rightarrow> string" where
  "mstatus_name n = CHR ''M'' # tl n"

text \<open>
  Sstatus view. No two mstatus fields share a bit, and sstatus is a restricted view of
  mstatus: every \<open>SSTATUS_X\<close> mask of the header is the mask \<open>MSTATUS_X\<close>.
\<close>

theorem sstatus_is_view_of_mstatus:
  "masks_disjoint mstatus_fields \<and>
   list_all (\<lambda>(n, v). map_of mstatus_fields (mstatus_name n) = Some v) sstatus_fields"
proof
  show "masks_disjoint mstatus_fields"
    by (simp add: masks_disjoint_def mstatus_fields_def)
  show "list_all (\<lambda>(n, v). map_of mstatus_fields (mstatus_name n) = Some v) sstatus_fields"
    by (simp add: sstatus_fields_def mstatus_fields_def mstatus_name_def)
qed

end
