(* ===== verification/VM_State.thy ===== *)
theory VM_State
  imports LibC Encoding
begin

section \<open>The virtual-memory test kernel: state, console, termination\<close>

text \<open>
  \<open>micro-arch-tests/performance_tests/env/v/vm.c\<close> and \<open>riscv_test.h\<close> beside it, for RV64.
  The state holds the C globals (the four page tables \<open>pt\<close>, \<open>user_mapping\<close>,
  \<open>freelist_nodes\<close>, the two list pointers), the physical memory the pages live in, the
  control registers the handlers touch, and the traffic with the host.

  In the machine the globals and the kernel's stack are bytes of the same DRAM. Here they are
  fields of their own, and \<open>kernel_pages\<close> lists the DRAM pages that hold them (counted from
  \<open>DRAM_BASE\<close>; the linker chooses them). \<open>pmem\<close> is the memory outside these pages: an access
  that would read or write one of them as plain memory has no result in the model.

  A handler either returns, or ends the machine: \<open>terminate\<close> writes its code to \<open>tohost\<close>
  and then spins. A run is therefore an \<open>option\<close> (None: a wait on the host never ended,
  the handler itself faulted, or it touched a kernel page as plain memory)
  of a sum (\<open>Inl\<close>: the machine was ended with that exit code; \<open>Inr\<close>: it returned).
\<close>

subsection \<open>Constants of riscv_test.h\<close>

definition MAX_TEST_PAGES :: nat where [model_defs]: "MAX_TEST_PAGES = 63"
definition PGSHIFT :: nat where [model_defs]: "PGSHIFT = 12"
definition PGSIZE :: u64 where [model_defs]: "PGSIZE = push_bit PGSHIFT 1"
definition PTES_PER_PT :: u64 where [model_defs]: "PTES_PER_PT = push_bit RISCV_PGLEVEL_BITS 1"
definition MEGAPAGE_SIZE :: u64 where [model_defs]: "MEGAPAGE_SIZE = PTES_PER_PT * PGSIZE"

text \<open>\<open>LFSR_NEXT\<close>, on the \<open>unsigned int\<close> that vm_boot steps.\<close>

definition LFSR_NEXT :: "u32 \<Rightarrow> u32" where
  "LFSR_NEXT x = push_bit 5 ((x XOR drop_bit 1 x) AND 1) OR drop_bit 1 x"

subsection \<open>Data\<close>

text \<open>
  A node pointer is \<open>&freelist_nodes[i]\<close> or \<open>&user_mapping[i]\<close>; the null pointer is None.
\<close>

datatype nodeptr = FreeNode nat | UserMap nat

record freelist_t =
  node_addr :: u64
  node_next :: "nodeptr option"

record trapframe_t =
  gpr :: "nat \<Rightarrow> u64"
  sr :: u64
  epc :: u64
  badvaddr :: u64
  cause :: u64

record vm =
  pt :: "nat \<Rightarrow> nat \<Rightarrow> u64"
  user_mapping :: "nat \<Rightarrow> freelist_t"
  freelist_nodes :: "nat \<Rightarrow> freelist_t"
  freelist_head :: "nodeptr option"
  freelist_tail :: "nodeptr option"
  pmem :: pmem
  csrs :: csr_file
  fromhost :: u64
  tohost_log :: "u64 list"
  polls :: nat
  flushed :: "u64 list"
  kernel_pages :: "nat list"

text \<open>The last-level table of the user megapage, \<open>user_l3pt = pt[3]\<close>.\<close>

abbreviation user_l3pt :: "vm \<Rightarrow> nat \<Rightarrow> u64" where
  "user_l3pt s \<equiv> pt s 3"

definition set_user_pte :: "nat \<Rightarrow> u64 \<Rightarrow> vm \<Rightarrow> vm" where
  "set_user_pte k v s = s\<lparr>pt := (pt s)(3 := (pt s 3)(k := v))\<rparr>"

fun deref :: "vm \<Rightarrow> nodeptr \<Rightarrow> freelist_t" where
  "deref s (FreeNode i) = freelist_nodes s i"
| "deref s (UserMap i) = user_mapping s i"

fun write_node :: "nodeptr \<Rightarrow> freelist_t \<Rightarrow> vm \<Rightarrow> vm" where
  "write_node (FreeNode i) n s = s\<lparr>freelist_nodes := (freelist_nodes s)(i := n)\<rparr>"
| "write_node (UserMap i) n s = s\<lparr>user_mapping := (user_mapping s)(i := n)\<rparr>"

subsection \<open>Runs\<close>

type_synonym halt = "u32 \<times> vm"
type_synonym 'a run = "(halt + 'a \<times> vm) option"

definition ret :: "'a \<Rightarrow> vm \<Rightarrow> 'a run" where
  "ret x s = Some (Inr (x, s))"

definition bnd :: "(vm \<Rightarrow> 'a run) \<Rightarrow> ('a \<Rightarrow> vm \<Rightarrow> 'b run) \<Rightarrow> vm \<Rightarrow> 'b run" where
  "bnd f g s = (case f s of None \<Rightarrow> None | Some (Inl h) \<Rightarrow> Some (Inl h) | Some (Inr (x, s')) \<Rightarrow> g x s')"

definition modify :: "(vm \<Rightarrow> vm) \<Rightarrow> vm \<Rightarrow> unit run" where
  "modify f s = ret () (f s)"

definition lift_opt :: "(vm \<Rightarrow> vm option) \<Rightarrow> vm \<Rightarrow> unit run" where
  "lift_opt f s = map_option (\<lambda>s'. Inr ((), s')) (f s)"

lemma ret_simps [simp]:
  "bnd (ret x) g s = g x s"
  "bnd (modify f) h s = h () (f s)"
  "ret x s = Some (Inr (y, t)) \<longleftrightarrow> x = y \<and> s = t"
  by (auto simp: bnd_def ret_def modify_def)

lemma bnd_Inr: "f s = Some (Inr (x, s')) \<Longrightarrow> bnd f g s = g x s'"
  by (simp add: bnd_def)

lemma bnd_Inl: "f s = Some (Inl h) \<Longrightarrow> bnd f g s = Some (Inl h)"
  by (simp add: bnd_def)

subsection \<open>Talking to the host\<close>

text \<open>
  \<open>tohost\<close> is volatile and the host clears it: \<open>busy n\<close> says whether the \<open>n\<close>-th read of it
  (counted from 0 over the whole run) gives a nonzero value. The environment fixes \<open>busy\<close>.
\<close>

partial_function (option) do_tohost :: "(nat \<Rightarrow> bool) \<Rightarrow> u64 \<Rightarrow> vm \<Rightarrow> vm option" where
  "do_tohost busy v s =
     (if busy (polls s) then do_tohost busy v (s\<lparr>polls := Suc (polls s), fromhost := 0\<rparr>)
      else Some (s\<lparr>polls := Suc (polls s), tohost_log := tohost_log s @ [v]\<rparr>))"

definition cputchar :: "(nat \<Rightarrow> bool) \<Rightarrow> u32 \<Rightarrow> vm \<Rightarrow> vm option" where
  "cputchar busy x = do_tohost busy (0x0101000000000000 OR ucast (ucast x :: byte))"

text \<open>The argument lists the bytes before the terminating NUL.\<close>

fun cputstring :: "(nat \<Rightarrow> bool) \<Rightarrow> byte list \<Rightarrow> vm \<Rightarrow> vm option" where
  "cputstring busy [] s = Some s"
| "cputstring busy (c # cs) s = Option.bind (cputchar busy (ucast c) s) (cputstring busy cs)"

text \<open>An \<open>int\<close> code is converted to \<open>uint64_t\<close>, which extends its sign.\<close>

definition terminate :: "(nat \<Rightarrow> bool) \<Rightarrow> u32 \<Rightarrow> vm \<Rightarrow> 'a run" where
  "terminate busy code s = map_option (\<lambda>s'. Inl (code, s')) (do_tohost busy (scast code) s)"

definition wtf :: "(nat \<Rightarrow> bool) \<Rightarrow> vm \<Rightarrow> 'a run" where
  "wtf busy = terminate busy 841"

definition c_string :: "string \<Rightarrow> byte list" where
  "c_string = map of_char"

text \<open>\<open>assert(x)\<close>; the message is the text of \<open>x\<close> after macro expansion.\<close>

definition assert_c :: "(nat \<Rightarrow> bool) \<Rightarrow> string \<Rightarrow> bool \<Rightarrow> vm \<Rightarrow> unit run" where
  "assert_c busy txt x s =
     (if x then ret () s
      else Option.bind (cputstring busy (c_string (''Assertion failed: '' @ txt @ ''\<newline>'')) s)
             (terminate busy 3))"

lemma assert_true [simp]: "assert_c busy txt True = ret ()"
  by (simp add: assert_c_def fun_eq_iff)

text \<open>A host that clears \<open>tohost\<close> again and again.\<close>

definition host_live :: "(nat \<Rightarrow> bool) \<Rightarrow> bool" where
  "host_live busy \<longleftrightarrow> (\<forall>n. \<exists>k\<ge>n. \<not> busy k)"

lemma do_tohost_at:
  "\<not> busy (polls s + d) \<Longrightarrow> \<exists>s'. do_tohost busy v s = Some s' \<and> tohost_log s' = tohost_log s @ [v] \<and>
     (\<exists>p h. s' = s\<lparr>polls := p, fromhost := h, tohost_log := tohost_log s @ [v]\<rparr>)"
proof (induction d arbitrary: s)
  case 0
  then show ?case by (subst do_tohost.simps) (auto intro!: exI [of _ "fromhost s"])
next
  case (Suc d)
  show ?case
  proof (cases "busy (polls s)")
    case False
    then show ?thesis by (subst do_tohost.simps) (auto intro!: exI [of _ "fromhost s"])
  next
    case True
    have "\<exists>s'. do_tohost busy v (s\<lparr>polls := Suc (polls s), fromhost := 0\<rparr>) = Some s' \<and>
        tohost_log s' = tohost_log s @ [v] \<and>
        (\<exists>p h. s' = s\<lparr>polls := p, fromhost := h, tohost_log := tohost_log s @ [v]\<rparr>)"
      using Suc.IH [of "s\<lparr>polls := Suc (polls s), fromhost := 0\<rparr>"] Suc.prems by simp
    with True show ?thesis by (subst do_tohost.simps) simp
  qed
qed

lemma do_tohost_live:
  assumes "host_live busy"
  shows "\<exists>p h. do_tohost busy v s = Some (s\<lparr>polls := p, fromhost := h, tohost_log := tohost_log s @ [v]\<rparr>)"
proof -
  obtain k where "polls s \<le> k" "\<not> busy k" using assms by (auto simp: host_live_def)
  then have "\<not> busy (polls s + (k - polls s))" by simp
  with do_tohost_at [of busy s "k - polls s" v] show ?thesis by blast
qed

text \<open>What the host receives for a character, and for a string.\<close>

definition putchar_word :: "byte \<Rightarrow> u64" where
  "putchar_word c = 0x0101000000000000 OR ucast c"

lemma cputstring_live:
  assumes "host_live busy"
  shows "\<exists>p h. cputstring busy cs s =
    Some (s\<lparr>polls := p, fromhost := h, tohost_log := tohost_log s @ map putchar_word cs\<rparr>)"
proof (induction cs arbitrary: s)
  case Nil
  have "s\<lparr>polls := polls s, fromhost := fromhost s, tohost_log := tohost_log s @ []\<rparr> = s" by simp
  then show ?case by (metis cputstring.simps(1) list.map(1))
next
  case (Cons c cs)
  have "(ucast (ucast c :: u32) :: byte) = c" by (rule bit_word_eqI) (simp add: bit_ucast_iff)
  then obtain p h where "cputchar busy (ucast c) s =
      Some (s\<lparr>polls := p, fromhost := h, tohost_log := tohost_log s @ [putchar_word c]\<rparr>)"
    using do_tohost_live [OF assms, of "putchar_word c" s] by (auto simp: cputchar_def putchar_word_def)
  with Cons [of "s\<lparr>polls := p, fromhost := h, tohost_log := tohost_log s @ [putchar_word c]\<rparr>"]
  show ?case by simp
qed

lemma terminate_live:
  assumes "host_live busy"
  shows "\<exists>p h. terminate busy code s =
    Some (Inl (code, s\<lparr>polls := p, fromhost := h, tohost_log := tohost_log s @ [scast code]\<rparr>))"
  using do_tohost_live [OF assms, of "scast code" s] by (auto simp: terminate_def)

end
