(* ===== verification/VM_Util.thy ===== *)
theory VM_Util
  imports VM_State
begin

section \<open>printhex, the two LFSRs, coherence_torture\<close>

text \<open>
  The self-contained routines of vm.c: \<open>printhex\<close> (16 hexadecimal digits to the console),
  \<open>lfsr63\<close>, the infinite loop \<open>coherence_torture\<close> that the other harts run, and the 6-bit
  register \<open>LFSR_NEXT\<close> with which vm_boot shuffles the physical pages.
\<close>

subsection \<open>printhex\<close>

definition hex_digit :: "u64 \<Rightarrow> byte" where
  "hex_digit x = (let d = x AND 0xF in ucast (d + (if d < 10 then 48 else 97 - 10)))"

text \<open>The loop body for \<open>i\<close>, with \<open>n\<close> iterations left: \<open>str[15-i] = \<dots>; x >>= 4\<close>.\<close>

fun printhex_loop :: "nat \<Rightarrow> nat \<Rightarrow> u64 \<Rightarrow> byte list \<Rightarrow> byte list" where
  "printhex_loop 0 i x str = str"
| "printhex_loop (Suc n) i x str =
     printhex_loop n (Suc i) (drop_bit 4 x) (str[15 - i := hex_digit x])"

definition printhex_chars :: "u64 \<Rightarrow> byte list" where
  "printhex_chars x = printhex_loop 16 0 x (replicate 16 0)"

definition printhex :: "(nat \<Rightarrow> bool) \<Rightarrow> u64 \<Rightarrow> vm \<Rightarrow> vm option" where
  "printhex busy x = cputstring busy (printhex_chars x)"

text \<open>
  Reading the digits back: \<open>0\<close> to \<open>9\<close> and \<open>a\<close> to \<open>f\<close> are digits, a list with any
  other character denotes nothing.
\<close>

definition hex_value :: "byte \<Rightarrow> nat option" where
  "hex_value c =
     (if 48 \<le> c \<and> c \<le> 57 then Some (unat c - 48)
      else if 97 \<le> c \<and> c \<le> 102 then Some (unat c - 87)
      else None)"

definition hex_step :: "nat option \<Rightarrow> byte \<Rightarrow> nat option" where
  "hex_step v c = Option.bind v (\<lambda>v. map_option (\<lambda>d. 16 * v + d) (hex_value c))"

definition parse_hex :: "byte list \<Rightarrow> nat option" where
  "parse_hex cs = foldl hex_step (Some 0) cs"

lemma nibble: "x AND 0xF = of_nat (unat x mod 16)" for x :: u64
proof -
  have "x AND 0xF = take_bit 4 x" by (simp add: take_bit_eq_mask mask_eq_exp_minus_1)
  moreover have "unat (take_bit 4 x) = unat x mod 16"
    unfolding unsigned_take_bit_eq by (simp add: take_bit_eq_mod)
  ultimately show ?thesis by (intro word_of_unat) simp
qed

lemma hex_digit_value: "hex_value (hex_digit x) = Some (unat x mod 16) \<and> hex_digit x \<noteq> 0"
proof -
  let ?digit = "\<lambda>n. let d = of_nat n :: u64 in ucast (d + (if d < 10 then 48 else 97 - 10)) :: byte"
  have "list_all (\<lambda>n. hex_value (?digit n) = Some n \<and> ?digit n \<noteq> 0) [0..<16]"
    by (simp add: upt_rec hex_value_def Let_def)
  then have "hex_value (?digit n) = Some n \<and> ?digit n \<noteq> 0" if "n < 16" for n
    using that by (simp add: list_all_iff del: upt.simps)
  from this [of "unat x mod 16"] show ?thesis by (simp add: hex_digit_def nibble Let_def)
qed

lemma parse_hex_snoc: "parse_hex (cs @ [c]) = hex_step (parse_hex cs) c"
  by (simp add: parse_hex_def)

text \<open>The loop fills the array from its end: after \<open>n\<close> steps the last \<open>n\<close> places hold the digits.\<close>

lemma printhex_loop_fill:
  "length str = 16 \<Longrightarrow> n + i = 16 \<Longrightarrow>
   \<exists>ds. printhex_loop n i x str = ds @ drop n str \<and> length ds = n \<and>
     parse_hex ds = Some (unat x mod 16 ^ n) \<and> 0 \<notin> set ds"
proof (induction n arbitrary: i x str)
  case 0
  then show ?case by (simp add: parse_hex_def)
next
  case (Suc n)
  let ?str = "str[15 - i := hex_digit x]"
  obtain ds where ds: "printhex_loop n (Suc i) (drop_bit 4 x) ?str = ds @ drop n ?str"
    "length ds = n" "parse_hex ds = Some (unat (drop_bit 4 x) mod 16 ^ n)" "0 \<notin> set ds"
    using Suc.IH [of ?str "Suc i" "drop_bit 4 x"] Suc.prems by auto
  have i: "15 - i = n" using Suc.prems by simp
  then have "drop n ?str = hex_digit x # drop (Suc n) str"
    using Suc.prems by (simp add: Cons_nth_drop_Suc [symmetric])
  then have "printhex_loop (Suc n) i x str = (ds @ [hex_digit x]) @ drop (Suc n) str"
    using ds(1) by simp
  moreover have "unat (drop_bit 4 x) = unat x div 16"
    by (simp add: drop_bit_eq_div unat_div)
  then have "parse_hex (ds @ [hex_digit x]) = Some (unat x mod 16 ^ Suc n)"
    using ds(3) hex_digit_value [of x] mod_mult2_eq [of "unat x" 16 "16 ^ n"]
    by (simp add: parse_hex_snoc hex_step_def)
  ultimately show ?case using ds(2,4) hex_digit_value [of x] by auto
qed

subsection \<open>lfsr63 and coherence_torture\<close>

definition lfsr63 :: "u64 \<Rightarrow> u64" where
  "lfsr63 x = (let b = (x XOR drop_bit 1 x) AND 1 in drop_bit 1 x OR push_bit 62 b)"

text \<open>
  \<open>unsigned int random\<close>: each round stores the 64-bit result of lfsr63 back into 32 bits.
  \<open>torture_random e n\<close> is \<open>random\<close> in round \<open>n\<close>; a round is an atomic no-op add (True) or a
  load (False) at \<open>torture_paddr\<close>. The loop never ends.
\<close>

fun torture_random :: "u32 \<Rightarrow> nat \<Rightarrow> u32" where
  "torture_random entropy 0 = entropy"
| "torture_random entropy (Suc n) = ucast (lfsr63 (ucast (torture_random entropy n)))"

definition torture_paddr :: "u32 \<Rightarrow> addr" where
  "torture_paddr random =
     DRAM_BASE + ((ucast random mod (2 * (of_nat MAX_TEST_PAGES + 1) * PGSIZE)) AND (- 4))"

definition coherence_torture :: "u32 \<Rightarrow> nat \<Rightarrow> bool \<times> addr" where
  "coherence_torture entropy n =
     (let random = torture_random entropy n in (random AND 1 \<noteq> 0, torture_paddr random))"

lemma bit_one_word: "bit (1 :: 'a::len word) k \<longleftrightarrow> k = 0"
  by (auto simp: bit_1_iff)

lemma bit_lfsr63:
  "bit (lfsr63 x) k \<longleftrightarrow> bit x (Suc k) \<or> (k = 62 \<and> bit x 0 \<noteq> bit x 1)"
proof -
  define b where "b = (x XOR drop_bit 1 x) AND 1"
  have b: "bit b j \<longleftrightarrow> (bit x j \<noteq> bit x (Suc j)) \<and> j = 0" for j
    unfolding b_def bit_and_iff bit_xor_iff bit_drop_bit_eq bit_one_word by simp
  have "bit (lfsr63 x) k \<longleftrightarrow> bit x (Suc k) \<or> (62 \<le> k \<and> k < 64 \<and> bit b (k - 62))"
    unfolding lfsr63_def Let_def b_def [symmetric] bit_or_iff bit_drop_bit_eq bit_push_bit_iff
    by simp
  also have "\<dots> \<longleftrightarrow> bit x (Suc k) \<or> (k = 62 \<and> bit x 0 \<noteq> bit x 1)"
    by (cases "k = 62") (auto simp: b)
  finally show ?thesis .
qed

lemma bit_torture_random: "bit (torture_random e n) k \<longleftrightarrow> bit e (n + k)"
proof (induction n arbitrary: k)
  case (Suc n)
  show ?case
    by (auto simp: bit_ucast_iff bit_lfsr63 Suc.IH dest: bit_imp_le_length)
qed simp

subsection \<open>The page shuffle\<close>

text \<open>The states a register goes through.\<close>

fun iterates :: "('a \<Rightarrow> 'a) \<Rightarrow> 'a \<Rightarrow> nat \<Rightarrow> 'a list" where
  "iterates f x 0 = []"
| "iterates f x (Suc n) = x # iterates f (f x) n"

lemma iterates_eq: "iterates f x n = map (\<lambda>i. (f ^^ i) x) [0..<n]"
  by (induction n arbitrary: x) (auto simp: upt_conv_Cons map_Suc_upt [symmetric] funpow_Suc_right
      simp del: upt_Suc funpow.simps)

lemma lfsr_orbit_values:
  "iterates LFSR_NEXT 1 64 = [1, 32, 16, 8, 4, 2, 33, 48, 24, 12, 6, 35, 17, 40, 20, 10, 37, 50, 57, 60, 30, 47, 23, 11, 5, 34, 49, 56, 28, 14, 39, 19, 9, 36, 18, 41, 52, 26, 45, 54, 59, 29, 46, 55, 27, 13, 38, 51, 25, 44, 22, 43, 21, 42, 53, 58, 61, 62, 63, 31, 15, 7, 3, 1]"
  by code_simp

definition page_numbers :: "u32 set" where
  "page_numbers = {r. 1 \<le> unat r \<and> unat r \<le> 63}"

lemma iterates_snoc: "iterates f x (Suc n) = iterates f x n @ [(f ^^ n) x]"
  by (simp add: iterates_eq)

lemma funpow_period: "(f ^^ p) x = x \<Longrightarrow> (f ^^ p) ((f ^^ j) x) = (f ^^ j) x"
proof -
  assume p: "(f ^^ p) x = x"
  have "(f ^^ p) ((f ^^ j) x) = (f ^^ (j + p)) x"
    by (simp only: funpow_add comp_apply add.commute [of j p])
  also have "\<dots> = (f ^^ j) x" by (simp only: funpow_add comp_apply p)
  finally show ?thesis .
qed

lemma lfsr_orbit_facts:
  "distinct (iterates LFSR_NEXT 1 63)" "set (iterates LFSR_NEXT 1 63) \<subseteq> page_numbers"
  "(LFSR_NEXT ^^ 63) 1 = 1"
proof -
  let ?L = "[1, 32, 16, 8, 4, 2, 33, 48, 24, 12, 6, 35, 17, 40, 20, 10, 37, 50, 57, 60, 30, 47, 23, 11, 5, 34, 49, 56, 28, 14, 39, 19, 9, 36, 18, 41, 52, 26, 45, 54, 59, 29, 46, 55, 27, 13, 38, 51, 25, 44, 22, 43, 21, 42, 53, 58, 61, 62, 63, 31, 15, 7, 3] :: u32 list"
  have "64 = Suc (63 :: nat)" by simp
  then have "iterates LFSR_NEXT 1 64 = iterates LFSR_NEXT 1 63 @ [(LFSR_NEXT ^^ 63) 1]"
    using iterates_snoc by metis
  then have eq: "iterates LFSR_NEXT 1 63 @ [(LFSR_NEXT ^^ 63) 1] = ?L @ [1]"
    by (simp only: lfsr_orbit_values append_Cons append_Nil)
  then have L: "iterates LFSR_NEXT 1 63 = ?L" by (simp only: append1_eq_conv)
  from eq show "(LFSR_NEXT ^^ 63) 1 = 1" by (simp only: append1_eq_conv)
  show "distinct (iterates LFSR_NEXT 1 63)" unfolding L by simp
  show "set (iterates LFSR_NEXT 1 63) \<subseteq> page_numbers" unfolding L by (simp add: page_numbers_def)
qed

lemma page_numbers_image: "page_numbers = of_nat ` {1..63}"
proof (intro set_eqI iffI)
  fix r :: u32
  assume "r \<in> page_numbers"
  then have "unat r \<in> {1..63}" "r = of_nat (unat r)" by (auto simp: page_numbers_def)
  then show "r \<in> of_nat ` {1..63}" by blast
qed (auto simp: page_numbers_def unat_of_nat)

lemma card_page_numbers: "finite page_numbers" "card page_numbers = 63"
proof -
  have "inj_on (of_nat :: nat \<Rightarrow> u32) {1..63}"
    by (rule inj_onI) (simp add: word_of_nat_eq_iff take_bit_nat_eq_self)
  from card_image [OF this] show "card page_numbers = 63"
    unfolding page_numbers_image by (simp del: One_nat_def)
  show "finite page_numbers" by (simp add: page_numbers_image)
qed

lemma lfsr_orbit_set: "set (iterates LFSR_NEXT 1 63) = page_numbers"
proof (rule card_subset_eq)
  show "card (set (iterates LFSR_NEXT 1 63)) = card page_numbers"
    using distinct_card [OF lfsr_orbit_facts(1)] by (simp add: card_page_numbers iterates_eq)
qed (simp_all add: card_page_numbers lfsr_orbit_facts)

lemma funpow_mod_period: "(f ^^ p) x = x \<Longrightarrow> (f ^^ n) x = (f ^^ (n mod p)) x"
proof -
  assume p: "(f ^^ p) x = x"
  have "((f ^^ p) ^^ k) x = x" for k by (induction k) (simp_all add: p)
  then have "(f ^^ (p * (n div p) + n mod p)) x = (f ^^ (n mod p)) x"
    by (simp only: add.commute [of "p * (n div p)"] funpow_add comp_apply funpow_mult [symmetric])
  then show ?thesis by simp
qed

lemma iterates_rotate:
  assumes "(f ^^ p) x = x" "j < p"
  shows "iterates f ((f ^^ j) x) p = rotate j (iterates f x p)"
proof (rule nth_equalityI)
  fix i assume "i < length (iterates f ((f ^^ j) x) p)"
  then have "i < p" by (simp add: iterates_eq)
  then show "iterates f ((f ^^ j) x) p ! i = rotate j (iterates f x p) ! i"
    using assms(2) funpow_mod_period [OF assms(1), of "i + j"]
    by (simp add: iterates_eq nth_rotate funpow_add add.commute)
qed (simp add: iterates_eq)

lemma lfsr_permutes:
  assumes "r \<in> page_numbers"
  shows "distinct (iterates LFSR_NEXT r 63)" "set (iterates LFSR_NEXT r 63) = page_numbers"
proof -
  from assms have "r \<in> set (iterates LFSR_NEXT 1 63)" by (simp only: lfsr_orbit_set)
  then obtain j where "j < 63" "r = (LFSR_NEXT ^^ j) 1" by (auto simp: iterates_eq)
  then have "iterates LFSR_NEXT r 63 = rotate j (iterates LFSR_NEXT 1 63)"
    using iterates_rotate [OF lfsr_orbit_facts(3)] by blast
  then show "distinct (iterates LFSR_NEXT r 63)" "set (iterates LFSR_NEXT r 63) = page_numbers"
    using lfsr_orbit_facts(1) lfsr_orbit_set by simp_all
qed

lemma and_minus_4: "x AND - 4 = 4 * (x div 4)" for x :: u64
proof -
  have m: "- 4 = (NOT (mask 2) :: u64)" by (simp add: mask_eq_exp_minus_1 not_eq_complement)
  have d: "4 * (x div 4) = push_bit 2 (drop_bit 2 x)"
    by (simp add: push_bit_eq_mult drop_bit_eq_div)
  have "bit (x AND NOT (mask 2)) k = bit (push_bit 2 (drop_bit 2 x)) k" for k
  proof (cases "k < 2")
    case False
    then obtain j where "k = Suc (Suc j)" by (metis Suc_diff_Suc add_2_eq_Suc le_add_diff_inverse not_less)
    then show ?thesis
      by (auto simp: bit_and_iff bit_not_iff bit_mask_iff bit_push_bit_iff bit_drop_bit_eq
          dest: bit_imp_le_length)
  qed (simp add: bit_and_iff bit_not_iff bit_mask_iff bit_push_bit_iff)
  then show ?thesis unfolding m d by (intro bit_word_eqI) simp
qed

lemma and_3_zero: "unat x mod 4 = 0 \<Longrightarrow> x AND 3 = 0" for x :: u64
proof -
  assume x: "unat x mod 4 = 0"
  have "x AND 3 = take_bit 2 x" by (simp add: take_bit_eq_mask mask_eq_exp_minus_1)
  moreover have "unat (take_bit 2 x) = unat x mod 4"
    unfolding unsigned_take_bit_eq by (simp add: take_bit_eq_mod)
  ultimately show ?thesis using x by (simp add: unat_eq_0)
qed

subsection \<open>Properties\<close>

text \<open>
  C32 (page shuffle). \<open>MAX_TEST_PAGES\<close> is the period of the LFSR: started from any of the
  numbers 1 to 63, its first 63 states are those numbers, each once, and it is then back at
  its start.
\<close>

theorem lfsr_next_full_period:
  assumes "1 \<le> unat r" and "unat r \<le> MAX_TEST_PAGES"
  shows "distinct (iterates LFSR_NEXT r MAX_TEST_PAGES) \<and>
    unat ` set (iterates LFSR_NEXT r MAX_TEST_PAGES) = {1..MAX_TEST_PAGES} \<and>
    (LFSR_NEXT ^^ MAX_TEST_PAGES) r = r"
proof -
  have r: "r \<in> page_numbers" using assms by (simp add: page_numbers_def MAX_TEST_PAGES_def)
  have "unat ` page_numbers = {1..63}"
  proof (intro set_eqI iffI)
    fix n assume "n \<in> {1..63::nat}"
    then have "unat (of_nat n :: u32) = n" by (simp add: unat_of_nat)
    with \<open>n \<in> {1..63}\<close> show "n \<in> unat ` page_numbers"
      by (force simp: page_numbers_def intro!: image_eqI [of _ _ "of_nat n"])
  qed (auto simp: page_numbers_def)
  moreover from r have "r \<in> set (iterates LFSR_NEXT 1 63)" by (simp only: lfsr_orbit_set)
  then obtain j where "r = (LFSR_NEXT ^^ j) 1" by (auto simp: iterates_eq)
  then have "(LFSR_NEXT ^^ 63) r = r"
    using funpow_period [OF lfsr_orbit_facts(3)] by blast
  ultimately show ?thesis using lfsr_permutes [OF r] by (simp add: MAX_TEST_PAGES_def)
qed

theorem lfsr_next_full_period_witness:
  "distinct (iterates LFSR_NEXT 17 MAX_TEST_PAGES)"
  using lfsr_next_full_period [of 17] by (simp add: MAX_TEST_PAGES_def)

text \<open>
  C29 (printhex). With a host that keeps clearing \<open>tohost\<close>, printhex returns, and the characters
  it sends are 16 hexadecimal digits (\<open>0\<close> to \<open>9\<close>, \<open>a\<close> to \<open>f\<close>) that denote its argument.
\<close>

theorem printhex_roundtrip:
  assumes "host_live busy"
  shows "\<exists>s' ds. printhex busy x s = Some s' \<and> tohost_log s' = tohost_log s @ map putchar_word ds \<and>
    length ds = 16 \<and> parse_hex ds = Some (unat x)"
proof -
  obtain ds where ds: "printhex_chars x = ds" "length ds = 16" "parse_hex ds = Some (unat x mod 16 ^ 16)"
    using printhex_loop_fill [of "replicate 16 0" 16 0 x] by (auto simp: printhex_chars_def)
  obtain p h where "printhex busy x s =
      Some (s\<lparr>polls := p, fromhost := h, tohost_log := tohost_log s @ map putchar_word ds\<rparr>)"
    using cputstring_live [OF assms, of ds s] ds(1) by (auto simp: printhex_def)
  moreover have "parse_hex ds = Some (unat x)" using ds(3) unat_u64_less [of x] by simp
  ultimately show ?thesis using ds(2) by auto
qed

theorem printhex_roundtrip_witness:
  "\<forall>s. \<exists>s' ds. printhex (\<lambda>n. odd n) 0xDEADBEEF s = Some s' \<and> parse_hex ds = Some 0xDEADBEEF \<and>
     tohost_log s' = tohost_log s @ map putchar_word ds"
proof -
  have "host_live (\<lambda>n. odd n)"
    unfolding host_live_def by (metis even_Suc le_SucI order_refl)
  from printhex_roundtrip [OF this, of "0xDEADBEEF"] show ?thesis by fastforce
qed

text \<open>
  C39 (coherence torture). Every access of the loop is word aligned and inside the 128 pages at
  \<open>DRAM_BASE\<close> that the test uses. But \<open>random\<close> is an \<open>unsigned int\<close>, so storing the result of
  the 63-bit register into it drops the feedback bit: from round 32 on \<open>random\<close> is 0 and the
  loop only ever loads from \<open>DRAM_BASE\<close>.
\<close>

theorem coherence_torture_bounds:
  "(\<forall>n. let a = snd (coherence_torture e n) in
      DRAM_BASE \<le> a \<and> a < DRAM_BASE + 128 * PGSIZE \<and> a AND 3 = 0) \<and>
   (\<forall>k. coherence_torture e (32 + k) = (False, DRAM_BASE))"
proof (intro conjI allI)
  fix n
  let ?x = "ucast (torture_random e n) mod 0x80000 :: u64"
  have y: "?x AND - 4 = 4 * (?x div 4)" by (rule and_minus_4)
  have "unat ?x < 0x80000" by (simp add: unat_mod)
  then have unat_y: "unat (?x AND - 4) = 4 * (unat ?x div 4)" "unat (?x AND - 4) < 0x80000"
    by (simp_all add: y unat_word_ariths unat_div)
  then have a: "unat (DRAM_BASE + (?x AND - 4)) = 0x80000000 + 4 * (unat ?x div 4)"
    by (simp add: DRAM_BASE_def unat_word_ariths)
  moreover have "(DRAM_BASE + (?x AND - 4)) AND 3 = 0"
    using a by (intro and_3_zero) simp
  moreover have "torture_paddr (torture_random e n) = DRAM_BASE + (?x AND - 4)"
    by (simp add: torture_paddr_def MAX_TEST_PAGES_def PGSIZE_def PGSHIFT_def)
  ultimately show "let a = snd (coherence_torture e n) in
      DRAM_BASE \<le> a \<and> a < DRAM_BASE + 128 * PGSIZE \<and> a AND 3 = 0"
    using unat_y
    by (simp add: coherence_torture_def Let_def word_le_nat_alt word_less_nat_alt DRAM_BASE_def
        PGSIZE_def PGSHIFT_def)
next
  fix k
  have "torture_random e (32 + k) = 0"
    by (rule bit_word_eqI) (auto simp: bit_torture_random dest: bit_imp_le_length)
  then show "coherence_torture e (32 + k) = (False, DRAM_BASE)"
    by (simp add: coherence_torture_def torture_paddr_def)
qed

end
