(* ===== verification/VM_Fault.thy ===== *)
theory VM_Fault
  imports VM_Util
begin

section \<open>Demand paging: evict, handle_fault, handle_trap\<close>

text \<open>
  The supervisor side of vm.c. The user's pages 1 to 62 live in the lowest megapage; the page
  at \<open>k * PGSIZE\<close> has its home at \<open>DRAM_BASE + k * PGSIZE\<close> and, once it is mapped, a copy in
  a frame taken from the free list. \<open>handle_fault\<close> maps a page or sets an A or D bit,
  \<open>evict\<close> gives a page back, \<open>handle_trap\<close> dispatches on the cause.
\<close>

subsection \<open>Addresses\<close>

text \<open>The kernel window is the uppermost megapage; it shows the memory from \<open>DRAM_BASE\<close> on.\<close>

definition pa2kva :: "addr \<Rightarrow> addr" where
  "pa2kva pa = pa - DRAM_BASE - MEGAPAGE_SIZE"

definition uva2kva :: "addr \<Rightarrow> addr" where
  "uva2kva pa = pa - MEGAPAGE_SIZE"

text \<open>
  The physical address behind a virtual one, under the two windows that vm_boot sets up (it is
  the Sv39 walk over its page tables, see \<open>VM_Boot\<close>): a user address goes through the
  page number in its \<open>user_l3pt\<close> entry.
\<close>

definition pte_frame :: "u64 \<Rightarrow> addr" where
  "pte_frame pte = push_bit PGSHIFT (take_bit 44 (drop_bit PTE_PPN_SHIFT pte))"

definition va_to_pa :: "vm \<Rightarrow> addr \<Rightarrow> addr" where
  "va_to_pa s va =
     (if va < MEGAPAGE_SIZE
      then pte_frame (user_l3pt s (unat (va div PGSIZE))) + va mod PGSIZE
      else va + MEGAPAGE_SIZE + DRAM_BASE)"

text \<open>
  Whether the handler, in supervisor mode, may access a page. A user page needs the permission, A,
  and D for a store, in its entry, and \<open>SUM\<close> in \<open>sstatus\<close> when the entry has U; otherwise the access
  would trap within the handler. The kernel window allows everything. A page that holds kernel
  data is not part of \<open>pmem\<close>.
\<close>

definition in_kernel_page :: "vm \<Rightarrow> addr \<Rightarrow> bool" where
  "in_kernel_page s pa \<longleftrightarrow> unat ((pa - DRAM_BASE) div PGSIZE) \<in> set (kernel_pages s)"

definition supervisor_access :: "vm \<Rightarrow> u64 \<Rightarrow> addr \<Rightarrow> bool" where
  "supervisor_access s need va \<longleftrightarrow>
     (if va < MEGAPAGE_SIZE
      then (let pte = user_l3pt s (unat (va div PGSIZE)) in
            pte AND need = need \<and> (pte AND PTE_U = 0 \<or> csrs s ''sstatus'' AND SSTATUS_SUM \<noteq> 0))
      else va \<ge> - MEGAPAGE_SIZE) \<and>
     \<not> in_kernel_page s (va_to_pa s va)"

definition load_needs :: u64 where "load_needs = PTE_V OR PTE_R OR PTE_A"
definition store_needs :: u64 where "store_needs = PTE_V OR PTE_W OR PTE_A OR PTE_D"

subsection \<open>Shared steps\<close>

definition set_sum :: "vm \<Rightarrow> u64 \<times> vm" where
  "set_sum s = (let (old, f) = set_csr (csrs s) ''sstatus'' SSTATUS_SUM in (old, s\<lparr>csrs := f\<rparr>))"

definition restore_sstatus :: "u64 \<Rightarrow> vm \<Rightarrow> vm" where
  "restore_sstatus old s = s\<lparr>csrs := write_csr (csrs s) ''sstatus'' old\<rparr>"

definition flush_page :: "addr \<Rightarrow> vm \<Rightarrow> vm" where
  "flush_page a s = s\<lparr>flushed := flushed s @ [a]\<rparr>"

text \<open>\<open>memcpy((void* )addr, uva2kva(addr), PGSIZE)\<close>: the home page over the user page.\<close>

definition copy_from_home :: "addr \<Rightarrow> vm \<Rightarrow> vm option" where
  "copy_from_home a s =
     (if supervisor_access s store_needs a \<and> supervisor_access s load_needs (uva2kva a)
      then map_option (\<lambda>(m, _). s\<lparr>pmem := m\<rparr>) (memcpy (va_to_pa s) (pmem s) a (uva2kva a) PGSIZE)
      else None)"

definition page_of :: "addr \<Rightarrow> nat" where
  "page_of a = unat (a div PGSIZE)"

definition in_test_range :: "addr \<Rightarrow> bool" where
  "in_test_range a \<longleftrightarrow> a \<ge> PGSIZE \<and> a < of_nat MAX_TEST_PAGES * PGSIZE"

subsection \<open>evict\<close>

definition evict_sync :: "(nat \<Rightarrow> bool) \<Rightarrow> addr \<Rightarrow> vm \<Rightarrow> unit run" where
  "evict_sync busy a s =
     (case (if supervisor_access s load_needs a \<and> supervisor_access s load_needs (uva2kva a)
            then memcmp (va_to_pa s) (pmem s) a (uva2kva a) PGSIZE else None) of
        None \<Rightarrow> None
      | Some r \<Rightarrow>
          if r \<noteq> 0
          then bnd (assert_c busy ''pt[3][addr/(1UL << 12)] & 0x080''
                      (user_l3pt s (page_of a) AND PTE_D \<noteq> 0))
                 (\<lambda>_. lift_opt (copy_from_home a)) s
          else ret () s)"

text \<open>\<open>freelist_tail->next = node\<close> writes through the tail pointer.\<close>

definition enqueue_node :: "nodeptr \<Rightarrow> vm \<Rightarrow> vm" where
  "enqueue_node node s =
     (case freelist_tail s of
        None \<Rightarrow> s\<lparr>freelist_head := Some node, freelist_tail := Some node\<rparr>
      | Some t \<Rightarrow> (write_node t ((deref s t)\<lparr>node_next := Some node\<rparr>) s)\<lparr>freelist_tail := Some node\<rparr>)"

definition release_page :: "nat \<Rightarrow> vm \<Rightarrow> vm" where
  "release_page k s = s\<lparr>user_mapping := (user_mapping s)(k := (user_mapping s k)\<lparr>node_addr := 0\<rparr>)\<rparr>"

definition evict :: "(nat \<Rightarrow> bool) \<Rightarrow> addr \<Rightarrow> vm \<Rightarrow> unit run" where
  "evict busy a0 =
     bnd (assert_c busy ''addr >= (1UL << 12) && addr < 63 * (1UL << 12)'' (in_test_range a0)) (\<lambda>_ s.
       let a = a0 div PGSIZE * PGSIZE; k = page_of a in
       if node_addr (user_mapping s k) \<noteq> 0
       then bnd (assert_c busy ''pt[3][addr/(1UL << 12)] & 0x040'' (user_l3pt s k AND PTE_A \<noteq> 0)) (\<lambda>_ s.
              let (sstatus, s) = set_sum s in
              bnd (evict_sync busy a)
                (\<lambda>_. modify (\<lambda>s. enqueue_node (UserMap k) (release_page k (restore_sstatus sstatus s)))) s) s
       else ret () s)"

subsection \<open>handle_fault\<close>

text \<open>The two halves of handle_fault: the page is already mapped; the page has to be mapped.\<close>

definition fault_on_mapped :: "(nat \<Rightarrow> bool) \<Rightarrow> addr \<Rightarrow> u64 \<Rightarrow> vm \<Rightarrow> unit run" where
  "fault_on_mapped busy a c s =
     (let k = page_of a; pte = user_l3pt s k in
      if pte AND PTE_A = 0 then modify (\<lambda>s. flush_page a (set_user_pte k (pte OR PTE_A) s)) s
      else bnd (assert_c busy ''!(pt[3][addr/(1UL << 12)] & 0x080) && cause == 0xf''
                  (pte AND PTE_D = 0 \<and> c = CAUSE_STORE_PAGE_FAULT))
             (\<lambda>_. modify (\<lambda>s. flush_page a (set_user_pte k (pte OR PTE_D) s))) s)"

definition pop_node :: "nodeptr \<Rightarrow> vm \<Rightarrow> vm" where
  "pop_node node s =
     (let h = node_next (deref s node); s = s\<lparr>freelist_head := h\<rparr> in
      if h = freelist_tail s then s\<lparr>freelist_tail := None\<rparr> else s)"

definition make_pte :: "addr \<Rightarrow> u64" where
  "make_pte frame =
     push_bit PTE_PPN_SHIFT (drop_bit PGSHIFT frame) OR PTE_V OR PTE_U OR PTE_R OR PTE_W OR PTE_X"

definition fault_on_unmapped :: "(nat \<Rightarrow> bool) \<Rightarrow> addr \<Rightarrow> vm \<Rightarrow> unit run" where
  "fault_on_unmapped busy a s =
     (let k = page_of a in
      case freelist_head s of
        None \<Rightarrow> bnd (assert_c busy ''node'' False) (\<lambda>_ s. None) s
      | Some node \<Rightarrow>
          let s = pop_node node s; new_pte = make_pte (node_addr (deref s node));
              s = flush_page a (set_user_pte k (new_pte OR PTE_A OR PTE_D) s)
          in bnd (assert_c busy ''user_mapping[addr/(1UL << 12)].addr == 0''
                    (node_addr (user_mapping s k) = 0)) (\<lambda>_ s.
               let s = s\<lparr>user_mapping := (user_mapping s)(k := deref s node)\<rparr>;
                   (sstatus, s) = set_sum s
               in bnd (lift_opt (copy_from_home a))
                    (\<lambda>_. modify (\<lambda>s. flush_page a (set_user_pte k new_pte (restore_sstatus sstatus s)))) s) s)"

definition handle_fault :: "(nat \<Rightarrow> bool) \<Rightarrow> addr \<Rightarrow> u64 \<Rightarrow> vm \<Rightarrow> unit run" where
  "handle_fault busy a0 c =
     bnd (assert_c busy ''addr >= (1UL << 12) && addr < 63 * (1UL << 12)'' (in_test_range a0)) (\<lambda>_ s.
       let a = a0 div PGSIZE * PGSIZE in
       if user_l3pt s (page_of a) \<noteq> 0 then fault_on_mapped busy a c s
       else fault_on_unmapped busy a s)"

subsection \<open>handle_trap\<close>

text \<open>\<open>for (long i = 1; i < MAX_TEST_PAGES; i++) evict(i*PGSIZE)\<close>\<close>

fun evict_list :: "(nat \<Rightarrow> bool) \<Rightarrow> nat list \<Rightarrow> vm \<Rightarrow> unit run" where
  "evict_list busy [] = ret ()"
| "evict_list busy (i # is) = bnd (evict busy (of_nat i * PGSIZE)) (\<lambda>_. evict_list busy is)"

text \<open>
  The result is the trap frame that \<open>pop_tf\<close> resumes from. \<open>fssr\<close> is the instruction word
  the inline assembly finds behind its label. What follows \<open>terminate\<close> or a failed
  assertion is not reached. The load of \<open>*(int* )tf->epc\<close> is taken to succeed: it is the only access
  of the handlers to a user page without \<open>SUM\<close>.
\<close>

definition handle_illegal :: "(nat \<Rightarrow> bool) \<Rightarrow> u32 \<Rightarrow> trapframe_t \<Rightarrow> vm \<Rightarrow> trapframe_t run" where
  "handle_illegal busy fssr tf =
     bnd (assert_c busy ''tf->epc % 4 == 0'' (epc tf mod 4 = 0)) (\<lambda>_ s.
       if (ucast (load_le (va_to_pa s) (pmem s) (epc tf) 4) :: u32) = fssr then terminate busy 1 s
       else bnd (assert_c busy ''!\"illegal instruction\"'' False)
              (\<lambda>_. ret (tf\<lparr>epc := epc tf + 4\<rparr>)) s)"

definition handle_trap :: "(nat \<Rightarrow> bool) \<Rightarrow> u32 \<Rightarrow> trapframe_t \<Rightarrow> vm \<Rightarrow> trapframe_t run" where
  "handle_trap busy fssr tf =
     (if cause tf = CAUSE_USER_ECALL
      then bnd (evict_list busy [1..<MAX_TEST_PAGES]) (\<lambda>_. terminate busy (ucast (gpr tf 10)))
      else if cause tf = CAUSE_ILLEGAL_INSTRUCTION then handle_illegal busy fssr tf
      else if cause tf = CAUSE_FETCH_PAGE_FAULT \<or> cause tf = CAUSE_LOAD_PAGE_FAULT \<or>
           cause tf = CAUSE_STORE_PAGE_FAULT
      then bnd (handle_fault busy (badvaddr tf) (cause tf)) (\<lambda>_. ret tf)
      else bnd (assert_c busy ''!\"unexpected exception\"'' False) (\<lambda>_. ret tf))"

end
