(* ===== verification/VM_Paging.thy ===== *)
theory VM_Paging
  imports VM_Fault
begin

section \<open>Demand paging is transparent to the user program\<close>

text \<open>
  The invariant of the handlers of \<open>VM_Fault\<close> and what each of them does in a state that
  satisfies it. DRAM is seen as numbered pages: page \<open>p\<close> starts at \<open>home_addr p\<close>; pages 1 to
  62 are the homes of the user pages, pages 64 to 126 the frames of the free list.
\<close>

subsection \<open>Page arithmetic\<close>

definition page_addr :: "nat \<Rightarrow> addr" where
  "page_addr k = of_nat k * PGSIZE"

definition home_addr :: "nat \<Rightarrow> addr" where
  "home_addr k = DRAM_BASE + page_addr k"

lemma sizes [simp]: "PGSIZE = 4096" "MEGAPAGE_SIZE = 0x200000" "PTES_PER_PT = 512"
  by (simp_all add: model_defs)

lemma page_addr_of_nat: "page_addr k = of_nat (k * 4096)"
  by (simp add: page_addr_def)

lemma unat_page_addr [simp]: "k < 512 \<Longrightarrow> unat (page_addr k) = k * 4096"
  by (simp add: page_addr_of_nat unat_of_nat del: of_nat_mult)

lemma home_addr_of_nat: "home_addr k = of_nat (0x80000000 + k * 4096)"
  by (simp add: home_addr_def page_addr_of_nat DRAM_BASE_def)

lemma unat_home_addr [simp]: "k < 512 \<Longrightarrow> unat (home_addr k) = 0x80000000 + k * 4096"
  by (simp add: home_addr_of_nat unat_of_nat del: of_nat_add of_nat_mult)

lemma unat_page_off: "k < 512 \<Longrightarrow> i < 4096 \<Longrightarrow> unat (page_addr k + of_nat i) = k * 4096 + i"
  using unat_add_nowrap [of "page_addr k" i] by simp

lemma page_of_off: "k < 512 \<Longrightarrow> i < 4096 \<Longrightarrow> page_of (page_addr k + of_nat i) = k"
  by (simp add: page_of_def unat_div unat_page_off)

lemma page_of_page_addr [simp]: "k < 512 \<Longrightarrow> page_of (page_addr k) = k"
  using page_of_off [of k 0] by simp

lemma div_page_addr [simp]: "k < 512 \<Longrightarrow> page_addr k div 4096 * 4096 = page_addr k"
  by (rule unat_eqI) (simp add: unat_word_ariths unat_div)

lemma test_range_page:
  assumes "in_test_range a"
  shows "1 \<le> page_of a \<and> page_of a < 63 \<and> a div PGSIZE * PGSIZE = page_addr (page_of a)"
proof -
  have "4096 \<le> unat a" "unat a < 63 * 4096"
    using assms by (simp_all add: in_test_range_def MAX_TEST_PAGES_def word_le_nat_alt word_less_nat_alt)
  then have "unat (a div 4096) = unat a div 4096" "a div 4096 = of_nat (unat a div 4096)"
    by (simp_all add: unat_div word_of_unat)
  with \<open>4096 \<le> unat a\<close> \<open>unat a < 63 * 4096\<close> show ?thesis by (auto simp: page_of_def page_addr_def)
qed

lemma page_addr_in_range: "in_test_range (page_addr k) \<longleftrightarrow> 1 \<le> k \<and> k < 63" if "k < 512"
  using that by (auto simp: in_test_range_def MAX_TEST_PAGES_def word_le_nat_alt word_less_nat_alt)

subsection \<open>What the two windows show\<close>

lemma va_to_pa_user:
  assumes "k < 512" "i < 4096"
  shows "va_to_pa s (page_addr k + of_nat i) = pte_frame (user_l3pt s k) + of_nat i"
proof -
  have u: "unat (page_addr k + of_nat i) = k * 4096 + i" using assms by (rule unat_page_off)
  then have "page_addr k + of_nat i < 0x200000" using assms by (simp add: word_less_nat_alt)
  moreover have "(page_addr k + of_nat i) mod 4096 = of_nat i"
    by (rule unat_eqI) (use assms in \<open>simp add: u unat_mod unat_of_nat\<close>)
  moreover have "unat ((page_addr k + of_nat i) div 4096) = k"
    using assms by (simp add: u unat_div)
  ultimately show ?thesis by (simp add: va_to_pa_def)
qed

lemma uva2kva_window: "k < 512 \<Longrightarrow> i < 4096 \<Longrightarrow> \<not> uva2kva (page_addr k) + of_nat i < 0x200000"
proof -
  assume k: "k < 512" and i: "i < 4096"
  have "uva2kva (page_addr k) + of_nat i = of_nat (2 ^ 64 - 0x200000 + k * 4096 + i)"
    by (simp add: uva2kva_def page_addr_of_nat)
  then have "unat (uva2kva (page_addr k) + of_nat i) = 2 ^ 64 - 0x200000 + k * 4096 + i"
    using k i by (simp add: unat_of_nat del: of_nat_add of_nat_mult)
  then show ?thesis by (simp add: word_less_nat_alt)
qed

lemma va_to_pa_home:
  assumes "k < 512" "i < 4096"
  shows "va_to_pa s (uva2kva (page_addr k) + of_nat i) = home_addr k + of_nat i"
proof -
  have "va_to_pa s (uva2kva (page_addr k) + of_nat i) = uva2kva (page_addr k) + of_nat i + 0x200000 + DRAM_BASE"
    using uva2kva_window [OF assms] by (simp add: va_to_pa_def)
  then show ?thesis by (simp add: uva2kva_def home_addr_def)
qed

subsection \<open>Page-table entries\<close>

definition pte_of :: "addr \<Rightarrow> u64 \<Rightarrow> u64" where
  "pte_of frame flags = push_bit 10 (drop_bit 12 frame) OR flags"

lemma make_pte_of: "make_pte a = pte_of a 0x1F"
  by (simp add: make_pte_def pte_of_def model_defs or.assoc)

lemma pte_of_or: "pte_of a f OR g = pte_of a (f OR g)"
  by (simp add: pte_of_def or.assoc)

lemma pte_of_and:
  assumes "g < 0x400"
  shows "pte_of a f AND g = f AND g"
proof -
  have "unat g < 2 ^ 10" using assms by (simp add: word_less_nat_alt)
  then have "k < 10" if "bit g k" for k using bit_less_exp [OF that] by blast
  then show ?thesis
    by (intro bit_word_eqI)
      (auto simp: pte_of_def bit_and_iff bit_or_iff bit_push_bit_iff dest: leD)
qed

definition page_aligned :: "addr \<Rightarrow> bool" where
  "page_aligned a \<longleftrightarrow> unat a mod 4096 = 0 \<and> unat a < 2 ^ 56"

lemma pte_frame_pte_of:
  assumes "page_aligned a" "f < 0x400"
  shows "pte_frame (pte_of a f) = a"
proof -
  have "unat (take_bit 12 a) = 0"
    unfolding unsigned_take_bit_eq using assms(1) by (simp add: take_bit_eq_mod page_aligned_def)
  then have low: "\<not> bit a k" if "k < 12" for k
    using that by (metis bit_take_bit_iff unat_eq_0 bit_0_eq bot_apply bot_bool_def)
  have high: "k < 56" if "bit a k" for k
    using bit_less_exp [OF that, of 56] assms(1) by (simp add: page_aligned_def)
  have "unat f < 2 ^ 10" using assms(2) by (simp add: word_less_nat_alt)
  then have f: "k < 10" if "bit f k" for k using bit_less_exp [OF that] by blast
  have "drop_bit 10 (pte_of a f) = drop_bit 12 a"
    by (rule bit_word_eqI)
      (auto simp: pte_of_def bit_drop_bit_eq bit_or_iff bit_push_bit_iff dest: f high)
  moreover have "push_bit 12 (take_bit 44 (drop_bit 12 a)) = a"
  proof (rule bit_word_eqI)
    fix k
    assume "k < LENGTH(64)"
    then show "bit (push_bit 12 (take_bit 44 (drop_bit 12 a))) k = bit a k"
      using low [of k] high [of k]
      by (cases "k < 12") (auto simp: bit_drop_bit_eq bit_push_bit_iff bit_take_bit_iff)
  qed
  ultimately show ?thesis by (simp add: pte_frame_def model_defs)
qed

subsection \<open>Copying a home page into a frame\<close>

lemma span_4096: "span a 4096 = (\<lambda>i. a + of_nat i) ` {..<4096}"
  by (simp add: span_def)

lemma home_pages_disjoint:
  assumes "p \<noteq> q" "p < 512" "q < 512"
  shows "span (home_addr p) 4096 \<inter> span (home_addr q) 4096 = {}"
proof (cases "p < q")
  case True
  with assms show ?thesis by (intro span_disjoint) auto
next
  case False
  with assms have "span (home_addr q) 4096 \<inter> span (home_addr p) 4096 = {}"
    by (intro span_disjoint) auto
  then show ?thesis by blast
qed

lemma home_page_off_inj:
  "i < 4096 \<Longrightarrow> j < 4096 \<Longrightarrow> home_addr p + of_nat i = home_addr p + of_nat j \<longleftrightarrow> i = j"
  using of_nat_u64_inj [of i j] by simp

lemma home_addr_aligned: "p < 512 \<Longrightarrow> page_aligned (home_addr p)"
  by (auto simp: page_aligned_def)

lemma home_addr_nonzero: "p < 512 \<Longrightarrow> home_addr p \<noteq> 0"
  using unat_home_addr [of p] by (metis add_is_0 unat_0 zero_neq_numeral)

lemma home_addr_inj: "p < 512 \<Longrightarrow> q < 512 \<Longrightarrow> home_addr p = home_addr q \<longleftrightarrow> p = q"
  by (auto dest!: arg_cong [of _ _ unat])

text \<open>The user page \<open>k\<close> is mapped to DRAM page \<open>p\<close>, with flags that say who may use it.\<close>

definition maps_to :: "vm \<Rightarrow> nat \<Rightarrow> nat \<Rightarrow> u64 \<Rightarrow> bool" where
  "maps_to s k p f \<longleftrightarrow> user_l3pt s k = pte_of (home_addr p) f \<and> k < 512 \<and> p < 512 \<and> f < 0x400"

lemma maps_to_pa: "maps_to s k p f \<Longrightarrow> i < 4096 \<Longrightarrow> va_to_pa s (page_addr k + of_nat i) = home_addr p + of_nat i"
  by (simp add: maps_to_def va_to_pa_user pte_frame_pte_of home_addr_aligned)

lemma image_span_user:
  "maps_to s k p f \<Longrightarrow> va_to_pa s ` span (page_addr k) 4096 = span (home_addr p) 4096"
  unfolding span_4096 image_image by (rule image_cong [OF refl]) (simp add: maps_to_pa)

lemma image_span_home:
  "k < 512 \<Longrightarrow> va_to_pa s ` span (uva2kva (page_addr k)) 4096 = span (home_addr k) 4096"
  unfolding span_4096 image_image by (rule image_cong [OF refl]) (simp add: va_to_pa_home)

text \<open>The two ranges are a part of the address space on which the C library is right.\<close>

lemma user_page_space:
  assumes "maps_to s k p f" "p \<noteq> k"
  shows "address_space (va_to_pa s) (span (page_addr k) 4096 \<union> span (uva2kva (page_addr k)) 4096)"
proof
  have k: "k < 512" "p < 512" using assms by (auto simp: maps_to_def)
  have "inj_on (va_to_pa s) (span (page_addr k) 4096)"
    by (rule inj_onI) (auto simp: span_4096 maps_to_pa [OF assms(1)] home_page_off_inj)
  moreover have "inj_on (va_to_pa s) (span (uva2kva (page_addr k)) 4096)"
    by (rule inj_onI) (auto simp: span_4096 va_to_pa_home k home_page_off_inj)
  moreover have "va_to_pa s ` span (page_addr k) 4096 \<inter> va_to_pa s ` span (uva2kva (page_addr k)) 4096 = {}"
    using home_pages_disjoint [of p k] assms(2) k
    by (simp add: image_span_user [OF assms(1)] image_span_home)
  ultimately show "inj_on (va_to_pa s) (span (page_addr k) 4096 \<union> span (uva2kva (page_addr k)) 4096)"
    by (auto simp: inj_on_Un)
qed

lemma user_home_disjoint:
  "k < 512 \<Longrightarrow> span (page_addr k) 4096 \<inter> span (uva2kva (page_addr k)) 4096 = {}"
proof -
  assume k: "k < 512"
  have "x < 0x200000" if "x \<in> span (page_addr k) 4096" for x
    using that k by (auto simp: span_4096 word_less_nat_alt unat_page_off)
  moreover have "\<not> x < 0x200000" if "x \<in> span (uva2kva (page_addr k)) 4096" for x
    using that k uva2kva_window by (auto simp: span_4096)
  ultimately show ?thesis by blast
qed

text \<open>The handler's accesses to a page \<open>k\<close> and to its home go through.\<close>

abbreviation sum_set :: "vm \<Rightarrow> bool" where
  "sum_set s \<equiv> csrs s ''sstatus'' AND SSTATUS_SUM \<noteq> 0"

lemma in_kernel_page_home: "p < 512 \<Longrightarrow> in_kernel_page s (home_addr p) \<longleftrightarrow> p \<in> set (kernel_pages s)"
  by (simp add: in_kernel_page_def home_addr_def unat_div)

lemma supervisor_access_user:
  assumes "maps_to s k p f" "f AND need = need" "need < 0x400" "sum_set s" "p \<notin> set (kernel_pages s)"
  shows "supervisor_access s need (page_addr k)"
proof -
  have k: "k < 512" "p < 512" "user_l3pt s k = pte_of (home_addr p) f" using assms(1) by (simp_all add: maps_to_def)
  have "unat (page_addr k div 4096) = k" using k(1) by (simp add: unat_div)
  moreover have "page_addr k < 0x200000" using k(1) by (simp add: word_less_nat_alt)
  moreover have "va_to_pa s (page_addr k) = home_addr p" using maps_to_pa [OF assms(1), of 0] by simp
  ultimately show ?thesis
    using assms(2-5) k(2,3) by (simp add: supervisor_access_def Let_def pte_of_and in_kernel_page_home)
qed

lemma supervisor_access_home:
  assumes "k < 512" "k \<notin> set (kernel_pages s)"
  shows "supervisor_access s need (uva2kva (page_addr k))"
proof -
  have "uva2kva (page_addr k) = of_nat (2 ^ 64 - 0x200000 + k * 4096)" by (simp add: uva2kva_def page_addr_of_nat)
  then have "unat (uva2kva (page_addr k)) = 2 ^ 64 - 0x200000 + k * 4096"
    using assms(1) by (simp add: unat_of_nat del: of_nat_add of_nat_mult)
  then have "uva2kva (page_addr k) \<ge> - 0x200000" by (simp add: word_le_nat_alt)
  moreover have "\<not> uva2kva (page_addr k) < 0x200000" using uva2kva_window [of k 0] assms(1) by simp
  moreover have "va_to_pa s (uva2kva (page_addr k)) = home_addr k" using va_to_pa_home [of k 0 s] assms(1) by simp
  ultimately show ?thesis using assms by (simp add: supervisor_access_def in_kernel_page_home)
qed

lemma copy_from_home_copies:
  assumes "maps_to s k p f" "p \<noteq> k"
    and "f = 0xDF" "sum_set s" "p \<notin> set (kernel_pages s)" "k \<notin> set (kernel_pages s)"
  shows "\<exists>m. copy_from_home (page_addr k) s = Some (s\<lparr>pmem := m\<rparr>) \<and>
    (\<forall>i<4096. m (home_addr p + of_nat i) = pmem s (home_addr k + of_nat i)) \<and>
    (\<forall>x. x \<notin> span (home_addr p) 4096 \<longrightarrow> m x = pmem s x)"
proof -
  have k: "k < 512" using assms by (auto simp: maps_to_def)
  have n: "unat (PGSIZE :: u64) = 4096" by simp
  have access: "supervisor_access s store_needs (page_addr k)" "supervisor_access s load_needs (uva2kva (page_addr k))"
    using supervisor_access_user [OF assms(1) _ _ assms(4,5)] supervisor_access_home [OF k assms(6)] assms(3)
    by (simp_all add: store_needs_def model_defs)
  obtain m where m: "memcpy (va_to_pa s) (pmem s) (page_addr k) (uva2kva (page_addr k)) PGSIZE = Some (m, page_addr k)"
    "\<forall>i<4096. load8 (va_to_pa s) m (page_addr k + of_nat i) =
       load8 (va_to_pa s) (pmem s) (uva2kva (page_addr k) + of_nat i)"
    "\<forall>x. x \<notin> va_to_pa s ` span (page_addr k) 4096 \<longrightarrow> m x = pmem s x"
    using address_space.memcpy_copies [OF user_page_space [OF assms(1,2)], of "page_addr k" PGSIZE
        "uva2kva (page_addr k)" "pmem s"] user_home_disjoint [OF k] k
    by (auto simp: n)
  then show ?thesis
    using k by (auto simp: copy_from_home_def access load8_def maps_to_pa [OF assms(1)] va_to_pa_home
        image_span_user [OF assms(1)])
qed

subsection \<open>The invariant\<close>

text \<open>
  \<open>pages s\<close> are the mapped user pages, \<open>frame s k\<close> is the address the mapping of page \<open>k\<close>
  records. The free list is a suffix of \<open>freelist_nodes\<close>: its head is the node whose index is
  the number of mapped pages.
\<close>

definition pages :: "vm \<Rightarrow> nat set" where
  "pages s = {k. user_l3pt s k \<noteq> 0}"

abbreviation frame :: "vm \<Rightarrow> nat \<Rightarrow> addr" where
  "frame s k \<equiv> node_addr (user_mapping s k)"

abbreviation slot :: "vm \<Rightarrow> nat \<Rightarrow> addr" where
  "slot s i \<equiv> node_addr (freelist_nodes s i)"

definition nodes_ok :: "vm \<Rightarrow> bool" where
  "nodes_ok s \<longleftrightarrow> inj_on (slot s) {..<63} \<and>
     (\<forall>i<63. (\<exists>p. 64 \<le> p \<and> p < 127 \<and> slot s i = home_addr p) \<and>
       node_next (freelist_nodes s i) = (if i < 62 then Some (FreeNode (Suc i)) else None))"

definition list_ok :: "vm \<Rightarrow> bool" where
  "list_ok s \<longleftrightarrow> pages s \<subseteq> {1..<63} \<and> freelist_head s = Some (FreeNode (card (pages s))) \<and>
     freelist_tail s = (if card (pages s) < 62 then Some (FreeNode 62) else None)"

definition mapping_ok :: "vm \<Rightarrow> bool" where
  "mapping_ok s \<longleftrightarrow> inj_on (frame s) (pages s) \<and>
     (\<forall>k\<in>pages s. frame s k \<in> slot s ` {..<card (pages s)} \<and>
        user_l3pt s k \<in> pte_of (frame s k) ` {0x1F, 0x5F, 0xDF}) \<and>
     (\<forall>k. k \<notin> pages s \<longrightarrow> frame s k = 0)"

definition clean_ok :: "vm \<Rightarrow> bool" where
  "clean_ok s \<longleftrightarrow> (\<forall>k\<in>pages s. user_l3pt s k AND PTE_D = 0 \<longrightarrow>
     (\<forall>i<4096. pmem s (frame s k + of_nat i) = pmem s (home_addr k + of_nat i)))"

text \<open>The pages of the kernel's own data are neither frames nor the home of a mapped page.\<close>

definition apart_ok :: "vm \<Rightarrow> bool" where
  "apart_ok s \<longleftrightarrow> (\<forall>p\<in>set (kernel_pages s). p \<notin> pages s \<and> \<not> (64 \<le> p \<and> p < 127))"

definition paging_inv :: "vm \<Rightarrow> bool" where
  "paging_inv s \<longleftrightarrow> nodes_ok s \<and> list_ok s \<and> mapping_ok s \<and> clean_ok s \<and> apart_ok s"

text \<open>The byte the user program sees at offset \<open>i\<close> of its page \<open>k\<close>.\<close>

definition user_byte :: "vm \<Rightarrow> nat \<Rightarrow> nat \<Rightarrow> byte" where
  "user_byte s k i = pmem s ((if k \<in> pages s then frame s k else home_addr k) + of_nat i)"

lemma pages_facts:
  assumes "list_ok s"
  shows "finite (pages s)" "card (pages s) \<le> 62" "k \<in> pages s \<Longrightarrow> 1 \<le> k \<and> k < 63"
proof -
  have p: "pages s \<subseteq> {1..<63}" using assms by (simp add: list_ok_def)
  from card_mono [OF _ p] show "card (pages s) \<le> 62" by simp
  show "finite (pages s)" using p by (rule finite_subset) simp
  show "k \<in> pages s \<Longrightarrow> 1 \<le> k \<and> k < 63" using p by auto
qed

lemma unmapped_room: "list_ok s \<Longrightarrow> k \<notin> pages s \<Longrightarrow> 1 \<le> k \<Longrightarrow> k < 63 \<Longrightarrow> card (pages s) < 62"
proof -
  assume l: "list_ok s" and k: "k \<notin> pages s" "1 \<le> k" "k < 63"
  then have "insert k (pages s) \<subseteq> {1..<63}" by (auto simp: list_ok_def)
  from card_mono [OF _ this] have "card (insert k (pages s)) \<le> 62" by simp
  with k pages_facts(1) [OF l] show ?thesis by simp
qed

lemma slot_page:
  "nodes_ok s \<Longrightarrow> i < 63 \<Longrightarrow> \<exists>p. 64 \<le> p \<and> p < 127 \<and> slot s i = home_addr p"
  by (simp add: nodes_ok_def)

lemma mapped_page:
  assumes "paging_inv s" "k \<in> pages s"
  shows "\<exists>p f. 64 \<le> p \<and> p < 127 \<and> frame s k = home_addr p \<and> f \<in> {0x1F, 0x5F, 0xDF} \<and>
    maps_to s k p f"
proof -
  have inv: "nodes_ok s" "list_ok s" "mapping_ok s" using assms by (simp_all add: paging_inv_def)
  then have m: "frame s k \<in> slot s ` {..<card (pages s)}"
    "user_l3pt s k \<in> pte_of (frame s k) ` {0x1F, 0x5F, 0xDF}"
    using assms(2) unfolding mapping_ok_def by blast+
  from m(1) obtain i where i: "frame s k = slot s i" "i < card (pages s)" by blast
  from m(2) obtain f where f: "f \<in> {0x1F, 0x5F, 0xDF}" "user_l3pt s k = pte_of (frame s k) f"
    by blast
  have "i < 63" using i(2) pages_facts(2) [OF inv(2)] by simp
  then obtain p where "64 \<le> p" "p < 127" "slot s i = home_addr p" using slot_page [OF inv(1)] by blast
  with i f pages_facts(3) [OF inv(2) assms(2)] show ?thesis
    by (intro exI [of _ p] exI [of _ f]) (auto simp: maps_to_def)
qed

lemma flag_tests:
  "f \<in> {0x1F, 0x5F, 0xDF} \<Longrightarrow> pte_of a f AND PTE_A = 0 \<longleftrightarrow> f = 0x1F"
  "f \<in> {0x1F, 0x5F, 0xDF} \<Longrightarrow> pte_of a f AND PTE_D = 0 \<longleftrightarrow> f \<noteq> 0xDF"
  by (auto simp: pte_of_and PTE_A_def PTE_D_def)

lemma pte_of_nonzero: "f \<in> {0x1F, 0x5F, 0xDF} \<Longrightarrow> pte_of a f \<noteq> 0"
proof
  assume "f \<in> {0x1F, 0x5F, 0xDF}" "pte_of a f = 0"
  then have "f AND 1 = 0" using pte_of_and [of 1 a f] by simp
  with \<open>f \<in> _\<close> show False by auto
qed

subsection \<open>A fault on a mapped page\<close>

lemma set_user_pte_simps [simp]:
  "user_l3pt (set_user_pte k v s) j = (if j = k then v else user_l3pt s j)"
  "i \<noteq> 3 \<Longrightarrow> pt (set_user_pte k v s) i = pt s i"
  "user_mapping (set_user_pte k v s) = user_mapping s"
  "freelist_nodes (set_user_pte k v s) = freelist_nodes s"
  "freelist_head (set_user_pte k v s) = freelist_head s"
  "freelist_tail (set_user_pte k v s) = freelist_tail s"
  "kernel_pages (set_user_pte k v s) = kernel_pages s"
  "pmem (set_user_pte k v s) = pmem s" "csrs (set_user_pte k v s) = csrs s"
  "tohost_log (set_user_pte k v s) = tohost_log s"
  by (simp_all add: set_user_pte_def)

lemma flush_page_simps [simp]:
  "pt (flush_page a s) = pt s" "user_mapping (flush_page a s) = user_mapping s"
  "freelist_nodes (flush_page a s) = freelist_nodes s"
  "freelist_head (flush_page a s) = freelist_head s"
  "freelist_tail (flush_page a s) = freelist_tail s"
  "kernel_pages (flush_page a s) = kernel_pages s"
  "pmem (flush_page a s) = pmem s" "csrs (flush_page a s) = csrs s"
  "tohost_log (flush_page a s) = tohost_log s"
  by (simp_all add: flush_page_def)

text \<open>Changing the flags of a mapped page, its content untouched.\<close>

lemma set_flags_inv:
  fixes a :: addr
  assumes "paging_inv s" "k \<in> pages s" "f \<in> {0x1F, 0x5F, 0xDF}"
    and "f \<noteq> 0xDF \<Longrightarrow> user_l3pt s k AND PTE_D = 0"
  defines "t \<equiv> flush_page a (set_user_pte k (pte_of (frame s k) f) s)"
  shows "paging_inv t" "user_byte t = user_byte s" "pages t = pages s" "kernel_pages t = kernel_pages s"
proof -
  have pt: "user_l3pt t j = (if j = k then pte_of (frame s k) f else user_l3pt s j)" for j
    by (simp add: t_def)
  then show pg: "pages t = pages s"
    using assms(2) pte_of_nonzero [OF assms(3)] by (auto simp: pages_def)
  show kp: "kernel_pages t = kernel_pages s" by (simp add: t_def)
  have same: "user_mapping t = user_mapping s" "freelist_nodes t = freelist_nodes s"
    "freelist_head t = freelist_head s" "freelist_tail t = freelist_tail s" "pmem t = pmem s"
    by (simp_all add: t_def)
  show "user_byte t = user_byte s" by (simp add: user_byte_def fun_eq_iff pg same)
  have "nodes_ok t" "list_ok t" "apart_ok t"
    using assms(1) by (simp_all add: paging_inv_def nodes_ok_def list_ok_def apart_ok_def same pg kp)
  moreover have "mapping_ok t"
    using assms(1-3) by (auto simp: paging_inv_def mapping_ok_def same pg pt)
  moreover have "clean_ok t"
    using assms(1-4) by (auto simp: paging_inv_def clean_ok_def same pg pt flag_tests)
  ultimately show "paging_inv t" by (simp add: paging_inv_def)
qed

subsection \<open>A fault on a page that is not mapped\<close>

text \<open>\<open>maps_page s k p t\<close>: \<open>t\<close> is \<open>s\<close> with user page \<open>k\<close> put into DRAM page \<open>p\<close>, the next free one.\<close>

definition maps_page :: "vm \<Rightarrow> nat \<Rightarrow> nat \<Rightarrow> vm \<Rightarrow> bool" where
  "maps_page s k p t \<longleftrightarrow>
     paging_inv s \<and> k \<notin> pages s \<and> 1 \<le> k \<and> k < 63 \<and>
     64 \<le> p \<and> p < 127 \<and> slot s (card (pages s)) = home_addr p \<and>
     user_l3pt t = (user_l3pt s)(k := pte_of (home_addr p) 0x1F) \<and>
     user_mapping t = (user_mapping s)(k := freelist_nodes s (card (pages s))) \<and>
     freelist_nodes t = freelist_nodes s \<and>
     freelist_head t = Some (FreeNode (Suc (card (pages s)))) \<and>
     freelist_tail t = (if Suc (card (pages s)) < 62 then Some (FreeNode 62) else None) \<and>
     (\<forall>i<4096. pmem t (home_addr p + of_nat i) = pmem s (home_addr k + of_nat i)) \<and>
     (\<forall>x. x \<notin> span (home_addr p) 4096 \<longrightarrow> pmem t x = pmem s x) \<and>
     (\<forall>i. i \<noteq> 3 \<longrightarrow> pt t i = pt s i) \<and> csrs t = csrs s \<and> tohost_log t = tohost_log s \<and>
     kernel_pages t = kernel_pages s \<and> k \<notin> set (kernel_pages s)"

lemma other_page:
  "p \<noteq> q \<Longrightarrow> p < 512 \<Longrightarrow> q < 512 \<Longrightarrow> i < 4096 \<Longrightarrow> home_addr q + of_nat i \<notin> span (home_addr p) 4096"
  using home_pages_disjoint [of p q] by (auto simp: span_4096)

lemma frame_differs:
  assumes "paging_inv s" "j \<in> pages s" "card (pages s) < 62"
  shows "frame s j \<noteq> slot s (card (pages s))"
proof -
  have inv: "nodes_ok s" "mapping_ok s" using assms(1) by (simp_all add: paging_inv_def)
  then obtain i where "i < card (pages s)" "frame s j = slot s i"
    using assms(2) unfolding mapping_ok_def by blast
  moreover have "inj_on (slot s) {..<63}" using inv(1) by (simp add: nodes_ok_def)
  ultimately show ?thesis using assms(3) by (auto dest!: inj_onD)
qed

lemma maps_page_dest:
  assumes "maps_page s k p t"
  shows "paging_inv s" "k \<notin> pages s" "1 \<le> k" "k < 63" "64 \<le> p" "p < 127"
    "slot s (card (pages s)) = home_addr p" "card (pages s) < 62"
  using assms by (auto simp: maps_page_def paging_inv_def intro: unmapped_room)

lemma mapped_pages: "maps_page s k p t \<Longrightarrow> pages t = insert k (pages s)"
  using pte_of_nonzero [of 31 "home_addr p"] by (auto simp: pages_def maps_page_def)

lemma card_mapped_pages: "maps_page s k p t \<Longrightarrow> card (pages t) = Suc (card (pages s))"
  using maps_page_dest [of s k p t] pages_facts(1) [of s] by (simp add: mapped_pages paging_inv_def)

lemma mapped_frame: "maps_page s k p t \<Longrightarrow> frame t j = (if j = k then home_addr p else frame s j)"
  by (simp add: maps_page_def)

lemma mapped_content:
  assumes m: "maps_page s k p t"
  shows "j \<in> pages s \<Longrightarrow> i < 4096 \<Longrightarrow> pmem t (frame s j + of_nat i) = pmem s (frame s j + of_nat i)"
    "q < 64 \<Longrightarrow> i < 4096 \<Longrightarrow> pmem t (home_addr q + of_nat i) = pmem s (home_addr q + of_nat i)"
    "i < 4096 \<Longrightarrow> pmem t (home_addr p + of_nat i) = pmem s (home_addr k + of_nat i)"
proof -
  note d = maps_page_dest [OF m]
  assume j: "j \<in> pages s" "i < 4096"
  obtain q where q: "q < 127" "frame s j = home_addr q" using mapped_page [OF d(1) j(1)] by blast
  then have "q \<noteq> p" using frame_differs [OF d(1) j(1) d(8)] d(7) by auto
  with q j d(6) other_page [of p q i] m show "pmem t (frame s j + of_nat i) = pmem s (frame s j + of_nat i)"
    by (simp add: maps_page_def)
next
  assume "q < 64" "i < 4096"
  with maps_page_dest [OF m] other_page [of p q i] m
  show "pmem t (home_addr q + of_nat i) = pmem s (home_addr q + of_nat i)"
    by (simp add: maps_page_def)
qed (use m in \<open>simp add: maps_page_def\<close>)

lemma map_page_bytes:
  assumes "maps_page s k p t" "1 \<le> j" "j < 63" "i < 4096"
  shows "user_byte t j i = user_byte s j i"
  using assms(2-4) maps_page_dest [OF assms(1)]
  by (simp add: user_byte_def mapped_pages [OF assms(1)] mapped_frame [OF assms(1)] mapped_content [OF assms(1)])

lemma map_page_mapping:
  assumes m: "maps_page s k p t"
  shows "mapping_ok t"
proof -
  note d = maps_page_dest [OF m] and mp = mapped_pages [OF m] mapped_frame [OF m]
  have n: "mapping_ok s" using d(1) by (simp add: paging_inv_def)
  have tn: "freelist_nodes t = freelist_nodes s" "user_l3pt t k = pte_of (home_addr p) 0x1F"
    "j \<noteq> k \<Longrightarrow> user_l3pt t j = user_l3pt s j" for j
    using m by (simp_all add: maps_page_def)
  show ?thesis
    unfolding mapping_ok_def
  proof (intro conjI ballI allI impI)
    have "inj_on (frame s) (pages s)" using n by (simp add: mapping_ok_def)
    then show "inj_on (frame t) (pages t)"
      using d(2,7) frame_differs [OF d(1) _ d(8)]
      by (auto simp: mp inj_on_def) metis+
  next
    fix j
    assume j: "j \<in> pages t"
    show "frame t j \<in> slot t ` {..<card (pages t)}"
    proof (cases "j = k")
      case True
      then show ?thesis
        using d(7) unfolding card_mapped_pages [OF m] by (simp add: mp tn lessThan_Suc)
    next
      case False
      then have "frame s j \<in> slot s ` {..<card (pages s)}"
        using j n by (auto simp: mapping_ok_def mp)
      with False show ?thesis unfolding card_mapped_pages [OF m] by (auto simp: mp tn lessThan_Suc)
    qed
    show "user_l3pt t j \<in> pte_of (frame t j) ` {0x1F, 0x5F, 0xDF}"
      using j n by (cases "j = k") (auto simp: mapping_ok_def mp tn)
  next
    fix j
    assume "j \<notin> pages t"
    then show "frame t j = 0" using n by (auto simp: mapping_ok_def mp)
  qed
qed

lemma map_page_inv:
  assumes m: "maps_page s k p t"
  shows "paging_inv t"
proof -
  note d = maps_page_dest [OF m] and mp = mapped_pages [OF m] mapped_frame [OF m]
  have n: "nodes_ok s" "list_ok s" "clean_ok s" using d(1) by (simp_all add: paging_inv_def)
  have tn: "freelist_nodes t = freelist_nodes s" "j \<noteq> k \<Longrightarrow> user_l3pt t j = user_l3pt s j" for j
    using m by (simp_all add: maps_page_def)
  have "nodes_ok t" using n(1) by (simp add: nodes_ok_def tn)
  moreover have "pages t \<subseteq> {1..<63}" using n(2) d by (auto simp: list_ok_def mp)
  then have "list_ok t" using m by (simp add: list_ok_def card_mapped_pages [OF m] maps_page_def)
  moreover have "j < 64" if "j \<in> pages s" for j using pages_facts(3) [OF n(2) that] by simp
  then have "clean_ok t"
    using n(3) d by (auto simp: clean_ok_def mp mapped_content [OF m] tn)
  moreover have "apart_ok t"
    using d(1) m by (auto simp: paging_inv_def apart_ok_def mp maps_page_def)
  ultimately show ?thesis using map_page_mapping [OF m] by (simp add: paging_inv_def)
qed

lemma pop_head:
  assumes "paging_inv s" "card (pages s) < 62"
  shows "freelist_head s = Some (FreeNode (card (pages s)))"
    "pop_node (FreeNode (card (pages s))) s = s\<lparr>freelist_head := Some (FreeNode (Suc (card (pages s)))),
       freelist_tail := if Suc (card (pages s)) < 62 then Some (FreeNode 62) else None\<rparr>"
proof -
  have n: "nodes_ok s" "list_ok s" using assms(1) by (simp_all add: paging_inv_def)
  show "freelist_head s = Some (FreeNode (card (pages s)))" using n(2) by (simp add: list_ok_def)
  have "node_next (freelist_nodes s (card (pages s))) = Some (FreeNode (Suc (card (pages s))))"
    using n(1) assms(2) by (simp add: nodes_ok_def)
  moreover have "freelist_tail s = Some (FreeNode 62)" using n(2) assms(2) by (simp add: list_ok_def)
  ultimately show "pop_node (FreeNode (card (pages s))) s = s\<lparr>freelist_head := Some (FreeNode (Suc (card (pages s)))),
       freelist_tail := if Suc (card (pages s)) < 62 then Some (FreeNode 62) else None\<rparr>"
    using assms(2) by (auto simp: pop_node_def Let_def)
qed

lemma pop_node_simps [simp]:
  "pt (pop_node n s) = pt s" "user_mapping (pop_node n s) = user_mapping s"
  "freelist_nodes (pop_node n s) = freelist_nodes s" "kernel_pages (pop_node n s) = kernel_pages s" "pmem (pop_node n s) = pmem s"
  "csrs (pop_node n s) = csrs s" "tohost_log (pop_node n s) = tohost_log s"
  by (simp_all add: pop_node_def Let_def)

lemma set_sum_eq:
  "set_sum s = (csrs s ''sstatus'', s\<lparr>csrs := (csrs s)(''sstatus'' := csrs s ''sstatus'' OR SSTATUS_SUM)\<rparr>)"
  by (simp add: set_sum_def set_csr_def)

lemma sum_is_set: "(x OR SSTATUS_SUM) AND SSTATUS_SUM \<noteq> 0" "SSTATUS_SUM \<noteq> 0"
  by (simp_all add: SSTATUS_SUM_def bit.conj_disj_distrib2)

lemma fault_on_unmapped_maps:
  assumes inv: "paging_inv s" and k: "k \<notin> pages s" "1 \<le> k" "k < 63" and ker: "k \<notin> set (kernel_pages s)"
  shows "\<exists>t p. fault_on_unmapped busy (page_addr k) s = Some (Inr ((), t)) \<and> maps_page s k p t"
proof -
  let ?n = "card (pages s)" and ?a = "page_addr k"
  have room: "?n < 62" using inv k by (intro unmapped_room) (auto simp: paging_inv_def)
  obtain p where p: "64 \<le> p" "p < 127" "slot s ?n = home_addr p"
    using slot_page [of s ?n] inv room by (auto simp: paging_inv_def)
  have fr: "frame s k = 0" using inv k(1) by (simp add: paging_inv_def mapping_ok_def)
  define s1 where "s1 = flush_page ?a (set_user_pte k (pte_of (home_addr p) 0xDF) (pop_node (FreeNode ?n) s))"
  define s2 where "s2 = s1\<lparr>user_mapping := (user_mapping s)(k := freelist_nodes s ?n)\<rparr>"
  define s3 where "s3 = s2\<lparr>csrs := (csrs s)(''sstatus'' := csrs s ''sstatus'' OR SSTATUS_SUM)\<rparr>"
  have s1f: "user_l3pt s1 = (user_l3pt s)(k := pte_of (home_addr p) 0xDF)" "user_mapping s1 = user_mapping s"
    "freelist_nodes s1 = freelist_nodes s" "pmem s1 = pmem s" "csrs s1 = csrs s" "tohost_log s1 = tohost_log s"
    "kernel_pages s1 = kernel_pages s" "freelist_head s1 = Some (FreeNode (Suc ?n))"
    "freelist_tail s1 = (if Suc ?n < 62 then Some (FreeNode 62) else None)"
    by (simp_all add: s1_def pop_head(2) [OF inv room] fun_eq_iff)
  have s3: "set_sum s2 = (csrs s ''sstatus'', s3)" by (simp add: set_sum_eq s2_def s1f s3_def)
  have "user_l3pt s3 k = pte_of (home_addr p) 0xDF"
    by (simp add: s3_def s2_def s1f)
  then have maps: "maps_to s3 k p 0xDF" using k p by (simp add: maps_to_def)
  have sum: "sum_set s3" by (simp add: s3_def sum_is_set)
  have ker3: "p \<notin> set (kernel_pages s3)" "k \<notin> set (kernel_pages s3)"
    using ker inv p(1,2) by (auto simp: s3_def s2_def s1f paging_inv_def apart_ok_def)
  then obtain m where m: "copy_from_home ?a s3 = Some (s3\<lparr>pmem := m\<rparr>)"
    "\<forall>i<4096. m (home_addr p + of_nat i) = pmem s3 (home_addr k + of_nat i)"
    "\<forall>x. x \<notin> span (home_addr p) 4096 \<longrightarrow> m x = pmem s3 x"
    using copy_from_home_copies [OF maps _ refl sum] k p ker3 by auto
  define t where "t = flush_page ?a (set_user_pte k (pte_of (home_addr p) 0x1F)
    (restore_sstatus (csrs s ''sstatus'') (s3\<lparr>pmem := m\<rparr>)))"
  have pm: "pmem s3 = pmem s" by (simp add: s3_def s2_def s1f)
  have "maps_page s k p t"
    unfolding maps_page_def
  proof (intro conjI)
    show "user_l3pt t = (user_l3pt s)(k := pte_of (home_addr p) 0x1F)"
      by (simp add: t_def s3_def s2_def s1f fun_eq_iff restore_sstatus_def)
    show "csrs t = csrs s"
      by (simp add: t_def restore_sstatus_def s3_def write_csr_def)
    show "\<forall>i. i \<noteq> 3 \<longrightarrow> pt t i = pt s i"
      by (simp add: t_def s3_def s2_def s1_def restore_sstatus_def)
    show "user_mapping t = (user_mapping s)(k := freelist_nodes s ?n)"
      "freelist_nodes t = freelist_nodes s" "tohost_log t = tohost_log s" "kernel_pages t = kernel_pages s"
      "freelist_head t = Some (FreeNode (Suc ?n))"
      "freelist_tail t = (if Suc ?n < 62 then Some (FreeNode 62) else None)"
      by (simp_all add: t_def s3_def s2_def s1f restore_sstatus_def)
  qed (use inv k p m ker in \<open>simp_all add: t_def restore_sstatus_def pm\<close>)
  moreover have "fault_on_unmapped busy ?a s = Some (Inr ((), t))"
  proof -
    have e: "pte_of (home_addr p) 0x1F OR PTE_A OR PTE_D = pte_of (home_addr p) 0xDF"
      by (simp add: pte_of_or or.assoc [symmetric] PTE_A_def PTE_D_def)
    have k': "page_of ?a = k" using k by simp
    have cp: "lift_opt (copy_from_home ?a) s3 = Some (Inr ((), s3\<lparr>pmem := m\<rparr>))"
      by (simp add: lift_opt_def m(1))
    show ?thesis
      unfolding fault_on_unmapped_def Let_def pop_head(1) [OF inv room] k' option.case
      by (simp add: p(3) e s1_def [symmetric] s1f fr s2_def [symmetric] s3 bnd_Inr [of "lift_opt (copy_from_home ?a)", OF cp] modify_def t_def make_pte_of)
  qed
  ultimately show ?thesis by blast
qed

subsection \<open>handle_fault\<close>

text \<open>How far page \<open>k\<close> is: not mapped, mapped, accessed, dirty.\<close>

definition level :: "vm \<Rightarrow> nat \<Rightarrow> nat" where
  "level s k = (let pte = user_l3pt s k in
     if pte = 0 then 0 else if pte AND PTE_A = 0 then 1 else if pte AND PTE_D = 0 then 2 else 3)"

lemma level_mapped:
  assumes "paging_inv s" "k \<in> pages s"
  shows "\<exists>f\<in>{0x1F, 0x5F, 0xDF}. user_l3pt s k = pte_of (frame s k) f \<and>
    level s k = (if f = 0x1F then 1 else if f = 0x5F then 2 else 3)"
proof -
  obtain p f where f: "f \<in> {0x1F, 0x5F, 0xDF}" "frame s k = home_addr p" "maps_to s k p f"
    using mapped_page [OF assms] by auto
  then have e: "user_l3pt s k = pte_of (frame s k) f" by (simp add: maps_to_def)
  moreover have "user_l3pt s k \<noteq> 0" using assms(2) by (simp add: pages_def)
  ultimately have "level s k = (if f = 0x1F then 1 else if f = 0x5F then 2 else 3)"
    using f(1) flag_tests [OF f(1), of "frame s k"] by (auto simp: level_def Let_def)
  with e f(1) show ?thesis by blast
qed

lemma level_0_iff: "level s k = 0 \<longleftrightarrow> k \<notin> pages s"
  by (simp add: level_def Let_def pages_def)

lemma fault_on_mapped_raises:
  assumes inv: "paging_inv s" and k: "k \<in> pages s" "k < 512"
    and c: "level s k \<noteq> 3" "level s k = 2 \<Longrightarrow> c = CAUSE_STORE_PAGE_FAULT"
  shows "\<exists>t. fault_on_mapped busy (page_addr k) c s = Some (Inr ((), t)) \<and> paging_inv t \<and>
    user_byte t = user_byte s \<and> level t = (level s)(k := Suc (level s k)) \<and>
    (\<forall>i. i \<noteq> 3 \<longrightarrow> pt t i = pt s i) \<and> csrs t = csrs s \<and> tohost_log t = tohost_log s \<and>
    kernel_pages t = kernel_pages s"
proof -
  obtain f where f: "f \<in> {0x1F, 0x5F, 0xDF}" "user_l3pt s k = pte_of (frame s k) f"
    "level s k = (if f = 0x1F then 1 else if f = 0x5F then 2 else 3)"
    using level_mapped [OF inv k(1)] by blast
  define g :: u64 where "g = (if f = 0x1F then 0x5F else 0xDF)"
  let ?t = "flush_page (page_addr k) (set_user_pte k (pte_of (frame s k) g) s)"
  have g: "g \<in> {0x1F, 0x5F, 0xDF}" "f \<noteq> 0xDF" using c f(1,3) by (auto simp: g_def)
  have D: "user_l3pt s k AND PTE_D = 0" using flag_tests [OF f(1), of "frame s k"] f(2) g(2) by simp
  note t = set_flags_inv [OF inv k(1) g(1), of "page_addr k"]
  have "fault_on_mapped busy (page_addr k) c s = Some (Inr ((), ?t))"
    using f c g(2) flag_tests [OF f(1), of "frame s k"] k(2)
    by (auto simp: fault_on_mapped_def Let_def g_def modify_def pte_of_or PTE_A_def PTE_D_def)
  moreover have "level ?t j = ((level s)(k := Suc (level s k))) j" for j
    using f c g(2) pte_of_nonzero [OF g(1), of "frame s k"] flag_tests [OF g(1), of "frame s k"]
    by (auto simp: level_def Let_def g_def split: if_splits)
  ultimately show ?thesis using t D by (intro exI [of _ ?t]) (simp add: fun_eq_iff)
qed

lemma fault_on_unmapped_raises:
  assumes inv: "paging_inv s" and k: "k \<notin> pages s" "1 \<le> k" "k < 63" and "k \<notin> set (kernel_pages s)"
  shows "\<exists>t. fault_on_unmapped busy (page_addr k) s = Some (Inr ((), t)) \<and> paging_inv t \<and>
    (\<forall>j i. 1 \<le> j \<longrightarrow> j < 63 \<longrightarrow> i < 4096 \<longrightarrow> user_byte t j i = user_byte s j i) \<and>
    level t = (level s)(k := Suc (level s k)) \<and> (\<forall>i. i \<noteq> 3 \<longrightarrow> pt t i = pt s i) \<and>
    csrs t = csrs s \<and> tohost_log t = tohost_log s \<and> kernel_pages t = kernel_pages s"
proof -
  obtain t p where t: "fault_on_unmapped busy (page_addr k) s = Some (Inr ((), t))" "maps_page s k p t"
    using fault_on_unmapped_maps [OF assms] by blast
  have "level t j = ((level s)(k := Suc (level s k))) j" for j
    using t(2) k(1) pte_of_nonzero [of 31 "home_addr p"] flag_tests [of 31 "home_addr p"]
    by (auto simp: level_def Let_def maps_page_def pages_def)
  then show ?thesis
    using t map_page_inv [OF t(2)] map_page_bytes [OF t(2)] by (auto simp: fun_eq_iff maps_page_def)
qed

text \<open>The accesses that fault, and the cause each reports.\<close>

definition faults :: "vm \<Rightarrow> nat \<Rightarrow> u64 \<Rightarrow> bool" where
  "faults s k c \<longleftrightarrow> c \<in> {CAUSE_FETCH_PAGE_FAULT, CAUSE_LOAD_PAGE_FAULT, CAUSE_STORE_PAGE_FAULT} \<and>
     level s k < (if c = CAUSE_STORE_PAGE_FAULT then 3 else 2)"

lemma handle_fault_raises:
  assumes inv: "paging_inv s" and a: "in_test_range a" and ker: "page_of a \<notin> set (kernel_pages s)"
    and c: "faults s (page_of a) c"
  shows "\<exists>t. handle_fault busy a c s = Some (Inr ((), t)) \<and> paging_inv t \<and>
    (\<forall>j i. 1 \<le> j \<longrightarrow> j < 63 \<longrightarrow> i < 4096 \<longrightarrow> user_byte t j i = user_byte s j i) \<and>
    level t = (level s)(page_of a := Suc (level s (page_of a))) \<and>
    (\<forall>i. i \<noteq> 3 \<longrightarrow> pt t i = pt s i) \<and> csrs t = csrs s \<and> tohost_log t = tohost_log s \<and>
    kernel_pages t = kernel_pages s"
proof -
  let ?k = "page_of a"
  have k: "1 \<le> ?k" "?k < 63" and e: "a div PGSIZE * PGSIZE = page_addr ?k"
    using test_range_page [OF a] by auto
  have h: "handle_fault busy a c s =
      (if ?k \<in> pages s then fault_on_mapped busy (page_addr ?k) c s
       else fault_on_unmapped busy (page_addr ?k) s)"
    using k by (simp add: handle_fault_def a Let_def e pages_def del: sizes)
  show ?thesis
  proof (cases "?k \<in> pages s")
    case True
    have "level s ?k \<noteq> 3" "level s ?k = 2 \<Longrightarrow> c = CAUSE_STORE_PAGE_FAULT"
      using c by (auto simp: faults_def split: if_splits)
    moreover have "?k < 512" using k by simp
    ultimately obtain t where "fault_on_mapped busy (page_addr ?k) c s = Some (Inr ((), t))" "paging_inv t"
      "user_byte t = user_byte s" "level t = (level s)(?k := Suc (level s ?k))"
      "\<forall>i. i \<noteq> 3 \<longrightarrow> pt t i = pt s i" "csrs t = csrs s" "tohost_log t = tohost_log s" "kernel_pages t = kernel_pages s"
      using fault_on_mapped_raises [OF inv True, of c busy] by blast
    with True show ?thesis by (auto simp: h)
  next
    case False
    with fault_on_unmapped_raises [OF inv False k ker] show ?thesis by (simp add: h)
  qed
qed

subsection \<open>evict\<close>

text \<open>
  What the shutdown loop relies on, and keeps: a page whose node still records a frame is mapped
  to that frame, was accessed, and equals its home if it is not dirty.
\<close>

definition page_synced :: "vm \<Rightarrow> nat \<Rightarrow> bool" where
  "page_synced s k \<longleftrightarrow> (\<forall>i<4096. pmem s (frame s k + of_nat i) = pmem s (home_addr k + of_nat i))"

definition evict_ok :: "vm \<Rightarrow> bool" where
  "evict_ok s \<longleftrightarrow> inj_on (frame s) {k. k < 63 \<and> frame s k \<noteq> 0} \<and>
     (\<forall>k<63. frame s k \<noteq> 0 \<longrightarrow>
       (\<exists>p f. 64 \<le> p \<and> p < 127 \<and> frame s k = home_addr p \<and> maps_to s k p f \<and>
          (f = 0xDF \<or> f = 0x5F \<and> page_synced s k) \<and>
          p \<notin> set (kernel_pages s) \<and> k \<notin> set (kernel_pages s)))"

lemma write_node_simps [simp]:
  "pt (write_node t n s) = pt s" "kernel_pages (write_node t n s) = kernel_pages s" "pmem (write_node t n s) = pmem s" "csrs (write_node t n s) = csrs s"
  "tohost_log (write_node t n s) = tohost_log s" "freelist_head (write_node t n s) = freelist_head s"
  by (cases t; simp)+

lemma write_next_addr [simp]:
  "frame (write_node t ((deref s t)\<lparr>node_next := x\<rparr>) s) j = frame s j"
  by (cases t) simp_all

lemma enqueue_simps [simp]:
  "frame (enqueue_node n s) j = frame s j" "pt (enqueue_node n s) = pt s" "kernel_pages (enqueue_node n s) = kernel_pages s"
  "pmem (enqueue_node n s) = pmem s" "csrs (enqueue_node n s) = csrs s"
  "tohost_log (enqueue_node n s) = tohost_log s" "freelist_tail (enqueue_node n s) = Some n"
  "freelist_head (enqueue_node n s) = (if freelist_tail s = None then Some n else freelist_head s)"
  by (simp_all add: enqueue_node_def split: option.splits)

lemma release_simps [simp]:
  "frame (release_page k s) j = (if j = k then 0 else frame s j)" "pt (release_page k s) = pt s"
  "kernel_pages (release_page k s) = kernel_pages s"
  "pmem (release_page k s) = pmem s" "csrs (release_page k s) = csrs s"
  "tohost_log (release_page k s) = tohost_log s"
  "freelist_head (release_page k s) = freelist_head s" "freelist_tail (release_page k s) = freelist_tail s"
  by (auto simp: release_page_def)

lemma restore_simps [simp]:
  "kernel_pages (restore_sstatus v s) = kernel_pages s"
  "user_mapping (restore_sstatus v s) = user_mapping s" "pt (restore_sstatus v s) = pt s"
  "pmem (restore_sstatus v s) = pmem s" "tohost_log (restore_sstatus v s) = tohost_log s"
  "csrs (restore_sstatus v s) = (csrs s)(''sstatus'' := v)"
  "freelist_head (restore_sstatus v s) = freelist_head s" "freelist_tail (restore_sstatus v s) = freelist_tail s"
  by (auto simp: restore_sstatus_def write_csr_def)

lemma memcmp_home:
  assumes "maps_to s k p f"
  shows "\<exists>r. memcmp (va_to_pa s) (pmem s) (page_addr k) (uva2kva (page_addr k)) PGSIZE = Some r \<and>
    (r = 0 \<longleftrightarrow> (\<forall>i<4096. pmem s (home_addr p + of_nat i) = pmem s (home_addr k + of_nat i)))"
proof -
  have k: "k < 512" using assms by (simp add: maps_to_def)
  have "unat (page_addr k) + unat (PGSIZE :: u64) < 2 ^ 64" using k by simp
  from memcmp_ref [OF this] show ?thesis
    using k by (auto simp: memcmp_bytes_eq_0 load8_def maps_to_pa [OF assms] va_to_pa_home)
qed

text \<open>The comparison and the copy leave the frame equal to the home page, whatever it held.\<close>

lemma evict_sync_copies:
  assumes m: "maps_to s k p f" "p \<noteq> k"
    and ker: "sum_set s" "p \<notin> set (kernel_pages s)" "k \<notin> set (kernel_pages s)"
    and f: "f = 0xDF \<or> f = 0x5F"
    and sync: "f = 0xDF \<or> (\<forall>i<4096. pmem s (home_addr p + of_nat i) = pmem s (home_addr k + of_nat i))"
  shows "\<exists>m. evict_sync busy (page_addr k) s = Some (Inr ((), s\<lparr>pmem := m\<rparr>)) \<and>
    (\<forall>i<4096. m (home_addr p + of_nat i) = pmem s (home_addr k + of_nat i)) \<and>
    (\<forall>x. x \<notin> span (home_addr p) 4096 \<longrightarrow> m x = pmem s x)"
proof -
  have k: "page_of (page_addr k) = k" and k': "k < 512" using m(1) by (simp_all add: maps_to_def)
  have access: "supervisor_access s load_needs (page_addr k)" "supervisor_access s load_needs (uva2kva (page_addr k))"
    using supervisor_access_user [OF m(1) _ _ ker(1,2)] supervisor_access_home [OF k' ker(3)] f
    by (auto simp: load_needs_def model_defs)
  obtain r where r: "memcmp (va_to_pa s) (pmem s) (page_addr k) (uva2kva (page_addr k)) PGSIZE = Some r"
    "r = 0 \<longleftrightarrow> (\<forall>i<4096. pmem s (home_addr p + of_nat i) = pmem s (home_addr k + of_nat i))"
    using memcmp_home [OF m(1)] by blast
  show ?thesis
  proof (cases "r = 0")
    case True
    then show ?thesis
      using r by (intro exI [of _ "pmem s"]) (simp add: evict_sync_def access)
  next
    case False
    then have D: "f = 0xDF" using sync r(2) by blast
    then have "user_l3pt s k AND PTE_D \<noteq> 0"
      using m(1) by (simp add: maps_to_def flag_tests)
    obtain m' where "copy_from_home (page_addr k) s = Some (s\<lparr>pmem := m'\<rparr>)"
      "\<forall>i<4096. m' (home_addr p + of_nat i) = pmem s (home_addr k + of_nat i)"
      "\<forall>x. x \<notin> span (home_addr p) 4096 \<longrightarrow> m' x = pmem s x"
      using copy_from_home_copies [OF m D ker] by blast
    then show ?thesis
      using False r(1) \<open>user_l3pt s k AND PTE_D \<noteq> 0\<close> by (auto simp: evict_sync_def access k lift_opt_def)
  qed
qed

definition evicted :: "nat \<Rightarrow> vm \<Rightarrow> vm \<Rightarrow> bool" where
  "evicted k s t \<longleftrightarrow> pt t = pt s \<and> (\<forall>j. frame t j = (if j = k then 0 else frame s j)) \<and>
     (frame s k \<noteq> 0 \<longrightarrow> (\<forall>i<4096. pmem t (frame s k + of_nat i) = pmem s (home_addr k + of_nat i))) \<and>
     (\<forall>x. (frame s k = 0 \<or> x \<notin> span (frame s k) 4096) \<longrightarrow> pmem t x = pmem s x) \<and>
     (frame s k \<noteq> 0 \<longrightarrow> freelist_tail t = Some (UserMap k) \<and>
        freelist_head t = (if freelist_tail s = None then Some (UserMap k) else freelist_head s)) \<and>
     csrs t = csrs s \<and> tohost_log t = tohost_log s \<and> kernel_pages t = kernel_pages s"

lemma evict_evicts:
  assumes inv: "evict_ok s" and k: "1 \<le> k" "k < 63"
  shows "\<exists>t. evict busy (of_nat k * PGSIZE) s = Some (Inr ((), t)) \<and> evicted k s t"
proof -
  have pa: "of_nat k * PGSIZE = page_addr k" by (simp only: page_addr_def)
  have a: "in_test_range (page_addr k)" "page_addr k div PGSIZE * PGSIZE = page_addr k" "page_of (page_addr k) = k"
    using k by (simp_all add: page_addr_in_range)
  show ?thesis
  proof (cases "frame s k = 0")
    case True
    then have "evict busy (page_addr k) s = Some (Inr ((), s))"
      using a by (simp add: evict_def Let_def del: sizes)
    with True show ?thesis unfolding pa by (intro exI [of _ s]) (auto simp: evicted_def)
  next
    case False
    then obtain p f where p: "64 \<le> p" "p < 127" "frame s k = home_addr p" "maps_to s k p f"
      "f = 0xDF \<or> f = 0x5F \<and> page_synced s k" and ker: "p \<notin> set (kernel_pages s)" "k \<notin> set (kernel_pages s)"
      using inv k by (auto simp: evict_ok_def)
    have A: "user_l3pt s k AND PTE_A \<noteq> 0"
      using p(4,5) by (auto simp: maps_to_def flag_tests)
    define s1 where "s1 = s\<lparr>csrs := (csrs s)(''sstatus'' := csrs s ''sstatus'' OR SSTATUS_SUM)\<rparr>"
    have s1: "set_sum s = (csrs s ''sstatus'', s1)" by (simp add: set_sum_eq s1_def)
    have s1f: "pt s1 = pt s" "pmem s1 = pmem s" "user_mapping s1 = user_mapping s" "tohost_log s1 = tohost_log s"
      "kernel_pages s1 = kernel_pages s" "sum_set s1"
      by (simp_all add: s1_def sum_is_set)
    have m: "maps_to s1 k p f" using p(4) by (simp add: maps_to_def s1f)
    obtain m' where m': "evict_sync busy (page_addr k) s1 = Some (Inr ((), s1\<lparr>pmem := m'\<rparr>))"
      "\<forall>i<4096. m' (home_addr p + of_nat i) = pmem s (home_addr k + of_nat i)"
      "\<forall>x. x \<notin> span (home_addr p) 4096 \<longrightarrow> m' x = pmem s x"
      using evict_sync_copies [OF m, of busy] p k ker by (auto simp: s1f page_synced_def)
    let ?t = "enqueue_node (UserMap k) (release_page k (restore_sstatus (csrs s ''sstatus'') (s1\<lparr>pmem := m'\<rparr>)))"
    have "evict busy (page_addr k) s = Some (Inr ((), ?t))"
      using a False A
      by (simp add: evict_def Let_def s1 bnd_Inr [of "evict_sync busy (page_addr k)", OF m'(1)] modify_def del: sizes)
    moreover have "evicted k s ?t"
      using m' p(3) False by (simp add: evicted_def s1f) (auto simp: s1_def)
    ultimately show ?thesis unfolding pa by blast
  qed
qed

lemma evicted_keeps_ok:
  assumes inv: "evict_ok s" and k: "k < 63" and e: "evicted k s t"
  shows "evict_ok t"
  unfolding evict_ok_def
proof (intro conjI allI impI)
  have fr: "frame t j = (if j = k then 0 else frame s j)" and pt: "pt t = pt s" and kp: "kernel_pages t = kernel_pages s" for j
    using e by (simp_all add: evicted_def)
  have inj: "inj_on (frame s) {j. j < 63 \<and> frame s j \<noteq> 0}" using inv by (simp add: evict_ok_def)
  then show "inj_on (frame t) {j. j < 63 \<and> frame t j \<noteq> 0}"
    by (auto simp: fr inj_on_def)
  fix j
  assume j: "j < 63" "frame t j \<noteq> 0"
  then have jk: "j \<noteq> k" "frame s j \<noteq> 0" unfolding fr by (auto split: if_splits)
  then obtain p f where p: "64 \<le> p" "p < 127" "frame s j = home_addr p" "maps_to s j p f"
    "f = 0xDF \<or> f = 0x5F \<and> page_synced s j" "p \<notin> set (kernel_pages s)" "j \<notin> set (kernel_pages s)"
    using inv j by (auto simp: evict_ok_def)
  have "page_synced t j" if sync: "page_synced s j"
  proof -
    have "pmem t (home_addr q + of_nat i) = pmem s (home_addr q + of_nat i)" if "q = p \<or> q = j" "i < 4096" for q i
    proof (cases "frame s k = 0")
      case True
      with e show ?thesis by (simp add: evicted_def)
    next
      case False
      then obtain r where r: "64 \<le> r" "r < 127" "frame s k = home_addr r"
        using inv k by (auto simp: evict_ok_def)
      have "p \<noteq> r" using inj jk j k False r p(3) by (auto simp: inj_on_def)
      with that r j p(2) have "q \<noteq> r" "q < 512" by auto
      with r other_page [of r q i] \<open>i < 4096\<close> e show ?thesis by (simp add: evicted_def)
    qed
    then show ?thesis using sync p(3) jk by (simp add: page_synced_def fr)
  qed
  with p jk show "\<exists>p f. 64 \<le> p \<and> p < 127 \<and> frame t j = home_addr p \<and> maps_to t j p f \<and>
      (f = 0xDF \<or> f = 0x5F \<and> page_synced t j) \<and> p \<notin> set (kernel_pages t) \<and> j \<notin> set (kernel_pages t)"
    by (intro exI [of _ p] exI [of _ f]) (auto simp: fr maps_to_def pt kp)
qed

lemma evict_list_evicts:
  "evict_ok s \<Longrightarrow> set ks \<subseteq> {1..<63} \<Longrightarrow>
   \<exists>t. evict_list busy ks s = Some (Inr ((), t)) \<and> evict_ok t \<and> tohost_log t = tohost_log s \<and>
     csrs t = csrs s \<and> (\<forall>j. frame t j = (if j \<in> set ks then 0 else frame s j))"
proof (induction ks arbitrary: s)
  case Nil
  then show ?case by (intro exI [of _ s]) simp
next
  case (Cons k ks)
  then have k: "1 \<le> k" "k < 63" by auto
  obtain u where u: "evict busy (of_nat k * PGSIZE) s = Some (Inr ((), u))" "evicted k s u"
    using evict_evicts [OF Cons.prems(1) k] by blast
  have "evict_ok u" using evicted_keeps_ok [OF Cons.prems(1) k(2) u(2)] .
  then obtain t where t: "evict_list busy ks u = Some (Inr ((), t))" "evict_ok t"
    "tohost_log t = tohost_log u" "csrs t = csrs u" "\<forall>j. frame t j = (if j \<in> set ks then 0 else frame u j)"
    using Cons.IH [of u] Cons.prems(2) by auto
  then show ?case
    using u(2)
    by (intro exI [of _ t])
      (simp add: evicted_def bnd_Inr [of "evict busy (of_nat k * PGSIZE)", OF u(1)] del: sizes)
qed

text \<open>Between two instructions of the user program every mapped page has been accessed.\<close>

definition settled :: "vm \<Rightarrow> bool" where
  "settled s \<longleftrightarrow> (\<forall>k\<in>pages s. 2 \<le> level s k)"

lemma settled_evict_ok:
  assumes inv: "paging_inv s" and st: "settled s"
  shows "evict_ok s"
  unfolding evict_ok_def
proof (intro conjI allI impI)
  have m: "mapping_ok s" using inv by (simp add: paging_inv_def)
  then have mapped: "k \<in> pages s" if "frame s k \<noteq> 0" for k
    using that by (auto simp: mapping_ok_def)
  then show "inj_on (frame s) {k. k < 63 \<and> frame s k \<noteq> 0}"
    using m by (auto simp: mapping_ok_def intro: inj_on_subset)
  fix k
  assume "k < 63" "frame s k \<noteq> 0"
  then have k: "k \<in> pages s" using mapped by blast
  obtain p f where p: "64 \<le> p" "p < 127" "frame s k = home_addr p" "f \<in> {0x1F, 0x5F, 0xDF}" "maps_to s k p f"
    using mapped_page [OF inv k] by blast
  have "f \<noteq> 0x1F"
  proof
    assume "f = 0x1F"
    with p(5) have "user_l3pt s k AND PTE_A = 0" by (simp add: maps_to_def flag_tests)
    then have "level s k \<le> 1" by (simp add: level_def Let_def)
    with st k show False by (force simp: settled_def)
  qed
  moreover have "page_synced s k" if "f = 0x5F"
    using inv k that p(5) by (auto simp: paging_inv_def clean_ok_def page_synced_def maps_to_def flag_tests)
  moreover have "p \<notin> set (kernel_pages s)" "k \<notin> set (kernel_pages s)"
    using inv k p(1,2) by (auto simp: paging_inv_def apart_ok_def)
  ultimately show "\<exists>p f. 64 \<le> p \<and> p < 127 \<and> frame s k = home_addr p \<and> maps_to s k p f \<and>
      (f = 0xDF \<or> f = 0x5F \<and> page_synced s k) \<and> p \<notin> set (kernel_pages s) \<and> k \<notin> set (kernel_pages s)"
    using p by auto
qed

subsection \<open>handle_trap\<close>

lemma ecall_exits:
  assumes "paging_inv s" "settled s" "host_live busy" "cause tf = CAUSE_USER_ECALL"
  shows "\<exists>t. handle_trap busy fssr tf s = Some (Inl (ucast (gpr tf 10), t)) \<and>
    tohost_log t = tohost_log s @ [scast (ucast (gpr tf 10) :: u32)]"
proof -
  have "evict_ok s" using assms(1,2) by (rule settled_evict_ok)
  moreover have "set [1..<MAX_TEST_PAGES] \<subseteq> {1..<63}" by (auto simp: MAX_TEST_PAGES_def)
  ultimately obtain u where u: "evict_list busy [1..<MAX_TEST_PAGES] s = Some (Inr ((), u))"
    "tohost_log u = tohost_log s" using evict_list_evicts by blast
  have "\<exists>t. terminate busy (ucast (gpr tf 10)) u = (Some (Inl (ucast (gpr tf 10), t)) :: trapframe_t run) \<and>
      tohost_log t = tohost_log u @ [scast (ucast (gpr tf 10) :: u32)]"
    using terminate_live [OF assms(3), of "ucast (gpr tf 10)" u] by force
  then show ?thesis
    using u by (simp add: handle_trap_def assms(4) bnd_def)
qed

lemma page_fault_resumes:
  assumes "paging_inv s" "in_test_range (badvaddr tf)" "page_of (badvaddr tf) \<notin> set (kernel_pages s)"
    "faults s (page_of (badvaddr tf)) (cause tf)"
  shows "\<exists>t. handle_trap busy fssr tf s = Some (Inr (tf, t)) \<and> paging_inv t \<and>
    (\<forall>j i. 1 \<le> j \<longrightarrow> j < 63 \<longrightarrow> i < 4096 \<longrightarrow> user_byte t j i = user_byte s j i) \<and>
    level t = (level s)(page_of (badvaddr tf) := Suc (level s (page_of (badvaddr tf)))) \<and>
    (\<forall>i. i \<noteq> 3 \<longrightarrow> pt t i = pt s i) \<and> csrs t = csrs s \<and> tohost_log t = tohost_log s \<and>
    kernel_pages t = kernel_pages s"
proof -
  obtain t where t: "handle_fault busy (badvaddr tf) (cause tf) s = Some (Inr ((), t))" "paging_inv t"
    "\<forall>j i. 1 \<le> j \<longrightarrow> j < 63 \<longrightarrow> i < 4096 \<longrightarrow> user_byte t j i = user_byte s j i"
    "level t = (level s)(page_of (badvaddr tf) := Suc (level s (page_of (badvaddr tf))))"
    "\<forall>i. i \<noteq> 3 \<longrightarrow> pt t i = pt s i" "csrs t = csrs s" "tohost_log t = tohost_log s" "kernel_pages t = kernel_pages s"
    using handle_fault_raises [OF assms] by blast
  have "cause tf = CAUSE_FETCH_PAGE_FAULT \<or> cause tf = CAUSE_LOAD_PAGE_FAULT \<or> cause tf = CAUSE_STORE_PAGE_FAULT"
    using assms(4) by (auto simp: faults_def)
  then have "handle_trap busy fssr tf s = Some (Inr (tf, t))"
    using t(1) by (auto simp: handle_trap_def model_defs bnd_def)
  with t show ?thesis by blast
qed

lemma assert_false_ends:
  assumes "host_live busy"
  shows "\<exists>t. bnd (assert_c busy msg False) g s = Some (Inl (3, t))"
proof -
  obtain u where "cputstring busy (c_string (''Assertion failed: '' @ msg @ ''\<newline>'')) s = Some u"
    using cputstring_live [OF assms] by blast
  moreover obtain t where "terminate busy 3 u = (Some (Inl (3, t)) :: unit run)"
    using terminate_live [OF assms, of 3 u] by blast
  ultimately show ?thesis by (simp add: assert_c_def bnd_def)
qed

lemma illegal_ends:
  assumes live: "host_live busy" and c: "cause tf \<notin> {CAUSE_FETCH_PAGE_FAULT, CAUSE_LOAD_PAGE_FAULT,
    CAUSE_STORE_PAGE_FAULT, CAUSE_USER_ECALL}"
  shows "\<exists>t. handle_trap busy fssr tf s = Some (Inl (
    if cause tf = CAUSE_ILLEGAL_INSTRUCTION \<and> epc tf mod 4 = 0 \<and>
      (ucast (load_le (va_to_pa s) (pmem s) (epc tf) 4) :: u32) = fssr then 1 else 3, t))"
proof (cases "cause tf = CAUSE_ILLEGAL_INSTRUCTION")
  case True
  have "\<exists>t. terminate busy 1 s = (Some (Inl (1, t)) :: trapframe_t run)"
    using terminate_live [OF live] by blast
  moreover have "CAUSE_ILLEGAL_INSTRUCTION \<noteq> CAUSE_USER_ECALL" by (simp add: model_defs)
  ultimately show ?thesis
    by (cases "epc tf mod 4 = 0")
      (simp_all add: handle_trap_def True handle_illegal_def assert_false_ends [OF live])
next
  case False
  then show ?thesis using c by (simp add: handle_trap_def assert_false_ends [OF live])
qed

end
