(* ===== verification/VM_Boot.thy ===== *)
theory VM_Boot
  imports VM_Paging
begin

section \<open>vm_boot\<close>

text \<open>
  \<open>vm_boot\<close> of vm.c: page tables, control registers, the shuffled free list, and the trap
  frame with which the user program starts. The state before it is the loaded image: the
  globals are in .bss and so 0, memory holds the program. What the linker and the reset code
  choose are arguments.
\<close>

record image =
  pt_base :: addr
  data_pages :: "nat list"
  trap_entry :: addr
  pmp_label :: addr
  mhartid :: u64
  mscratch :: u64
  entropy :: u32

text \<open>\<open>data_pages\<close>: the DRAM pages that the linker gives to the globals and the stack of the kernel.\<close>

definition vm_init :: "nat list \<Rightarrow> pmem \<Rightarrow> csr_file \<Rightarrow> vm" where
  "vm_init ps m f = \<lparr>pt = \<lambda>_ _. 0, user_mapping = \<lambda>_. \<lparr>node_addr = 0, node_next = None\<rparr>,
     freelist_nodes = \<lambda>_. \<lparr>node_addr = 0, node_next = None\<rparr>, freelist_head = None,
     freelist_tail = None, pmem = m, csrs = f, fromhost = 0, tohost_log = [], polls = 0, flushed = [],
     kernel_pages = ps\<rparr>"

subsection \<open>Page tables\<close>

definition pt_addr :: "image \<Rightarrow> nat \<Rightarrow> addr" where
  "pt_addr im i = pt_base im + of_nat i * PGSIZE"

definition set_pte :: "nat \<Rightarrow> nat \<Rightarrow> u64 \<Rightarrow> vm \<Rightarrow> vm" where
  "set_pte t k v s = s\<lparr>pt := (pt s)(t := (pt s t)(k := v))\<rparr>"

definition table_pte :: "addr \<Rightarrow> u64" where
  "table_pte a = push_bit PTE_PPN_SHIFT (drop_bit PGSHIFT a) OR PTE_V"

definition boot_tables :: "image \<Rightarrow> vm \<Rightarrow> vm" where
  "boot_tables im s =
     (let last_pte = unat (PTES_PER_PT - 1);
          s = set_pte 0 0 (table_pte (pt_addr im 1)) s;
          s = set_pte 0 last_pte (table_pte (pt_addr im 2)) s;
          s = set_pte 2 last_pte (push_bit PTE_PPN_SHIFT (DRAM_BASE div RISCV_PGSIZE) OR
                PTE_V OR PTE_R OR PTE_W OR PTE_X OR PTE_A OR PTE_D) s
      in set_pte 1 0 (table_pte (pt_addr im 3)) s)"

subsection \<open>Control registers\<close>

definition set_csr_to :: "string \<Rightarrow> u64 \<Rightarrow> vm \<Rightarrow> vm" where
  "set_csr_to r v s = s\<lparr>csrs := write_csr (csrs s) r v\<rparr>"

text \<open>
  The inline assembly under the comment about PMPs swaps \<open>mtvec\<close> with the address of its label;
  its two operands \<open>pmpc\<close> and \<open>pmpa\<close> are computed and not used.
\<close>

definition boot_csrs :: "image \<Rightarrow> vm \<Rightarrow> vm" where
  "boot_csrs im s =
     (let vm_choice = SATP_MODE_SV39;
          s = set_csr_to ''sptbr'' (drop_bit PGSHIFT (pt_addr im 0) OR
                vm_choice * (SATP_MODE AND NOT (push_bit 1 SATP_MODE))) s;
          pmpc = PMP_NAPOT OR PMP_R OR PMP_W OR PMP_X;
          pmpa = push_bit 53 (1 :: u64) - 1;
          s = s\<lparr>csrs := snd (swap_csr (csrs s) ''mtvec'' (pmp_label im))\<rparr>;
          s = set_csr_to ''stvec'' (pa2kva (trap_entry im)) s;
          s = set_csr_to ''sscratch'' (pa2kva (mscratch im)) s;
          s = set_csr_to ''medeleg''
                (push_bit (unat CAUSE_USER_ECALL) 1 OR push_bit (unat CAUSE_FETCH_PAGE_FAULT) 1 OR
                 push_bit (unat CAUSE_LOAD_PAGE_FAULT) 1 OR push_bit (unat CAUSE_STORE_PAGE_FAULT) 1) s;
          s = set_csr_to ''mstatus'' (MSTATUS_FS OR MSTATUS_XS) s
      in set_csr_to ''mie'' 0 s)"

subsection \<open>The free list\<close>

text \<open>The \<open>for\<close> loop from \<open>i\<close> on, with \<open>n\<close> iterations left.\<close>

fun boot_freelist_loop :: "nat \<Rightarrow> nat \<Rightarrow> u32 \<Rightarrow> vm \<Rightarrow> vm" where
  "boot_freelist_loop 0 i random s = s"
| "boot_freelist_loop (Suc n) i random s =
     boot_freelist_loop n (Suc i) (LFSR_NEXT random)
       (write_node (FreeNode i)
          \<lparr>node_addr = DRAM_BASE + ucast (of_nat MAX_TEST_PAGES + random) * PGSIZE,
           node_next = Some (FreeNode (Suc i))\<rparr> s)"

definition boot_freelist :: "u32 \<Rightarrow> vm \<Rightarrow> vm" where
  "boot_freelist random0 s =
     (let random = 1 + random0 mod of_nat MAX_TEST_PAGES;
          s = s\<lparr>freelist_head := Some (FreeNode 0),
                freelist_tail := Some (FreeNode (MAX_TEST_PAGES - 1))\<rparr>;
          s = boot_freelist_loop MAX_TEST_PAGES 0 random s;
          t = FreeNode (MAX_TEST_PAGES - 1)
      in write_node t ((deref s t)\<lparr>node_next := None\<rparr>) s)"

subsection \<open>The whole routine\<close>

definition boot_frame :: "addr \<Rightarrow> trapframe_t" where
  "boot_frame test_addr =
     (let tf = \<lparr>gpr = \<lambda>_. 0, sr = 0, epc = 0, badvaddr = 0, cause = 0\<rparr>
      in tf\<lparr>epc := test_addr - DRAM_BASE\<rparr>)"

text \<open>None: the hart runs \<open>coherence_torture\<close> and does not come back.\<close>

definition vm_boot :: "image \<Rightarrow> addr \<Rightarrow> vm \<Rightarrow> (trapframe_t \<times> vm) option" where
  "vm_boot im test_addr s =
     (if mhartid im > 0 then None
      else Some (boot_frame test_addr, boot_freelist (entropy im) (boot_csrs im (boot_tables im s))))"

subsection \<open>The free list it builds\<close>

lemma boot_freelist_loop_eq:
  "boot_freelist_loop n i r s = s\<lparr>freelist_nodes := \<lambda>j. if i \<le> j \<and> j < i + n
     then \<lparr>node_addr = DRAM_BASE + ucast (of_nat MAX_TEST_PAGES + (LFSR_NEXT ^^ (j - i)) r) * PGSIZE,
           node_next = Some (FreeNode (Suc j))\<rparr>
     else freelist_nodes s j\<rparr>"
proof (induction n arbitrary: i r s)
  case 0
  have "s = s\<lparr>freelist_nodes := \<lambda>j. freelist_nodes s j\<rparr>" by simp
  then show ?case by (simp add: not_le [symmetric])
next
  case (Suc n)
  have "(LFSR_NEXT ^^ (j - Suc i)) (LFSR_NEXT r) = (LFSR_NEXT ^^ (j - i)) r" if "Suc i \<le> j" for j
  proof -
    have "j - i = Suc (j - Suc i)" using that by simp
    then show ?thesis by (simp only: funpow_Suc_right comp_apply)
  qed
  then show ?case
    by (auto simp: Suc.IH fun_eq_iff intro!: arg_cong [of _ _ "\<lambda>f. s\<lparr>freelist_nodes := f\<rparr>"])
qed

lemma lfsr_states:
  assumes "r \<in> page_numbers"
  shows "inj_on (\<lambda>i. (LFSR_NEXT ^^ i) r) {..<63}" "i < 63 \<Longrightarrow> (LFSR_NEXT ^^ i) r \<in> page_numbers"
proof -
  have d: "distinct (map (\<lambda>i. (LFSR_NEXT ^^ i) r) [0..<63])"
    "set (map (\<lambda>i. (LFSR_NEXT ^^ i) r) [0..<63]) = page_numbers"
    using lfsr_permutes [OF assms] by (simp_all only: iterates_eq)
  then show "inj_on (\<lambda>i. (LFSR_NEXT ^^ i) r) {..<63}"
    by (simp add: distinct_map atLeast_upt lessThan_atLeast0)
  assume "i < 63"
  with d(2) show "(LFSR_NEXT ^^ i) r \<in> page_numbers" by force
qed

lemma frame_number:
  assumes "x \<in> page_numbers"
  shows "DRAM_BASE + ucast (of_nat MAX_TEST_PAGES + x) * PGSIZE = home_addr (63 + unat x)"
proof -
  have x: "unat x \<le> 63" using assms by (simp add: page_numbers_def)
  have "unat (of_nat MAX_TEST_PAGES + x) = 63 + unat x"
    using x by (simp add: MAX_TEST_PAGES_def unat_word_ariths)
  then have "(ucast (of_nat MAX_TEST_PAGES + x) :: u64) = of_nat (63 + unat x)"
    by (metis of_nat_unat)
  then show ?thesis by (simp only: home_addr_def page_addr_def)
qed

lemma start_in_range: "1 + e mod of_nat MAX_TEST_PAGES \<in> page_numbers"
proof -
  have "unat (e mod of_nat MAX_TEST_PAGES) = unat e mod 63"
    by (simp add: unat_mod MAX_TEST_PAGES_def)
  moreover have "unat e mod 63 < 63" by simp
  ultimately have "unat (1 + e mod of_nat MAX_TEST_PAGES) = 1 + unat e mod 63"
    by (simp add: unat_word_ariths)
  then show ?thesis by (simp add: page_numbers_def)
qed

lemma boot_freelist_nodes:
  fixes e :: u32
  defines "r \<equiv> 1 + e mod of_nat MAX_TEST_PAGES"
  shows "i < 63 \<Longrightarrow> freelist_nodes (boot_freelist e s) i =
      \<lparr>node_addr = home_addr (63 + unat ((LFSR_NEXT ^^ i) r)),
       node_next = if i < 62 then Some (FreeNode (Suc i)) else None\<rparr>"
    "freelist_head (boot_freelist e s) = Some (FreeNode 0)"
    "freelist_tail (boot_freelist e s) = Some (FreeNode 62)"
    "pt (boot_freelist e s) = pt s" "user_mapping (boot_freelist e s) = user_mapping s"
    "pmem (boot_freelist e s) = pmem s" "csrs (boot_freelist e s) = csrs s"
    "tohost_log (boot_freelist e s) = tohost_log s" "kernel_pages (boot_freelist e s) = kernel_pages s"
proof -
  have r: "r \<in> page_numbers" using start_in_range by (simp add: r_def)
  show "i < 63 \<Longrightarrow> freelist_nodes (boot_freelist e s) i =
      \<lparr>node_addr = home_addr (63 + unat ((LFSR_NEXT ^^ i) r)),
       node_next = if i < 62 then Some (FreeNode (Suc i)) else None\<rparr>"
    using frame_number [OF lfsr_states(2) [OF r]]
    by (auto simp: boot_freelist_def Let_def boot_freelist_loop_eq MAX_TEST_PAGES_def r_def)
qed (simp_all add: boot_freelist_def Let_def boot_freelist_loop_eq MAX_TEST_PAGES_def)

lemma boot_csrs_simps [simp]:
  "pt (boot_csrs im s) = pt s" "user_mapping (boot_csrs im s) = user_mapping s"
  "kernel_pages (boot_csrs im s) = kernel_pages s" "pmem (boot_csrs im s) = pmem s" "tohost_log (boot_csrs im s) = tohost_log s"
  by (simp_all add: boot_csrs_def Let_def set_csr_to_def)

lemma boot_tables_simps [simp]:
  "user_l3pt (boot_tables im s) = user_l3pt s" "user_mapping (boot_tables im s) = user_mapping s"
  "kernel_pages (boot_tables im s) = kernel_pages s" "pmem (boot_tables im s) = pmem s" "tohost_log (boot_tables im s) = tohost_log s"
  by (simp_all add: boot_tables_def Let_def set_pte_def)

definition boot_state :: "image \<Rightarrow> pmem \<Rightarrow> csr_file \<Rightarrow> vm" where
  "boot_state im m f = boot_freelist (entropy im) (boot_csrs im (boot_tables im (vm_init (data_pages im) m f)))"

text \<open>
  Where the linker may put the kernel's data: page tables in whole pages of it, and none of it
  among the frames.
\<close>

definition layout_ok :: "image \<Rightarrow> bool" where
  "layout_ok im \<longleftrightarrow> (\<forall>i<4. \<exists>p\<in>set (data_pages im). pt_addr im i = home_addr p) \<and>
     (\<forall>p\<in>set (data_pages im). \<not> (64 \<le> p \<and> p < 127))"

lemma boot_kernel_pages: "kernel_pages (boot_state im m f) = data_pages im"
  by (simp add: boot_state_def boot_freelist_nodes vm_init_def)

lemma boot_paging_inv:
  "layout_ok im \<Longrightarrow> paging_inv (boot_state im m f)" "pages (boot_state im m f) = {}"
  "pmem (boot_state im m f) = m" "tohost_log (boot_state im m f) = []"
proof -
  let ?s = "boot_state im m f" and ?r = "1 + entropy im mod of_nat MAX_TEST_PAGES"
  note b = boot_freelist_nodes
  have r: "?r \<in> page_numbers" by (rule start_in_range)
  show pg: "pages ?s = {}" by (simp add: pages_def boot_state_def b vm_init_def)
  show "pmem ?s = m" "tohost_log ?s = []" by (simp_all add: boot_state_def b vm_init_def)
  have n: "freelist_nodes ?s i = \<lparr>node_addr = home_addr (63 + unat ((LFSR_NEXT ^^ i) ?r)),
       node_next = if i < 62 then Some (FreeNode (Suc i)) else None\<rparr>" if "i < 63" for i
    using b(1) [OF that, of "entropy im"] by (simp only: boot_state_def)
  have u: "1 \<le> unat ((LFSR_NEXT ^^ i) ?r) \<and> unat ((LFSR_NEXT ^^ i) ?r) \<le> 63" if "i < 63" for i
    using lfsr_states(2) [OF r that] by (simp add: page_numbers_def)
  have "nodes_ok ?s"
    unfolding nodes_ok_def
  proof (intro conjI allI impI)
    show "inj_on (slot ?s) {..<63}"
    proof (rule inj_onI)
      fix i j
      assume ij: "i \<in> {..<63}" "j \<in> {..<63}" "slot ?s i = slot ?s j"
      then have "home_addr (63 + unat ((LFSR_NEXT ^^ i) ?r)) = home_addr (63 + unat ((LFSR_NEXT ^^ j) ?r))"
        using n [of i] n [of j] by simp
      then have "unat ((LFSR_NEXT ^^ i) ?r) = unat ((LFSR_NEXT ^^ j) ?r)"
        using home_addr_inj [of "63 + unat ((LFSR_NEXT ^^ i) ?r)" "63 + unat ((LFSR_NEXT ^^ j) ?r)"]
          u [of i] u [of j] ij(1,2) by simp
      then have "(LFSR_NEXT ^^ i) ?r = (LFSR_NEXT ^^ j) ?r" by (rule unat_eqI)
      from inj_onD [OF lfsr_states(1) [OF r] this ij(1,2)] show "i = j" .
    qed
    fix i :: nat
    assume i: "i < 63"
    show "\<exists>p. 64 \<le> p \<and> p < 127 \<and> slot ?s i = home_addr p"
      using u [OF i] by (intro exI [of _ "63 + unat ((LFSR_NEXT ^^ i) ?r)"]) (simp add: n [OF i])
    show "node_next (freelist_nodes ?s i) = (if i < 62 then Some (FreeNode (Suc i)) else None)"
      by (simp add: n [OF i])
  qed
  moreover have "list_ok ?s" by (simp add: list_ok_def pg) (simp add: boot_state_def b)
  moreover have "mapping_ok ?s" by (simp add: mapping_ok_def pg) (simp add: boot_state_def b vm_init_def)
  moreover have "clean_ok ?s" by (simp add: clean_ok_def pg)
  moreover assume "layout_ok im"
  then have "apart_ok ?s" by (simp add: apart_ok_def layout_ok_def pg boot_kernel_pages)
  ultimately show "paging_inv ?s" by (simp add: paging_inv_def)
qed

subsection \<open>The Sv39 walk\<close>

text \<open>
  The walk of the privileged architecture from the root table \<open>pt[0]\<close>: at level \<open>i\<close> (2, 1, 0)
  the entry is picked by nine bits of the address; an invalid entry, a pointer at level 0 or a
  misaligned superpage is a page fault. \<open>PTE_TABLE\<close> is the macro of encoding.h.
\<close>

definition vpn :: "nat \<Rightarrow> addr \<Rightarrow> nat" where
  "vpn i va = unat (take_bit RISCV_PGLEVEL_BITS (drop_bit (PGSHIFT + RISCV_PGLEVEL_BITS * i) va))"

definition table_at :: "image \<Rightarrow> addr \<Rightarrow> nat" where
  "table_at im a = unat ((a - pt_base im) div PGSIZE)"

fun sv39_walk :: "image \<Rightarrow> vm \<Rightarrow> nat \<Rightarrow> nat \<Rightarrow> addr \<Rightarrow> (u64 \<times> addr) option" where
  "sv39_walk im s i t va =
     (let pte = pt s t (vpn i va); bits = PGSHIFT + RISCV_PGLEVEL_BITS * i in
      if pte AND PTE_V = 0 then None
      else if PTE_TABLE pte
      then (case i of 0 \<Rightarrow> None | Suc j \<Rightarrow> sv39_walk im s j (table_at im (pte_frame pte)) va)
      else if take_bit bits (pte_frame pte) \<noteq> 0 then None
      else Some (pte, pte_frame pte + take_bit bits va))"

text \<open>The entries vm_boot writes; the user's last-level table may hold anything.\<close>

definition boot_pt :: "image \<Rightarrow> (nat \<Rightarrow> nat \<Rightarrow> u64) \<Rightarrow> bool" where
  "boot_pt im p \<longleftrightarrow>
     p 0 = (\<lambda>_. 0)(0 := table_pte (pt_addr im 1), 511 := table_pte (pt_addr im 2)) \<and>
     p 1 = (\<lambda>_. 0)(0 := table_pte (pt_addr im 3)) \<and>
     p 2 = (\<lambda>_. 0)(511 := pte_of DRAM_BASE 0xCF)"

lemma boot_tables_pt: "boot_pt im (pt (boot_state im m f))"
proof -
  have "push_bit PTE_PPN_SHIFT (DRAM_BASE div RISCV_PGSIZE) OR
      PTE_V OR PTE_R OR PTE_W OR PTE_X OR PTE_A OR PTE_D = pte_of DRAM_BASE 0xCF"
    by (simp add: pte_of_def model_defs)
  then show ?thesis
    by (simp add: boot_pt_def boot_state_def boot_freelist_nodes boot_tables_def Let_def set_pte_def
        vm_init_def fun_eq_iff)
qed

declare sv39_walk.simps [simp del]

lemma vpn_cases:
  "vpn 2 va = unat va div 2 ^ 30 mod 512" "vpn 1 va = unat va div 2 ^ 21 mod 512"
  "vpn 0 va = unat va div 2 ^ 12 mod 512"
proof -
  have "unat (take_bit 9 w) = unat w mod 512" for w :: u64
    unfolding unsigned_take_bit_eq by (simp add: take_bit_eq_mod)
  then show "vpn 2 va = unat va div 2 ^ 30 mod 512" "vpn 1 va = unat va div 2 ^ 21 mod 512"
    "vpn 0 va = unat va div 2 ^ 12 mod 512"
    by (simp_all add: vpn_def model_defs drop_bit_eq_div unat_div)
qed

lemma table_pte_of: "table_pte a = pte_of a 1"
  by (simp add: table_pte_def pte_of_def model_defs)

text \<open>The four tables are page aligned and below the 56-bit end of physical memory.\<close>

definition image_ok :: "image \<Rightarrow> bool" where
  "image_ok im \<longleftrightarrow> unat (pt_base im) mod 4096 = 0 \<and> unat (pt_base im) + 4 * 4096 \<le> 2 ^ 56"

lemma table_pointer:
  assumes "image_ok im" "i < 4"
  shows "table_pte (pt_addr im i) AND PTE_V \<noteq> 0" "PTE_TABLE (table_pte (pt_addr im i))"
    "table_at im (pte_frame (table_pte (pt_addr im i))) = i"
proof -
  have a: "pt_addr im i = pt_base im + of_nat (i * 4096)" by (simp add: pt_addr_def)
  have "unat (pt_base im + of_nat (i * 4096)) = unat (pt_base im) + i * 4096"
    using assms by (intro unat_add_nowrap) (simp add: image_ok_def)
  then have "page_aligned (pt_addr im i)"
    using assms by (simp add: page_aligned_def a image_ok_def)
  then have f: "pte_frame (table_pte (pt_addr im i)) = pt_addr im i"
    by (simp add: table_pte_of pte_frame_pte_of)
  have "unat (of_nat (i * 4096) div 4096 :: u64) = i"
    using assms(2) by (simp add: unat_div unat_of_nat del: of_nat_mult)
  then show "table_at im (pte_frame (table_pte (pt_addr im i))) = i"
    unfolding f by (simp add: table_at_def a del: of_nat_mult)
  show "table_pte (pt_addr im i) AND PTE_V \<noteq> 0" "PTE_TABLE (table_pte (pt_addr im i))"
    by (simp_all add: table_pte_of pte_of_and PTE_TABLE_def model_defs)
qed

lemma walk_pointer:
  assumes "image_ok im" "j < 4" "pt s t (vpn (Suc i) va) = table_pte (pt_addr im j)"
  shows "sv39_walk im s (Suc i) t va = sv39_walk im s i j va"
  using table_pointer [OF assms(1,2)] assms(3) by (subst sv39_walk.simps) (simp add: Let_def)

lemmas walk_root = walk_pointer [where i = 1, simplified Suc_1]
lemmas walk_middle = walk_pointer [where i = 0, folded One_nat_def]

lemma walk_invalid: "pt s t (vpn i va) = 0 \<Longrightarrow> sv39_walk im s i t va = None"
  by (subst sv39_walk.simps) (simp add: Let_def)

lemma walk_user_window:
  assumes im: "image_ok im" and p: "boot_pt im (pt s)" and va: "va < MEGAPAGE_SIZE"
  shows "sv39_walk im s 2 0 va =
    (let pte = user_l3pt s (page_of va) in
     if pte AND PTE_V = 0 \<or> PTE_TABLE pte then None else Some (pte, va_to_pa s va))"
proof -
  have u: "unat va < 0x200000" using va by (simp add: word_less_nat_alt)
  then have v: "vpn 2 va = 0" "vpn 1 va = 0" "vpn 0 va = page_of va"
    by (simp_all only: vpn_cases page_of_def) (simp_all add: unat_div)
  have d: "va mod 4096 = take_bit 12 va" by (simp add: take_bit_eq_mod)
  have pt: "pt s 0 0 = table_pte (pt_addr im 1)" "pt s 1 0 = table_pte (pt_addr im 3)"
    using p by (simp_all add: boot_pt_def)
  have "take_bit 12 (pte_frame pte) = 0" for pte by (simp add: pte_frame_def PGSHIFT_def take_bit_push_bit)
  moreover have "sv39_walk im s 2 0 va = sv39_walk im s 1 1 va"
    by (rule walk_root [OF im]) (simp_all add: v pt del: One_nat_def)
  moreover have "sv39_walk im s 1 1 va = sv39_walk im s 0 3 va"
    by (rule walk_middle [OF im]) (simp_all add: v pt del: One_nat_def)
  moreover have "sv39_walk im s 0 3 va = (let pte = user_l3pt s (page_of va) in
      if pte AND PTE_V = 0 \<or> PTE_TABLE pte then None else Some (pte, va_to_pa s va))"
    using va \<open>\<And>pte. take_bit 12 (pte_frame pte) = 0\<close>
    by (subst sv39_walk.simps) (simp add: v(3) Let_def va_to_pa_def d PGSHIFT_def page_of_def)
  ultimately show ?thesis by simp
qed

lemma walk_kernel_window:
  assumes im: "image_ok im" and p: "boot_pt im (pt s)" and va: "va \<ge> - MEGAPAGE_SIZE"
  shows "sv39_walk im s 2 0 va = Some (pte_of DRAM_BASE 0xCF, va_to_pa s va)"
proof -
  have u: "2 ^ 64 - 0x200000 \<le> unat va"
    using va by (simp add: word_le_nat_alt)
  then have "unat va div 2 ^ 30 = 2 ^ 34 - 1" "unat va div 2 ^ 21 = 2 ^ 43 - 1"
    using unat_u64_less [of va] by simp_all
  then have v: "vpn 2 va = 511" "vpn 1 va = 511"
    by (simp_all only: vpn_cases) simp_all
  have pt: "pt s 0 511 = table_pte (pt_addr im 2)" "pt s 2 511 = pte_of DRAM_BASE 0xCF"
    using p by (simp_all add: boot_pt_def)
  have "DRAM_BASE = home_addr 0" by (simp add: home_addr_def page_addr_def)
  then have f: "pte_frame (pte_of DRAM_BASE 0xCF) = DRAM_BASE"
    using pte_frame_pte_of [OF home_addr_aligned [of 0]] by simp
  have leaf: "pte_of DRAM_BASE 0xCF AND PTE_V \<noteq> 0" "\<not> PTE_TABLE (pte_of DRAM_BASE 0xCF)"
    by (simp_all add: pte_of_and PTE_TABLE_def model_defs)
  have "unat (take_bit 21 va) = unat va - (2 ^ 64 - 0x200000)"
  proof -
    have "(unat va - (2 ^ 64 - 0x200000)) mod 0x200000 = unat va mod 0x200000"
      using u by (intro mod_minus_dvd) simp_all
    moreover have "unat (take_bit 21 va) = unat va mod 0x200000"
      unfolding unsigned_take_bit_eq by (simp add: take_bit_eq_mod)
    ultimately show ?thesis using unat_u64_less [of va] u by simp
  qed
  moreover have "(unat va + 0x200000) mod 2 ^ 64 = unat va + 0x200000 - 2 ^ 64"
    using u unat_u64_less [of va] by (subst le_mod_geq) simp_all
  ultimately have "take_bit 21 va = va + 0x200000"
    using u by (intro unat_eqI) (simp add: unat_word_ariths)
  moreover have "sv39_walk im s 2 0 va = sv39_walk im s 1 2 va"
    by (rule walk_root [OF im]) (simp_all add: v pt del: One_nat_def)
  moreover have "\<not> va < MEGAPAGE_SIZE" using u by (simp add: word_less_nat_alt)
  moreover have "take_bit 21 DRAM_BASE = 0" by (simp add: DRAM_BASE_def)
  ultimately show ?thesis
  proof -
    have "sv39_walk im s 1 2 va = Some (pte_of DRAM_BASE 0xCF, DRAM_BASE + take_bit 21 va)"
      using leaf \<open>take_bit 21 DRAM_BASE = 0\<close>
      by (subst sv39_walk.simps, simp only: v pt Let_def f) (simp add: PGSHIFT_def RISCV_PGLEVEL_BITS_def)
    then show ?thesis
      using \<open>sv39_walk im s 2 0 va = sv39_walk im s 1 2 va\<close> \<open>\<not> va < MEGAPAGE_SIZE\<close>
        \<open>take_bit 21 va = va + 0x200000\<close> by (simp add: va_to_pa_def)
  qed
qed

lemma walk_outside:
  assumes im: "image_ok im" and p: "boot_pt im (pt s)"
    and va: "va \<ge> MEGAPAGE_SIZE" "va < - MEGAPAGE_SIZE" "unat va < 2 ^ 38 \<or> 2 ^ 64 - 2 ^ 38 \<le> unat va"
  shows "sv39_walk im s 2 0 va = None"
proof -
  have u: "0x200000 \<le> unat va" "unat va < 2 ^ 64 - 0x200000"
    using va(1,2) by (simp_all add: word_le_nat_alt word_less_nat_alt)
  have pt: "k \<noteq> 0 \<Longrightarrow> k \<noteq> 511 \<Longrightarrow> pt s 0 k = 0" "k \<noteq> 0 \<Longrightarrow> pt s 1 k = 0" "k \<noteq> 511 \<Longrightarrow> pt s 2 k = 0" for k
    using p by (simp_all add: boot_pt_def)
  have p0: "pt s 0 0 = table_pte (pt_addr im 1)" "pt s 0 511 = table_pte (pt_addr im 2)"
    using p by (simp_all add: boot_pt_def)
  consider (low) "unat va < 2 ^ 30" | (mid) "2 ^ 30 \<le> unat va" "unat va < 2 ^ 64 - 2 ^ 30"
    | (high) "2 ^ 64 - 2 ^ 30 \<le> unat va" by arith
  then show ?thesis
  proof cases
    case low
    then have "unat va div 2 ^ 30 = 0" "unat va div 2 ^ 21 < 512" "unat va div 2 ^ 21 \<noteq> 0"
      using u by simp_all
    then have v: "vpn 2 va = 0" "vpn 1 va \<noteq> 0" by (simp_all only: vpn_cases) simp_all
    have "sv39_walk im s 2 0 va = sv39_walk im s 1 1 va"
      by (rule walk_root [OF im]) (simp_all add: v p0 del: One_nat_def)
    also have "\<dots> = None" by (rule walk_invalid, rule pt(2) [OF v(2)])
    finally show ?thesis .
  next
    case mid
    then have "vpn 2 va \<noteq> 0 \<and> vpn 2 va \<noteq> 511"
      using va(3)
    proof (elim disjE)
      assume "unat va < 2 ^ 38"
      then have "unat va div 2 ^ 30 < 256" "unat va div 2 ^ 30 \<noteq> 0" using mid by simp_all
      then show ?thesis by (simp add: vpn_cases)
    next
      assume h: "2 ^ 64 - 2 ^ 38 \<le> unat va"
      define q where "q = unat va div 2 ^ 30"
      have q: "2 ^ 34 - 256 \<le> q" "q < 2 ^ 34 - 1" using mid h by (simp_all add: q_def)
      then have "(q - (2 ^ 34 - 512)) mod 512 = q mod 512"
        by (intro mod_minus_dvd) simp_all
      then have "q mod 512 = q - (2 ^ 34 - 512)" using q by simp
      then show ?thesis using q by (simp only: vpn_cases q_def [symmetric]) simp
    qed
    then show ?thesis by (intro walk_invalid pt(1)) simp_all
  next
    case high
    define q where "q = unat va div 2 ^ 21"
    have q: "2 ^ 43 - 512 \<le> q" "q < 2 ^ 43 - 1" using high u by (simp_all add: q_def)
    then have "(q - (2 ^ 43 - 512)) mod 512 = q mod 512" by (intro mod_minus_dvd) simp_all
    then have v1: "vpn 1 va \<noteq> 511" using q by (simp only: vpn_cases q_def [symmetric])
    have "unat va div 2 ^ 30 = 2 ^ 34 - 1" using high unat_u64_less [of va] by simp
    then have v: "vpn 2 va = 511" by (simp add: vpn_cases)
    have "sv39_walk im s 2 0 va = sv39_walk im s 1 2 va"
      by (rule walk_root [OF im]) (simp_all add: v p0 del: One_nat_def)
    also have "\<dots> = None" by (rule walk_invalid, rule pt(3) [OF v1])
    finally show ?thesis .
  qed
qed

end
