(* ===== verification/VM_Run.thy ===== *)
theory VM_Run
  imports VM_Boot
begin

section \<open>The user program on top of the handlers\<close>

text \<open>
  A user program fetches, loads and stores bytes. The hart translates each access with the Sv39
  walk and checks the entry's flags; it raises a page fault where they forbid the access or
  where A, or D for a store, is clear (the scheme without hardware updates of these bits, which
  \<open>handle_fault\<close> is written for). The trap enters \<open>handle_trap\<close>; \<open>pop_tf\<close> then
  runs the instruction again.
\<close>

subsection \<open>Accesses\<close>

datatype access = Fetch | Load | Store byte

fun access_cause :: "access \<Rightarrow> u64" where
  "access_cause Fetch = CAUSE_FETCH_PAGE_FAULT"
| "access_cause Load = CAUSE_LOAD_PAGE_FAULT"
| "access_cause (Store b) = CAUSE_STORE_PAGE_FAULT"

text \<open>The flags a user-mode access needs in the leaf entry.\<close>

fun access_flags :: "access \<Rightarrow> u64" where
  "access_flags Fetch = PTE_V OR PTE_U OR PTE_A OR PTE_X"
| "access_flags Load = PTE_V OR PTE_U OR PTE_A OR PTE_R"
| "access_flags (Store b) = PTE_V OR PTE_U OR PTE_A OR PTE_W OR PTE_D"

definition hart_translate :: "image \<Rightarrow> vm \<Rightarrow> access \<Rightarrow> addr \<Rightarrow> addr option" where
  "hart_translate im s a va =
     (case sv39_walk im s 2 0 va of
        None \<Rightarrow> None
      | Some (pte, pa) \<Rightarrow> if pte AND access_flags a = access_flags a then Some pa else None)"

fun do_access :: "access \<Rightarrow> addr \<Rightarrow> vm \<Rightarrow> byte \<times> vm" where
  "do_access (Store b) pa s = (b, s\<lparr>pmem := (pmem s)(pa := b)\<rparr>)"
| "do_access a pa s = (pmem s pa, s)"

text \<open>
  One instruction's access, with at most \<open>n - 1\<close> faults on the way. An access that reached the
  kernel's own data would have no result.
\<close>

fun user_access ::
    "(nat \<Rightarrow> bool) \<Rightarrow> u32 \<Rightarrow> image \<Rightarrow> trapframe_t \<Rightarrow> nat \<Rightarrow> access \<Rightarrow> addr \<Rightarrow> vm \<Rightarrow> byte run" where
  "user_access busy fssr im tf 0 a va s = None"
| "user_access busy fssr im tf (Suc n) a va s =
     (case hart_translate im s a va of
        Some pa \<Rightarrow> if in_kernel_page s pa then None else Some (Inr (do_access a pa s))
      | None \<Rightarrow> bnd (handle_trap busy fssr (tf\<lparr>cause := access_cause a, badvaddr := va\<rparr>))
                  (\<lambda>tf. user_access busy fssr im tf n a va) s)"

text \<open>A program's accesses in order; four attempts for each are enough.\<close>

fun user_run ::
    "(nat \<Rightarrow> bool) \<Rightarrow> u32 \<Rightarrow> image \<Rightarrow> trapframe_t \<Rightarrow> (access \<times> addr) list \<Rightarrow> vm \<Rightarrow> byte list run" where
  "user_run busy fssr im tf [] = ret []"
| "user_run busy fssr im tf ((a, va) # ops) =
     bnd (user_access busy fssr im tf 4 a va) (\<lambda>b.
     bnd (user_run busy fssr im tf ops) (\<lambda>bs. ret (b # bs)))"

subsection \<open>The specification: flat memory\<close>

type_synonym flat = "addr \<Rightarrow> byte"

fun flat_access :: "access \<Rightarrow> addr \<Rightarrow> flat \<Rightarrow> byte \<times> flat" where
  "flat_access (Store b) va m = (b, m(va := b))"
| "flat_access a va m = (m va, m)"

fun flat_run :: "(access \<times> addr) list \<Rightarrow> flat \<Rightarrow> byte list \<times> flat" where
  "flat_run [] m = ([], m)"
| "flat_run ((a, va) # ops) m =
     (let (b, m) = flat_access a va m; (bs, m) = flat_run ops m in (b # bs, m))"

text \<open>The memory the user program sees: its byte at a user address.\<close>

definition user_view :: "vm \<Rightarrow> flat" where
  "user_view s va = user_byte s (page_of va) (unat (va mod PGSIZE))"

subsection \<open>One access\<close>

lemma split_user_address:
  assumes "in_test_range va"
  shows "va = page_addr (page_of va) + of_nat (unat (va mod PGSIZE))" "unat (va mod PGSIZE) < 4096"
    "1 \<le> page_of va" "page_of va < 63" "va < MEGAPAGE_SIZE"
proof -
  have "va = va div PGSIZE * PGSIZE + va mod PGSIZE" by (simp only: div_mult_mod_eq)
  then show "va = page_addr (page_of va) + of_nat (unat (va mod PGSIZE))"
    using test_range_page [OF assms] by simp
  show "unat (va mod PGSIZE) < 4096" by (simp add: unat_mod)
  show "1 \<le> page_of va" "page_of va < 63" using test_range_page [OF assms] by simp_all
  have "unat va < 63 * 4096"
    using assms by (simp add: in_test_range_def MAX_TEST_PAGES_def word_less_nat_alt)
  then show "va < MEGAPAGE_SIZE" by (simp add: word_less_nat_alt)
qed

lemma join_user_address:
  assumes "in_test_range va" "in_test_range wa"
  shows "page_of va = page_of wa \<and> unat (va mod PGSIZE) = unat (wa mod PGSIZE) \<longleftrightarrow> va = wa"
  using split_user_address(1) [OF assms(1)] split_user_address(1) [OF assms(2)] by metis

text \<open>The level of a page says which accesses go through.\<close>

definition needed_level :: "access \<Rightarrow> nat" where
  "needed_level a = (case a of Store _ \<Rightarrow> 3 | _ \<Rightarrow> 2)"

lemma hart_translate_level:
  assumes im: "image_ok im" "boot_pt im (pt s)" and inv: "paging_inv s" and va: "in_test_range va"
  shows "hart_translate im s a va =
    (if needed_level a \<le> level s (page_of va) then Some (va_to_pa s va) else None)"
proof (cases "page_of va \<in> pages s")
  case False
  then have "user_l3pt s (page_of va) = 0" by (simp add: pages_def)
  moreover have "level s (page_of va) = 0" using False by (simp add: level_0_iff)
  ultimately show ?thesis
    using walk_user_window [OF im split_user_address(5) [OF va]]
    by (simp add: hart_translate_def needed_level_def split: access.splits)
next
  case True
  obtain f where f: "f = 0x1F \<or> f = 0x5F \<or> f = 0xDF" "user_l3pt s (page_of va) = pte_of (frame s (page_of va)) f"
    "level s (page_of va) = (if f = 0x1F then 1 else if f = 0x5F then 2 else 3)"
    using level_mapped [OF inv True] unfolding bex_simps insert_iff empty_iff by blast
  have "sv39_walk im s 2 0 va = Some (pte_of (frame s (page_of va)) f, va_to_pa s va)"
    using walk_user_window [OF im split_user_address(5) [OF va]] f(1,2)
    by (auto simp: Let_def pte_of_and PTE_TABLE_def model_defs)
  then show ?thesis
    using f(1,3) by (cases a) (auto simp: hart_translate_def needed_level_def pte_of_and model_defs)
qed

lemma faults_level:
  "level s k < needed_level a \<Longrightarrow> faults s k (access_cause a)"
  by (cases a) (auto simp: faults_def needed_level_def model_defs)

lemma boot_pt_cong: "boot_pt im p \<Longrightarrow> (\<And>i. i \<noteq> 3 \<Longrightarrow> q i = p i) \<Longrightarrow> boot_pt im q"
  by (simp add: boot_pt_def)

text \<open>A store through the tables is a store to the flat memory.\<close>

lemma user_frame_pa:
  assumes inv: "paging_inv s" and va: "in_test_range va" and k: "page_of va \<in> pages s"
  shows "va_to_pa s va = frame s (page_of va) + of_nat (unat (va mod PGSIZE))"
    "user_view s va = pmem s (va_to_pa s va)"
proof -
  obtain p f where p: "frame s (page_of va) = home_addr p" "maps_to s (page_of va) p f"
    using mapped_page [OF inv k] by blast
  show e: "va_to_pa s va = frame s (page_of va) + of_nat (unat (va mod PGSIZE))"
    using maps_to_pa [OF p(2) split_user_address(2) [OF va]] split_user_address(1) [OF va] p(1) by metis
  show "user_view s va = pmem s (va_to_pa s va)"
    using k by (simp only: user_view_def user_byte_def e if_True)
qed

text \<open>A store through a writable page changes one byte of that page's frame and of no other.\<close>

lemma store_memory:
  fixes b :: byte
  assumes inv: "paging_inv s" and va: "in_test_range va" and k: "page_of va \<in> pages s"
  defines "t \<equiv> s\<lparr>pmem := (pmem s)(va_to_pa s va := b)\<rparr>"
  obtains p where "64 \<le> p" "p < 127" "frame s (page_of va) = home_addr p"
    "\<And>q j. q \<noteq> p \<Longrightarrow> q < 512 \<Longrightarrow> j < 4096 \<Longrightarrow> pmem t (home_addr q + of_nat j) = pmem s (home_addr q + of_nat j)"
    "\<And>j. j < 4096 \<Longrightarrow> pmem t (home_addr p + of_nat j) =
      (if j = unat (va mod PGSIZE) then b else pmem s (home_addr p + of_nat j))"
    "\<And>j. j \<in> pages s \<Longrightarrow> \<exists>q. 64 \<le> q \<and> q < 127 \<and> frame s j = home_addr q \<and> (j \<noteq> page_of va \<longrightarrow> q \<noteq> p)"
proof -
  let ?k = "page_of va" and ?i = "unat (va mod PGSIZE)"
  obtain p where p: "64 \<le> p" "p < 127" "frame s ?k = home_addr p" using mapped_page [OF inv k] by blast
  have pa: "va_to_pa s va = home_addr p + of_nat ?i" using user_frame_pa(1) [OF inv va k] p(3) by simp
  have i: "?i < 4096" by (rule split_user_address(2) [OF va])
  have other: "pmem t (home_addr q + of_nat j) = pmem s (home_addr q + of_nat j)"
    if "q \<noteq> p" "q < 512" "j < 4096" for q j
  proof -
    have "home_addr q + of_nat j \<notin> span (home_addr p) 4096"
      using other_page [of p q j] that p(2) by simp
    with in_span [OF i, of "home_addr p"] have "home_addr q + of_nat j \<noteq> va_to_pa s va"
      unfolding pa by metis
    then show ?thesis by (simp add: t_def)
  qed
  have own: "pmem t (home_addr p + of_nat j) = (if j = ?i then b else pmem s (home_addr p + of_nat j))"
    if "j < 4096" for j
    using home_page_off_inj [OF that i, of p] unfolding t_def pa by simp
  have frames: "\<exists>q. 64 \<le> q \<and> q < 127 \<and> frame s j = home_addr q \<and> (j \<noteq> ?k \<longrightarrow> q \<noteq> p)" if j: "j \<in> pages s" for j
  proof -
    obtain q where q: "64 \<le> q" "q < 127" "frame s j = home_addr q" using mapped_page [OF inv j] by blast
    moreover have "q \<noteq> p" if "j \<noteq> ?k"
    proof -
      have "frame s j \<noteq> frame s ?k"
        using inv j k that by (auto simp: paging_inv_def mapping_ok_def inj_on_def)
      then show ?thesis using q(3) p(3) by auto
    qed
    ultimately show ?thesis by blast
  qed
  from p other own frames show thesis by (rule that)
qed

lemma same_after_store:
  "pages (s\<lparr>pmem := m\<rparr>) = pages s" "level (s\<lparr>pmem := m\<rparr>) = level s"
  "user_mapping (s\<lparr>pmem := m\<rparr>) = user_mapping s" "user_l3pt (s\<lparr>pmem := m\<rparr>) = user_l3pt s"
  "freelist_nodes (s\<lparr>pmem := m\<rparr>) = freelist_nodes s" "freelist_head (s\<lparr>pmem := m\<rparr>) = freelist_head s"
  "freelist_tail (s\<lparr>pmem := m\<rparr>) = freelist_tail s" "kernel_pages (s\<lparr>pmem := m\<rparr>) = kernel_pages s"
  by (simp_all add: pages_def level_def fun_eq_iff)

lemma store_keeps_inv:
  fixes b :: byte
  assumes inv: "paging_inv s" and va: "in_test_range va" and lv: "level s (page_of va) = 3"
  shows "paging_inv (s\<lparr>pmem := (pmem s)(va_to_pa s va := b)\<rparr>)"
proof -
  let ?k = "page_of va" and ?t = "s\<lparr>pmem := (pmem s)(va_to_pa s va := b)\<rparr>"
  have k: "?k \<in> pages s" using lv level_0_iff [of s ?k] by simp
  have n: "nodes_ok s" "list_ok s" "mapping_ok s" "clean_ok s" "apart_ok s" using inv by (simp_all add: paging_inv_def)
  obtain p where p: "64 \<le> p" "p < 127" "frame s ?k = home_addr p"
    and other: "\<And>q j. q \<noteq> p \<Longrightarrow> q < 512 \<Longrightarrow> j < 4096 \<Longrightarrow> pmem ?t (home_addr q + of_nat j) = pmem s (home_addr q + of_nat j)"
    and own: "\<And>j. j < 4096 \<Longrightarrow> pmem ?t (home_addr p + of_nat j) =
      (if j = unat (va mod PGSIZE) then b else pmem s (home_addr p + of_nat j))"
    and frames: "\<And>j. j \<in> pages s \<Longrightarrow> \<exists>q. 64 \<le> q \<and> q < 127 \<and> frame s j = home_addr q \<and> (j \<noteq> ?k \<longrightarrow> q \<noteq> p)"
    by (rule store_memory [OF inv va k, of b]) (rule that; assumption)
  have D: "user_l3pt s ?k AND PTE_D \<noteq> 0"
    using lv by (simp add: level_def Let_def split: if_splits)
  have "clean_ok ?t"
    unfolding clean_ok_def same_after_store
  proof (intro ballI impI allI)
    fix j l :: nat
    assume j: "j \<in> pages s" "user_l3pt s j AND PTE_D = 0" "l < 4096"
    then have jk: "j \<noteq> ?k" using D by auto
    obtain q where q: "q < 127" "frame s j = home_addr q" "q \<noteq> p" using frames [OF j(1)] jk by blast
    have "j < 63" using pages_facts(3) [OF n(2) j(1)] by simp
    moreover have "pmem s (frame s j + of_nat l) = pmem s (home_addr j + of_nat l)"
      using n(4) j unfolding clean_ok_def by blast
    ultimately show "pmem ?t (frame s j + of_nat l) = pmem ?t (home_addr j + of_nat l)"
      using j q p other [of q l] other [of j l] by simp
  qed
  moreover have "nodes_ok ?t" "list_ok ?t" "mapping_ok ?t" "apart_ok ?t"
    using n(1-3,5) unfolding nodes_ok_def list_ok_def mapping_ok_def apart_ok_def same_after_store by simp_all
  ultimately show ?thesis by (simp add: paging_inv_def)
qed

lemma store_view:
  fixes b :: byte
  assumes inv: "paging_inv s" and va: "in_test_range va" and lv: "level s (page_of va) = 3"
  defines "t \<equiv> s\<lparr>pmem := (pmem s)(va_to_pa s va := b)\<rparr>"
  shows "paging_inv t" "in_test_range wa \<Longrightarrow> user_view t wa = ((user_view s)(va := b)) wa"
proof -
  show "paging_inv t" unfolding t_def by (rule store_keeps_inv [OF inv va lv])
  let ?k = "page_of va" and ?i = "unat (va mod PGSIZE)"
  have k: "?k \<in> pages s" using lv level_0_iff [of s ?k] by simp
  note same = same_after_store [where s = s and m = "(pmem s)(va_to_pa s va := b)", folded t_def]
  obtain p where p: "64 \<le> p" "p < 127" "frame s ?k = home_addr p"
    and other: "\<And>q j. q \<noteq> p \<Longrightarrow> q < 512 \<Longrightarrow> j < 4096 \<Longrightarrow> pmem t (home_addr q + of_nat j) = pmem s (home_addr q + of_nat j)"
    and own: "\<And>j. j < 4096 \<Longrightarrow> pmem t (home_addr p + of_nat j) = (if j = ?i then b else pmem s (home_addr p + of_nat j))"
    and frames: "\<And>j. j \<in> pages s \<Longrightarrow> \<exists>q. 64 \<le> q \<and> q < 127 \<and> frame s j = home_addr q \<and> (j \<noteq> ?k \<longrightarrow> q \<noteq> p)"
    by (rule store_memory [OF inv va k, of b, folded t_def]) (rule that; assumption)
  assume wa: "in_test_range wa"
  let ?j = "page_of wa" and ?l = "unat (wa mod PGSIZE)"
  have l: "?l < 4096" "?j < 63" using split_user_address [OF wa] by auto
  have "wa = va \<longleftrightarrow> ?j = ?k \<and> ?l = ?i" using join_user_address [OF wa va] by blast
  then show "user_view t wa = ((user_view s)(va := b)) wa"
  proof (cases "?j = ?k")
    case True
    then show ?thesis
      using k own [OF l(1)] p(3) \<open>wa = va \<longleftrightarrow> _\<close> by (simp add: user_view_def user_byte_def same del: sizes)
  next
    case False
    then have "wa \<noteq> va" by auto
    show ?thesis
    proof (cases "?j \<in> pages s")
      case True
      then obtain q where "q < 127" "frame s ?j = home_addr q" "q \<noteq> p" using frames False by blast
      then show ?thesis using True \<open>wa \<noteq> va\<close> other [of q ?l] l
        by (simp add: user_view_def user_byte_def same del: sizes)
    next
      case nm: False
      have "?j \<noteq> p" using l p by simp
      then show ?thesis using nm \<open>wa \<noteq> va\<close> other [of ?j ?l] l
        by (simp add: user_view_def user_byte_def same del: sizes)
    qed
  qed
qed

subsection \<open>Progress and refinement\<close>

definition same_view :: "flat \<Rightarrow> flat \<Rightarrow> bool" where
  "same_view m m' \<longleftrightarrow> (\<forall>va. in_test_range va \<longrightarrow> m va = m' va)"

text \<open>The handlers' invariant under which user instructions run, one page \<open>k\<close> being exempt.\<close>

definition run_inv_except :: "nat set \<Rightarrow> image \<Rightarrow> vm \<Rightarrow> bool" where
  "run_inv_except X im s \<longleftrightarrow> boot_pt im (pt s) \<and> paging_inv s \<and> (\<forall>j\<in>pages s - X. 2 \<le> level s j) \<and>
     kernel_pages s = data_pages im"

abbreviation run_inv :: "image \<Rightarrow> vm \<Rightarrow> bool" where
  "run_inv \<equiv> run_inv_except {}"

lemma flat_access_same:
  "same_view m m' \<Longrightarrow> in_test_range va \<Longrightarrow>
   fst (flat_access a va m) = fst (flat_access a va m') \<and>
   same_view (snd (flat_access a va m)) (snd (flat_access a va m'))"
  by (cases a) (simp_all add: same_view_def)

lemma same_view_trans: "same_view m m' \<Longrightarrow> same_view m' m'' \<Longrightarrow> same_view m m''"
  by (simp add: same_view_def)

lemma fault_step:
  assumes im: "image_ok im" and s: "run_inv_except {page_of va} im s" and va: "in_test_range va"
    and ker: "page_of va \<notin> set (data_pages im)" and lv: "level s (page_of va) < needed_level a"
  shows "\<exists>t. handle_trap busy fssr (tf\<lparr>cause := access_cause a, badvaddr := va\<rparr>) s =
      Some (Inr (tf\<lparr>cause := access_cause a, badvaddr := va\<rparr>, t)) \<and>
    run_inv_except {page_of va} im t \<and> level t (page_of va) = Suc (level s (page_of va)) \<and>
    same_view (user_view t) (user_view s) \<and> tohost_log t = tohost_log s"
proof -
  let ?tf = "tf\<lparr>cause := access_cause a, badvaddr := va\<rparr>" and ?k = "page_of va"
  have inv: "paging_inv s" using s by (simp add: run_inv_except_def)
  have e: "badvaddr ?tf = va" "cause ?tf = access_cause a" by simp_all
  have ker': "page_of va \<notin> set (kernel_pages s)" using ker s by (simp add: run_inv_except_def)
  note r = page_fault_resumes [OF inv, of ?tf busy fssr, unfolded e, OF va ker' faults_level [OF lv]]
  obtain t where t: "handle_trap busy fssr ?tf s = Some (Inr (?tf, t))" "paging_inv t"
    "\<forall>j i. 1 \<le> j \<longrightarrow> j < 63 \<longrightarrow> i < 4096 \<longrightarrow> user_byte t j i = user_byte s j i"
    "level t = (level s)(?k := Suc (level s ?k))" "\<forall>i. i \<noteq> 3 \<longrightarrow> pt t i = pt s i"
    "tohost_log t = tohost_log s" "kernel_pages t = kernel_pages s"
    using r by blast
  have "boot_pt im (pt t)"
    using boot_pt_cong [of im "pt s"] s t(5) by (simp add: run_inv_except_def)
  moreover have "2 \<le> level t j" if "j \<in> pages t - {?k}" for j
  proof -
    have "level t j = level s j" "level t j \<noteq> 0" using that t(4) level_0_iff [of t j] by simp_all
    then have "j \<in> pages s - {?k}" using that level_0_iff [of s j] by simp
    with s have "2 \<le> level s j" unfolding run_inv_except_def by blast
    then show ?thesis using \<open>level t j = level s j\<close> by simp
  qed
  moreover have "same_view (user_view t) (user_view s)"
    using t(3) split_user_address by (simp add: same_view_def user_view_def)
  ultimately show ?thesis using t s by (auto simp: run_inv_except_def)
qed

lemma access_done:
  assumes im: "image_ok im" and s: "run_inv_except {page_of va} im s" and va: "in_test_range va"
    and lv: "needed_level a \<le> level s (page_of va)"
  shows "hart_translate im s a va = Some (va_to_pa s va)" "\<not> in_kernel_page s (va_to_pa s va)"
    "run_inv im (snd (do_access a (va_to_pa s va) s))"
    "fst (do_access a (va_to_pa s va) s) = fst (flat_access a va (user_view s))"
    "same_view (user_view (snd (do_access a (va_to_pa s va) s))) (snd (flat_access a va (user_view s)))"
    "tohost_log (snd (do_access a (va_to_pa s va) s)) = tohost_log s"
proof -
  let ?k = "page_of va"
  have inv: "paging_inv s" "boot_pt im (pt s)" using s by (simp_all add: run_inv_except_def)
  show "hart_translate im s a va = Some (va_to_pa s va)"
    using hart_translate_level [OF im inv(2,1) va] lv by simp
  have "2 \<le> level s ?k" using lv by (simp add: needed_level_def split: access.splits)
  then have all: "2 \<le> level s j" if "j \<in> pages s" for j
    using s that by (cases "j = ?k") (auto simp: run_inv_except_def)
  have k: "?k \<in> pages s" using \<open>2 \<le> level s ?k\<close> level_0_iff [of s ?k] by auto
  have v: "pmem s (va_to_pa s va) = user_view s va" using user_frame_pa(2) [OF inv(1) va k] by simp
  obtain p where p: "64 \<le> p" "p < 127" "frame s ?k = home_addr p" using mapped_page [OF inv(1) k] by blast
  have "va_to_pa s va - DRAM_BASE = page_addr p + of_nat (unat (va mod PGSIZE))"
    using user_frame_pa(1) [OF inv(1) va k] p(3) by (simp add: home_addr_def)
  then have "unat ((va_to_pa s va - DRAM_BASE) div PGSIZE) = p"
    using page_of_off [of p "unat (va mod PGSIZE)"] split_user_address(2) [OF va] p(2) by (simp add: page_of_def)
  moreover have "p \<notin> set (kernel_pages s)" using inv(1) p(1,2) by (auto simp: paging_inv_def apart_ok_def)
  ultimately show "\<not> in_kernel_page s (va_to_pa s va)" by (simp add: in_kernel_page_def)
  show "run_inv im (snd (do_access a (va_to_pa s va) s))"
  proof (cases a)
    case (Store b)
    then have "level s ?k = 3" using lv by (simp add: needed_level_def level_def Let_def split: if_splits)
    then show ?thesis
      using store_view(1) [OF inv(1) va] all inv(2)
      using s by (simp add: Store run_inv_except_def pages_def level_def)
  qed (use inv all s in \<open>simp_all add: run_inv_except_def\<close>)
  show "fst (do_access a (va_to_pa s va) s) = fst (flat_access a va (user_view s))"
    by (cases a) (simp_all add: v)
  show "same_view (user_view (snd (do_access a (va_to_pa s va) s))) (snd (flat_access a va (user_view s)))"
  proof (cases a)
    case (Store b)
    then have "level s ?k = 3" using lv by (simp add: needed_level_def level_def Let_def split: if_splits)
    then show ?thesis
      using store_view(2) [OF inv(1) va] by (simp add: Store same_view_def)
  qed (simp_all add: same_view_def)
  show "tohost_log (snd (do_access a (va_to_pa s va) s)) = tohost_log s" by (cases a) simp_all
qed

lemma user_access_refines:
  assumes im: "image_ok im" and va: "in_test_range va" and ker: "page_of va \<notin> set (data_pages im)"
  shows "run_inv_except {page_of va} im s \<Longrightarrow> needed_level a < n + level s (page_of va) \<Longrightarrow> 0 < n \<Longrightarrow>
    \<exists>b t. user_access busy fssr im tf n a va s = Some (Inr (b, t)) \<and> run_inv im t \<and>
      b = fst (flat_access a va (user_view s)) \<and>
      same_view (user_view t) (snd (flat_access a va (user_view s))) \<and> tohost_log t = tohost_log s"
proof (induction n arbitrary: s tf)
  case (Suc n)
  show ?case
  proof (cases "needed_level a \<le> level s (page_of va)")
    case True
    show ?thesis
      using access_done [OF im Suc.prems(1) va True]
      by (cases "do_access a (va_to_pa s va) s") auto
  next
    case False
    let ?tf = "tf\<lparr>cause := access_cause a, badvaddr := va\<rparr>"
    have lv: "level s (page_of va) < needed_level a" using False by simp
    obtain u where u: "handle_trap busy fssr ?tf s = Some (Inr (?tf, u))"
      "run_inv_except {page_of va} im u" "level u (page_of va) = Suc (level s (page_of va))"
      "same_view (user_view u) (user_view s)" "tohost_log u = tohost_log s"
      using fault_step [OF im Suc.prems(1) va ker lv] by blast
    have n: "needed_level a < n + level u (page_of va)" "0 < n" using u(3) Suc.prems(2) lv by auto
    obtain b t where t: "user_access busy fssr im ?tf n a va u = Some (Inr (b, t))" "run_inv im t"
      "b = fst (flat_access a va (user_view u))" "same_view (user_view t) (snd (flat_access a va (user_view u)))"
      "tohost_log t = tohost_log u"
      using Suc.IH [OF u(2) n] by blast
    have "hart_translate im s a va = None"
      using hart_translate_level [OF im _ _ va] Suc.prems(1) False by (simp add: run_inv_except_def)
    then have "user_access busy fssr im tf (Suc n) a va s = Some (Inr (b, t))"
      using u(1) t(1) by (simp add: bnd_def)
    moreover note f = flat_access_same [OF u(4) va, of a]
    ultimately show ?thesis
      using t u(5) f same_view_trans [OF t(4)] by auto
  qed
qed simp

lemma run_inv_weaken: "run_inv im s \<Longrightarrow> run_inv_except X im s"
  by (auto simp: run_inv_except_def)

lemma user_run_refines:
  assumes im: "image_ok im"
  shows "run_inv im s \<Longrightarrow> same_view (user_view s) m \<Longrightarrow> (\<forall>(a, va)\<in>set ops. in_test_range va \<and> page_of va \<notin> set (data_pages im)) \<Longrightarrow>
    \<exists>t. user_run busy fssr im tf ops s = Some (Inr (fst (flat_run ops m), t)) \<and> run_inv im t \<and>
      same_view (user_view t) (snd (flat_run ops m)) \<and> tohost_log t = tohost_log s"
proof (induction ops arbitrary: s m)
  case Nil
  then show ?case by (intro exI [of _ s]) simp
next
  case (Cons op ops)
  obtain a va where op: "op = (a, va)" by (cases op)
  with Cons.prems have va: "in_test_range va" "page_of va \<notin> set (data_pages im)" by simp_all
  have "needed_level a < 4 + level s (page_of va)" by (simp add: needed_level_def split: access.splits)
  then obtain b u where u: "user_access busy fssr im tf 4 a va s = Some (Inr (b, u))" "run_inv im u"
    "b = fst (flat_access a va (user_view s))" "same_view (user_view u) (snd (flat_access a va (user_view s)))"
    "tohost_log u = tohost_log s"
    using user_access_refines [OF im va run_inv_weaken [OF Cons.prems(1)], of a 4 busy fssr tf] by auto
  note f = flat_access_same [OF Cons.prems(2) va(1), of a]
  have "same_view (user_view u) (snd (flat_access a va m))"
    using u(4) f same_view_trans by blast
  from Cons.IH [OF u(2) this] Cons.prems(3)
  obtain t where t: "user_run busy fssr im tf ops u = Some (Inr (fst (flat_run ops (snd (flat_access a va m))), t))"
    "run_inv im t" "same_view (user_view t) (snd (flat_run ops (snd (flat_access a va m))))"
    "tohost_log t = tohost_log u" by auto
  then show ?case
    using u(1,3,5) f by (intro exI [of _ t]) (simp add: op bnd_def split_beta Let_def ret_def)
qed

subsection \<open>Booting\<close>

lemma boot_run_inv: "layout_ok im \<Longrightarrow> run_inv im (boot_state im m f)"
  using boot_paging_inv [of im m f] boot_tables_pt [of im m f] by (simp add: run_inv_except_def boot_kernel_pages)

lemma vm_boot_state:
  "mhartid im = 0 \<Longrightarrow> vm_boot im a (vm_init (data_pages im) m f) = Some (boot_frame a, boot_state im m f)"
  by (simp add: vm_boot_def boot_state_def)

lemma boot_view: "same_view (user_view (boot_state im m f)) (\<lambda>va. m (DRAM_BASE + va))"
proof -
  have "home_addr (page_of va) + of_nat (unat (va mod PGSIZE)) = DRAM_BASE + va" if "in_test_range va" for va
    using split_user_address(1) [OF that] unfolding home_addr_def by (metis add.assoc)
  then show ?thesis
    unfolding same_view_def user_view_def user_byte_def by (simp add: boot_paging_inv del: sizes)
qed

lemma example_layout:
  "layout_ok \<lparr>pt_base = 0x80002000, data_pages = [2, 3, 4, 5, 6, 7], trap_entry = 0x80000100, pmp_label = 0x80000200,
    mhartid = 0, mscratch = 0x80010000, entropy = 5\<rparr>" (is "layout_ok ?im")
proof -
  have "pt_addr ?im i = home_addr (2 + i)" for i
    by (simp add: pt_addr_def home_addr_def page_addr_def DRAM_BASE_def algebra_simps)
  moreover have "2 + i \<in> set [2, 3, 4, 5, 6, 7]" if "i < 4" for i :: nat using that by auto
  ultimately have "\<exists>p\<in>set (data_pages ?im). pt_addr ?im i = home_addr p" if "i < 4" for i
    using that by (metis image.select_convs(2))
  then show ?thesis by (simp add: layout_ok_def)
qed

lemma example_state: "\<exists>s. paging_inv s \<and> settled s \<and> 1 \<in> pages s"
proof -
  let ?b = "boot_state \<lparr>pt_base = 0x80002000, data_pages = [2, 3, 4, 5, 6, 7], trap_entry = 0x80000100, pmp_label = 0x80000200,
    mhartid = 0, mscratch = 0x80010000, entropy = 5\<rparr> (\<lambda>_. 7) (\<lambda>_. 0)"
  have r: "in_test_range 0x1000" "page_of 0x1000 = 1"
    by (simp_all add: in_test_range_def MAX_TEST_PAGES_def page_of_def)
  have b: "paging_inv ?b" "level ?b = (\<lambda>_. 0)" "kernel_pages ?b = [2, 3, 4, 5, 6, 7]"
    using boot_paging_inv(1) [OF example_layout] boot_paging_inv(2) by (auto simp: fun_eq_iff level_0_iff boot_kernel_pages)
  have "faults ?b 1 CAUSE_LOAD_PAGE_FAULT" by (simp add: faults_def b model_defs)
  then obtain s where s: "paging_inv s" "level s = (\<lambda>_. 0)(1 := 1)" "kernel_pages s = [2, 3, 4, 5, 6, 7]"
    using handle_fault_raises [OF b(1) r(1), where busy = "\<lambda>_. False" and c = CAUSE_LOAD_PAGE_FAULT] r(2) b(2,3) by auto
  have "faults s 1 CAUSE_LOAD_PAGE_FAULT" by (simp add: faults_def s model_defs)
  then obtain t where t: "paging_inv t" "level t = (\<lambda>_. 0)(1 := Suc (Suc 0))"
    using handle_fault_raises [OF s(1) r(1), where busy = "\<lambda>_. False" and c = CAUSE_LOAD_PAGE_FAULT] r(2) s(2,3) by auto
  have "k \<in> pages t \<longleftrightarrow> k = 1" for k using level_0_iff [of t k] t(2) by (auto split: if_splits)
  with t show ?thesis by (auto simp: settled_def)
qed

subsection \<open>Properties\<close>

lemma boot_page_addresses:
  "(\<lambda>i. node_addr (freelist_nodes (boot_freelist e s) i)) ` {..<63} = home_addr ` {64..126}"
  "inj_on (\<lambda>i. node_addr (freelist_nodes (boot_freelist e s) i)) {..<63}"
proof -
  let ?r = "1 + e mod of_nat MAX_TEST_PAGES"
  have r: "?r \<in> page_numbers" by (rule start_in_range)
  let ?L = "\<lambda>i. (LFSR_NEXT ^^ i) ?r"
  let ?n = "\<lambda>i. node_addr (freelist_nodes (boot_freelist e s) i)"
  have n: "?n i = home_addr (63 + unat (?L i))" if "i \<in> {..<63}" for i
    using boot_freelist_nodes(1) [of i e s] that by simp
  have L: "?L ` {..<63} = page_numbers" "inj_on ?L {..<63}"
    using lfsr_permutes(2) [OF r] lfsr_states(1) [OF r] by (simp_all add: iterates_eq atLeast_upt lessThan_atLeast0)
  have inj: "inj_on (\<lambda>x. home_addr (63 + unat x)) page_numbers"
    by (rule inj_onI) (auto simp: home_addr_inj page_numbers_def intro: unat_eqI)
  have "?n ` {..<63} = (\<lambda>x. home_addr (63 + unat x)) ` page_numbers"
    unfolding L(1) [symmetric] image_image by (rule image_cong [OF refl]) (rule n)
  also have "\<dots> = home_addr ` {64..126}"
  proof -
    have "unat ` page_numbers = {1..63}"
      unfolding page_numbers_image image_image by (auto simp: unat_of_nat image_iff)
    moreover have "(\<lambda>x. 63 + x) ` {1..63::nat} = {64..126}" by (simp add: image_add_atLeastAtMost)
    ultimately show ?thesis by (metis image_image)
  qed
  finally show "?n ` {..<63} = home_addr ` {64..126}" .
  have "inj_on ((\<lambda>x. home_addr (63 + unat x)) \<circ> ?L) {..<63}"
    using L inj by (intro comp_inj_on) simp_all
  then show "inj_on ?n {..<63}" by (rule inj_on_cong [THEN iffD1, rotated]) (simp only: comp_apply n)
qed

text \<open>
  C25 (the free list). Whatever the entropy, vm_boot chains the 63 nodes in order, the last one
  pointing nowhere, and gives them the 63 pages that follow the test's own 64, each to one node.
\<close>

theorem boot_free_list:
  "inj_on (\<lambda>i. node_addr (freelist_nodes (boot_freelist e s) i)) {..<MAX_TEST_PAGES} \<and>
   (\<lambda>i. node_addr (freelist_nodes (boot_freelist e s) i)) ` {..<MAX_TEST_PAGES} =
     (\<lambda>p. DRAM_BASE + of_nat p * PGSIZE) ` {64..126} \<and>
   freelist_head (boot_freelist e s) = Some (FreeNode 0) \<and>
   freelist_tail (boot_freelist e s) = Some (FreeNode (MAX_TEST_PAGES - 1)) \<and>
   list_all (\<lambda>i. node_next (freelist_nodes (boot_freelist e s) i) =
     (if i = MAX_TEST_PAGES - 1 then None else Some (FreeNode (Suc i)))) [0..<MAX_TEST_PAGES]"
proof -
  have "home_addr = (\<lambda>p. DRAM_BASE + of_nat p * PGSIZE)"
    by (simp add: fun_eq_iff home_addr_def page_addr_def)
  moreover have "list_all (\<lambda>i. node_next (freelist_nodes (boot_freelist e s) i) =
     (if i = 62 then None else Some (FreeNode (Suc i)))) [0..<63]"
    by (simp add: list_all_iff boot_freelist_nodes)
  moreover have "MAX_TEST_PAGES = 63" "MAX_TEST_PAGES - 1 = 62" by (simp_all add: MAX_TEST_PAGES_def)
  ultimately show ?thesis
    using boot_page_addresses [of e s] by (simp only: boot_freelist_nodes(2,3) simp_thms)
qed

text \<open>
  C4 (address map). Under the page tables of vm_boot the Sv39 walk succeeds in two windows
  only: the lowest megapage, through the entries of \<open>user_l3pt\<close>, and the uppermost one, which
  shows DRAM. Every other canonical address faults. So the translation the C code relies on
  (\<open>va_to_pa\<close>, \<open>uva2kva\<close>, \<open>pa2kva\<close>) is the hardware's.
\<close>

theorem boot_address_map:
  assumes "image_ok im" and "pt s = (pt (boot_tables im (vm_init ps m f)))(3 := user)"
    and "unat va < 2 ^ 38 \<or> 2 ^ 64 - 2 ^ 38 \<le> unat va"
  shows "sv39_walk im s 2 0 va =
    (if va < MEGAPAGE_SIZE
     then (let pte = user (unat (va div PGSIZE)) in
           if pte AND PTE_V = 0 \<or> PTE_TABLE pte then None else Some (pte, va_to_pa s va))
     else if va \<ge> - MEGAPAGE_SIZE
     then Some (push_bit 10 (drop_bit 12 DRAM_BASE) OR 0xCF, va + MEGAPAGE_SIZE + DRAM_BASE)
     else None)"
proof -
  have "boot_pt im (pt (boot_tables im (vm_init ps m f)))"
    using boot_tables_pt [of im m f]
    by (simp add: boot_state_def boot_freelist_nodes boot_tables_def Let_def set_pte_def vm_init_def)
  from boot_pt_cong [OF this, of "pt s"] have p: "boot_pt im (pt s)" using assms(2) by simp
  have u: "user_l3pt s = user" using assms(2) by simp
  have "\<not> va < MEGAPAGE_SIZE" if "va \<ge> - MEGAPAGE_SIZE"
    using that by (auto simp: word_le_nat_alt word_less_nat_alt)
  then show ?thesis
    using walk_user_window [OF assms(1) p] walk_kernel_window [OF assms(1) p]
      walk_outside [OF assms(1) p _ _ assms(3)]
    by (auto simp: u page_of_def pte_of_def va_to_pa_def not_le simp del: sizes)
qed

theorem boot_address_map_witness:
  "let im = \<lparr>pt_base = 0x80002000, data_pages = [2, 3, 4, 5, 6, 7], trap_entry = 0x80000100, pmp_label = 0x80000200,
       mhartid = 0, mscratch = 0x80010000, entropy = 5\<rparr>;
     s = boot_tables im (vm_init [2, 3, 4, 5, 6, 7] (\<lambda>_. 7) (\<lambda>_. 0))
   in sv39_walk im s 2 0 0xFFFFFFFFFFE00123 = Some (0x200000CF, 0x80000123) \<and>
      sv39_walk im s 2 0 0x80000000 = None"
proof -
  let ?im = "\<lparr>pt_base = 0x80002000, data_pages = [2, 3, 4, 5, 6, 7], trap_entry = 0x80000100, pmp_label = 0x80000200,
       mhartid = 0, mscratch = 0x80010000, entropy = 5\<rparr>"
  let ?s = "boot_tables ?im (vm_init [2, 3, 4, 5, 6, 7] (\<lambda>_. 7) (\<lambda>_. 0))"
  have "image_ok ?im" by (simp add: image_ok_def)
  moreover have "pt ?s = (pt ?s)(3 := user_l3pt ?s)" by (rule fun_upd_triv [symmetric])
  ultimately have "unat va < 2 ^ 38 \<or> 2 ^ 64 - 2 ^ 38 \<le> unat va \<Longrightarrow> \<not> va < MEGAPAGE_SIZE \<Longrightarrow>
      sv39_walk ?im ?s 2 0 va = (if va \<ge> - MEGAPAGE_SIZE
     then Some (push_bit 10 (drop_bit 12 DRAM_BASE) OR 0xCF, va + MEGAPAGE_SIZE + DRAM_BASE)
     else None)" for va
    using boot_address_map [of ?im ?s "[2, 3, 4, 5, 6, 7]" "\<lambda>_. 7" "\<lambda>_. 0" "user_l3pt ?s" va] by simp
  from this [of "0xFFFFFFFFFFE00123"] this [of "0x80000000"] show ?thesis
    by (simp add: Let_def DRAM_BASE_def)
qed

text \<open>
  C1 (demand paging refines flat memory). Boot the test image and let the user program make any
  sequence of fetches, loads and stores to test pages whose home holds no data of the kernel (page
  tables, lists, stack), which the linker has put outside the frames. Every access goes through after at
  most three page faults, none of which fails an assertion or ends the machine, and reads what
  a flat memory holding the image would give. An ecall in any state reached so ends the
  machine, without failing an assertion, with the exit code in \<open>a0\<close> as the only word sent to
  the host.
\<close>

theorem demand_paging_refines_flat_memory:
  assumes "image_ok im" and "layout_ok im" and "mhartid im = 0" and "host_live busy"
    and "\<forall>(a, va)\<in>set ops. PGSIZE \<le> va \<and> va < of_nat MAX_TEST_PAGES * PGSIZE \<and> page_of va \<notin> set (data_pages im)"
    and "cause ecall = CAUSE_USER_ECALL"
  shows "\<exists>tf s t u. vm_boot im test_addr (vm_init (data_pages im) m f) = Some (tf, s) \<and>
    user_run busy fssr im tf ops s = Some (Inr (fst (flat_run ops (\<lambda>va. m (DRAM_BASE + va))), t)) \<and>
    handle_trap busy fssr ecall t = Some (Inl (ucast (gpr ecall 10), u)) \<and>
    tohost_log u = [scast (ucast (gpr ecall 10) :: u32)]"
proof -
  let ?s = "boot_state im m f" and ?tf = "boot_frame test_addr"
  have ops: "\<forall>(a, va)\<in>set ops. in_test_range va \<and> page_of va \<notin> set (data_pages im)"
    using assms(5) by (simp add: in_test_range_def)
  obtain t where t: "user_run busy fssr im ?tf ops ?s =
      Some (Inr (fst (flat_run ops (\<lambda>va. m (DRAM_BASE + va))), t))" "run_inv im t" "tohost_log t = []"
    using user_run_refines [OF assms(1) boot_run_inv [OF assms(2)] boot_view ops, of busy fssr ?tf] boot_paging_inv(4)
    by metis
  then have "paging_inv t" "settled t" by (simp_all add: run_inv_except_def settled_def)
  from ecall_exits [OF this assms(4,6), of fssr] t vm_boot_state [OF assms(3)]
  show ?thesis by (metis append_Nil)
qed

theorem demand_paging_refines_flat_memory_witness:
  "\<exists>tf s t u. let im = \<lparr>pt_base = 0x80002000, data_pages = [2, 3, 4, 5, 6, 7], trap_entry = 0x80000100, pmp_label = 0x80000200,
       mhartid = 0, mscratch = 0x80010000, entropy = 5\<rparr>;
     ecall = \<lparr>gpr = \<lambda>i. if i = 10 then 1 else 0, sr = 0, epc = 0x1004, badvaddr = 0, cause = 8\<rparr> in
   vm_boot im 0x80001000 (vm_init [2, 3, 4, 5, 6, 7] (\<lambda>_. 7) (\<lambda>_. 0)) = Some (tf, s) \<and>
   user_run odd 0 im tf [(Fetch, 0x1000), (Store 9, 0x9345), (Load, 0x9345), (Load, 0x9346)] s =
     Some (Inr ([7, 9, 9, 7], t)) \<and>
   handle_trap odd 0 ecall t = Some (Inl (1, u)) \<and> tohost_log u = [1]"
proof -
  let ?im = "\<lparr>pt_base = 0x80002000, data_pages = [2, 3, 4, 5, 6, 7], trap_entry = 0x80000100, pmp_label = 0x80000200,
       mhartid = 0, mscratch = 0x80010000, entropy = 5\<rparr> :: image"
  let ?e = "\<lparr>gpr = \<lambda>i. if i = 10 then 1 else 0, sr = 0, epc = 0x1004, badvaddr = 0, cause = 8\<rparr> :: trapframe_t"
  have "host_live odd" unfolding host_live_def by (metis even_Suc le_SucI order_refl)
  moreover have "image_ok ?im" by (simp add: image_ok_def)
  moreover note example_layout
  ultimately show ?thesis
    using demand_paging_refines_flat_memory [of ?im odd
        "[(Fetch, 0x1000), (Store 9, 0x9345), (Load, 0x9345), (Load, 0x9346)]" ?e "0x80001000" "\<lambda>_. 7" "\<lambda>_. 0" 0]
    by (simp add: Let_def MAX_TEST_PAGES_def CAUSE_USER_ECALL_def page_of_def)
qed

text \<open>
  C2 (handle_fault). In a state of the invariant, a page fault on a test page whose home holds no
  data of the kernel returns, its accesses to the user page with \<open>SUM\<close>, A and D set in time: the page
  goes one step further (unmapped, mapped, accessed, dirty), no other page's state, no byte the
  user sees and no control register changes, and the invariant holds again: the free list never
  runs out and no frame is given to two pages.
\<close>

theorem handle_fault_keeps_invariant:
  assumes "paging_inv s" and "in_test_range a" and "page_of a \<notin> set (kernel_pages s)"
    and "c \<in> {CAUSE_FETCH_PAGE_FAULT, CAUSE_LOAD_PAGE_FAULT, CAUSE_STORE_PAGE_FAULT}"
    and "level s (page_of a) < (if c = CAUSE_STORE_PAGE_FAULT then 3 else 2)"
  shows "\<exists>t. handle_fault busy a c s = Some (Inr ((), t)) \<and> paging_inv t \<and>
    level t = (level s)(page_of a := Suc (level s (page_of a))) \<and>
    (\<forall>j i. 1 \<le> j \<longrightarrow> j < MAX_TEST_PAGES \<longrightarrow> i < 4096 \<longrightarrow> user_byte t j i = user_byte s j i) \<and>
    csrs t = csrs s \<and> tohost_log t = tohost_log s"
proof -
  have "faults s (page_of a) c" using assms(4,5) by (simp add: faults_def)
  from handle_fault_raises [OF assms(1-3) this, of busy] show ?thesis
    unfolding MAX_TEST_PAGES_def by blast
qed

theorem handle_fault_keeps_invariant_witness:
  "\<exists>t. handle_fault odd 0x9008 CAUSE_STORE_PAGE_FAULT
       (boot_state \<lparr>pt_base = 0x80002000, data_pages = [2, 3, 4, 5, 6, 7], trap_entry = 0x80000100, pmp_label = 0x80000200,
          mhartid = 0, mscratch = 0x80010000, entropy = 5\<rparr> (\<lambda>_. 7) (\<lambda>_. 0)) = Some (Inr ((), t)) \<and>
     level t 9 = 1 \<and> user_byte t 9 8 = 7"
proof -
  let ?b = "boot_state \<lparr>pt_base = 0x80002000, data_pages = [2, 3, 4, 5, 6, 7], trap_entry = 0x80000100, pmp_label = 0x80000200,
          mhartid = 0, mscratch = 0x80010000, entropy = 5\<rparr> (\<lambda>_. 7) (\<lambda>_. 0)"
  have b: "level ?b 9 = 0" "user_byte ?b 9 8 = 7" "kernel_pages ?b = [2, 3, 4, 5, 6, 7]"
    by (simp_all add: level_0_iff boot_paging_inv user_byte_def boot_kernel_pages)
  have a: "in_test_range 0x9008" "page_of 0x9008 = 9"
    by (simp_all add: in_test_range_def MAX_TEST_PAGES_def page_of_def)
  obtain t where "handle_fault odd 0x9008 CAUSE_STORE_PAGE_FAULT ?b = Some (Inr ((), t))"
    "level t = (level ?b)(page_of 0x9008 := Suc (level ?b (page_of 0x9008)))"
    "\<forall>j i. 1 \<le> j \<longrightarrow> j < MAX_TEST_PAGES \<longrightarrow> i < 4096 \<longrightarrow> user_byte t j i = user_byte ?b j i"
    using handle_fault_keeps_invariant [of ?b "0x9008" CAUSE_STORE_PAGE_FAULT odd] a b(1,3) boot_paging_inv(1) [OF example_layout]
    by auto
  then show ?thesis using a b by (intro exI [of _ t]) (simp add: MAX_TEST_PAGES_def)
qed

text \<open>
  C24 (evict). Evicting a mapped page never fails an assertion. It does not write the user's
  data back: the home page keeps its old content and overwrites the frame. The page-table entry
  stays, and the page's own node, its address cleared, becomes the tail of the free list; when
  all 62 pages are mapped the list has one node and no tail, and that node is lost.
\<close>

theorem evict_discards_page:
  assumes "paging_inv s" and "settled s" and "k \<in> pages s"
  shows "\<exists>t. evict busy (of_nat k * PGSIZE) s = Some (Inr ((), t)) \<and>
    list_all (\<lambda>i. pmem t (frame s k + of_nat i) = pmem s (home_addr k + of_nat i) \<and>
      pmem t (home_addr k + of_nat i) = pmem s (home_addr k + of_nat i)) [0..<4096] \<and>
    user_l3pt t = user_l3pt s \<and> frame t k = 0 \<and> freelist_tail t = Some (UserMap k) \<and>
    freelist_head t = Some (if card (pages s) = 62 then UserMap k else FreeNode (card (pages s)))"
proof -
  have l: "list_ok s" using assms(1) by (simp add: paging_inv_def)
  have k: "1 \<le> k" "k < 63" using pages_facts(3) [OF l assms(3)] by auto
  obtain p where p: "64 \<le> p" "p < 127" "frame s k = home_addr p" using mapped_page [OF assms(1,3)] by blast
  then have nz: "frame s k \<noteq> 0" using home_addr_nonzero by simp
  obtain t where t: "evict busy (of_nat k * PGSIZE) s = Some (Inr ((), t))" "evicted k s t"
    using evict_evicts [OF settled_evict_ok [OF assms(1,2)] k] by blast
  have "home_addr k + of_nat i \<notin> span (home_addr p) 4096" if "i < 4096" for i
    using other_page [of p k i] p k that by simp
  then show ?thesis
    using t l nz p(3) pages_facts(2) [OF l] by (intro exI [of _ t]) (auto simp: evicted_def list_all_iff list_ok_def)
qed

theorem evict_discards_page_witness:
  "\<exists>s t. 1 \<in> pages s \<and> evict odd (of_nat 1 * PGSIZE) s = Some (Inr ((), t)) \<and> frame t 1 = 0 \<and>
    freelist_tail t = Some (UserMap 1)"
proof -
  obtain s where "paging_inv s" "settled s" "1 \<in> pages s" using example_state by blast
  with evict_discards_page [of s 1 odd] show ?thesis by blast
qed



text \<open>
  C31 (failed assertions of handle_fault). An address outside the test pages, and a fault on a
  page that allows the access already (accessed, and dirty or not a store), end the machine
  with code 3 after the assertion's message.
\<close>

theorem handle_fault_asserts:
  assumes "host_live busy"
    and "\<not> in_test_range a \<or> (2 \<le> level s (page_of a) \<and> (level s (page_of a) = 3 \<or> c \<noteq> CAUSE_STORE_PAGE_FAULT))"
  shows "\<exists>t. handle_fault busy a c s = Some (Inl (3, t))"
proof (cases "in_test_range a")
  case False
  then show ?thesis by (simp add: handle_fault_def assert_false_ends [OF assms(1)])
next
  case True
  have p: "a div PGSIZE * PGSIZE = page_addr (page_of a)" "page_of (page_addr (page_of a)) = page_of a"
    using test_range_page [OF True] by auto
  have "level s (page_of a) = 3 \<longleftrightarrow> user_l3pt s (page_of a) AND PTE_D \<noteq> 0 \<and> 2 \<le> level s (page_of a)"
    by (simp add: level_def Let_def)
  moreover have "user_l3pt s (page_of a) \<noteq> 0 \<and> user_l3pt s (page_of a) AND PTE_A \<noteq> 0"
    using assms(2) True by (auto simp: level_def Let_def split: if_splits)
  ultimately show ?thesis
    using assms(2) True
    by (auto simp: handle_fault_def Let_def p fault_on_mapped_def assert_false_ends [OF assms(1)] simp del: sizes)
qed

theorem handle_fault_asserts_witness:
  "\<exists>t. handle_fault odd 0x3F000 CAUSE_LOAD_PAGE_FAULT (vm_init [] (\<lambda>_. 0) (\<lambda>_. 0)) = Some (Inl (3, t))"
proof -
  have "host_live odd" unfolding host_live_def by (metis even_Suc le_SucI order_refl)
  then show ?thesis
    using handle_fault_asserts [of odd "0x3F000" "vm_init [] (\<lambda>_. 0) (\<lambda>_. 0)" CAUSE_LOAD_PAGE_FAULT]
    by (simp add: in_test_range_def MAX_TEST_PAGES_def)
qed

end
