(* ===== verification/Encoding_Insns.thy ===== *)
theory Encoding_Insns
  imports Prelude
begin

section \<open>The instruction tables of encoding.h\<close>

text \<open>
  \<open>micro-arch-tests/performance_tests/env/encoding.h\<close>, lines 258 to 781 and 1012 to 1273: the
  \<open>MATCH_X\<close> and \<open>MASK_X\<close> macros, one row (X, match, mask) for each instruction X in the
  order of the header, and the \<open>DECLARE_INSN\<close> list, one row (mnemonic, X, Y) for
  \<open>DECLARE_INSN(mnemonic, MATCH_X, MASK_Y)\<close>. A word \<open>w\<close> is the instruction X when
  \<open>w & MASK_X == MATCH_X\<close>.
\<close>

type_synonym insn_row = "string \<times> u32 \<times> u32"

subsection \<open>MATCH and MASK\<close>

definition insn_codes_1 :: "insn_row list" where
  "insn_codes_1 = [
   (''BEQ'', 0x63, 0x707f),
   (''BNE'', 0x1063, 0x707f),
   (''BLT'', 0x4063, 0x707f),
   (''BGE'', 0x5063, 0x707f),
   (''BLTU'', 0x6063, 0x707f),
   (''BGEU'', 0x7063, 0x707f),
   (''JALR'', 0x67, 0x707f),
   (''JAL'', 0x6f, 0x7f),
   (''LUI'', 0x37, 0x7f),
   (''AUIPC'', 0x17, 0x7f),
   (''ADDI'', 0x13, 0x707f),
   (''SLLI'', 0x1013, 0xfc00707f),
   (''SLTI'', 0x2013, 0x707f),
   (''SLTIU'', 0x3013, 0x707f),
   (''XORI'', 0x4013, 0x707f),
   (''SRLI'', 0x5013, 0xfc00707f),
   (''SRAI'', 0x40005013, 0xfc00707f),
   (''ORI'', 0x6013, 0x707f),
   (''ANDI'', 0x7013, 0x707f),
   (''ADD'', 0x33, 0xfe00707f),
   (''SUB'', 0x40000033, 0xfe00707f),
   (''SLL'', 0x1033, 0xfe00707f),
   (''SLT'', 0x2033, 0xfe00707f),
   (''SLTU'', 0x3033, 0xfe00707f),
   (''XOR'', 0x4033, 0xfe00707f),
   (''SRL'', 0x5033, 0xfe00707f),
   (''SRA'', 0x40005033, 0xfe00707f),
   (''OR'', 0x6033, 0xfe00707f),
   (''AND'', 0x7033, 0xfe00707f),
   (''ADDIW'', 0x1b, 0x707f),
   (''SLLIW'', 0x101b, 0xfe00707f),
   (''SRLIW'', 0x501b, 0xfe00707f),
   (''SRAIW'', 0x4000501b, 0xfe00707f),
   (''ADDW'', 0x3b, 0xfe00707f),
   (''SUBW'', 0x4000003b, 0xfe00707f),
   (''SLLW'', 0x103b, 0xfe00707f),
   (''SRLW'', 0x503b, 0xfe00707f),
   (''SRAW'', 0x4000503b, 0xfe00707f),
   (''LB'', 0x3, 0x707f),
   (''LH'', 0x1003, 0x707f),
   (''LW'', 0x2003, 0x707f),
   (''LD'', 0x3003, 0x707f),
   (''LBU'', 0x4003, 0x707f),
   (''LHU'', 0x5003, 0x707f),
   (''LWU'', 0x6003, 0x707f),
   (''SB'', 0x23, 0x707f),
   (''SH'', 0x1023, 0x707f),
   (''SW'', 0x2023, 0x707f),
   (''SD'', 0x3023, 0x707f),
   (''FENCE'', 0xf, 0x707f),
   (''FENCE_I'', 0x100f, 0x707f),
   (''MUL'', 0x2000033, 0xfe00707f),
   (''MULH'', 0x2001033, 0xfe00707f),
   (''MULHSU'', 0x2002033, 0xfe00707f),
   (''MULHU'', 0x2003033, 0xfe00707f),
   (''DIV'', 0x2004033, 0xfe00707f),
   (''DIVU'', 0x2005033, 0xfe00707f),
   (''REM'', 0x2006033, 0xfe00707f),
   (''REMU'', 0x2007033, 0xfe00707f),
   (''MULW'', 0x200003b, 0xfe00707f),
   (''DIVW'', 0x200403b, 0xfe00707f),
   (''DIVUW'', 0x200503b, 0xfe00707f),
   (''REMW'', 0x200603b, 0xfe00707f),
   (''REMUW'', 0x200703b, 0xfe00707f),
   (''AMOADD_W'', 0x202f, 0xf800707f),
   (''AMOXOR_W'', 0x2000202f, 0xf800707f)]"

definition insn_codes_2 :: "insn_row list" where
  "insn_codes_2 = [
   (''AMOOR_W'', 0x4000202f, 0xf800707f),
   (''AMOAND_W'', 0x6000202f, 0xf800707f),
   (''AMOMIN_W'', 0x8000202f, 0xf800707f),
   (''AMOMAX_W'', 0xa000202f, 0xf800707f),
   (''AMOMINU_W'', 0xc000202f, 0xf800707f),
   (''AMOMAXU_W'', 0xe000202f, 0xf800707f),
   (''AMOSWAP_W'', 0x800202f, 0xf800707f),
   (''LR_W'', 0x1000202f, 0xf9f0707f),
   (''SC_W'', 0x1800202f, 0xf800707f),
   (''AMOADD_D'', 0x302f, 0xf800707f),
   (''AMOXOR_D'', 0x2000302f, 0xf800707f),
   (''AMOOR_D'', 0x4000302f, 0xf800707f),
   (''AMOAND_D'', 0x6000302f, 0xf800707f),
   (''AMOMIN_D'', 0x8000302f, 0xf800707f),
   (''AMOMAX_D'', 0xa000302f, 0xf800707f),
   (''AMOMINU_D'', 0xc000302f, 0xf800707f),
   (''AMOMAXU_D'', 0xe000302f, 0xf800707f),
   (''AMOSWAP_D'', 0x800302f, 0xf800707f),
   (''LR_D'', 0x1000302f, 0xf9f0707f),
   (''SC_D'', 0x1800302f, 0xf800707f),
   (''ECALL'', 0x73, 0xffffffff),
   (''EBREAK'', 0x100073, 0xffffffff),
   (''URET'', 0x200073, 0xffffffff),
   (''SRET'', 0x10200073, 0xffffffff),
   (''MRET'', 0x30200073, 0xffffffff),
   (''DRET'', 0x7b200073, 0xffffffff),
   (''SFENCE_VMA'', 0x12000073, 0xfe007fff),
   (''WFI'', 0x10500073, 0xffffffff),
   (''CSRRW'', 0x1073, 0x707f),
   (''CSRRS'', 0x2073, 0x707f),
   (''CSRRC'', 0x3073, 0x707f),
   (''CSRRWI'', 0x5073, 0x707f),
   (''CSRRSI'', 0x6073, 0x707f),
   (''CSRRCI'', 0x7073, 0x707f),
   (''FADD_S'', 0x53, 0xfe00007f),
   (''FSUB_S'', 0x8000053, 0xfe00007f),
   (''FMUL_S'', 0x10000053, 0xfe00007f),
   (''FDIV_S'', 0x18000053, 0xfe00007f),
   (''FSGNJ_S'', 0x20000053, 0xfe00707f),
   (''FSGNJN_S'', 0x20001053, 0xfe00707f),
   (''FSGNJX_S'', 0x20002053, 0xfe00707f),
   (''FMIN_S'', 0x28000053, 0xfe00707f),
   (''FMAX_S'', 0x28001053, 0xfe00707f),
   (''FSQRT_S'', 0x58000053, 0xfff0007f),
   (''FADD_D'', 0x2000053, 0xfe00007f),
   (''FSUB_D'', 0xa000053, 0xfe00007f),
   (''FMUL_D'', 0x12000053, 0xfe00007f),
   (''FDIV_D'', 0x1a000053, 0xfe00007f),
   (''FSGNJ_D'', 0x22000053, 0xfe00707f),
   (''FSGNJN_D'', 0x22001053, 0xfe00707f),
   (''FSGNJX_D'', 0x22002053, 0xfe00707f),
   (''FMIN_D'', 0x2a000053, 0xfe00707f),
   (''FMAX_D'', 0x2a001053, 0xfe00707f),
   (''FCVT_S_D'', 0x40100053, 0xfff0007f),
   (''FCVT_D_S'', 0x42000053, 0xfff0007f),
   (''FSQRT_D'', 0x5a000053, 0xfff0007f),
   (''FADD_Q'', 0x6000053, 0xfe00007f),
   (''FSUB_Q'', 0xe000053, 0xfe00007f),
   (''FMUL_Q'', 0x16000053, 0xfe00007f),
   (''FDIV_Q'', 0x1e000053, 0xfe00007f),
   (''FSGNJ_Q'', 0x26000053, 0xfe00707f),
   (''FSGNJN_Q'', 0x26001053, 0xfe00707f),
   (''FSGNJX_Q'', 0x26002053, 0xfe00707f),
   (''FMIN_Q'', 0x2e000053, 0xfe00707f),
   (''FMAX_Q'', 0x2e001053, 0xfe00707f),
   (''FCVT_S_Q'', 0x40300053, 0xfff0007f)]"

definition insn_codes_3 :: "insn_row list" where
  "insn_codes_3 = [
   (''FCVT_Q_S'', 0x46000053, 0xfff0007f),
   (''FCVT_D_Q'', 0x42300053, 0xfff0007f),
   (''FCVT_Q_D'', 0x46100053, 0xfff0007f),
   (''FSQRT_Q'', 0x5e000053, 0xfff0007f),
   (''FLE_S'', 0xa0000053, 0xfe00707f),
   (''FLT_S'', 0xa0001053, 0xfe00707f),
   (''FEQ_S'', 0xa0002053, 0xfe00707f),
   (''FLE_D'', 0xa2000053, 0xfe00707f),
   (''FLT_D'', 0xa2001053, 0xfe00707f),
   (''FEQ_D'', 0xa2002053, 0xfe00707f),
   (''FLE_Q'', 0xa6000053, 0xfe00707f),
   (''FLT_Q'', 0xa6001053, 0xfe00707f),
   (''FEQ_Q'', 0xa6002053, 0xfe00707f),
   (''FCVT_W_S'', 0xc0000053, 0xfff0007f),
   (''FCVT_WU_S'', 0xc0100053, 0xfff0007f),
   (''FCVT_L_S'', 0xc0200053, 0xfff0007f),
   (''FCVT_LU_S'', 0xc0300053, 0xfff0007f),
   (''FMV_X_W'', 0xe0000053, 0xfff0707f),
   (''FCLASS_S'', 0xe0001053, 0xfff0707f),
   (''FCVT_W_D'', 0xc2000053, 0xfff0007f),
   (''FCVT_WU_D'', 0xc2100053, 0xfff0007f),
   (''FCVT_L_D'', 0xc2200053, 0xfff0007f),
   (''FCVT_LU_D'', 0xc2300053, 0xfff0007f),
   (''FMV_X_D'', 0xe2000053, 0xfff0707f),
   (''FCLASS_D'', 0xe2001053, 0xfff0707f),
   (''FCVT_W_Q'', 0xc6000053, 0xfff0007f),
   (''FCVT_WU_Q'', 0xc6100053, 0xfff0007f),
   (''FCVT_L_Q'', 0xc6200053, 0xfff0007f),
   (''FCVT_LU_Q'', 0xc6300053, 0xfff0007f),
   (''FMV_X_Q'', 0xe6000053, 0xfff0707f),
   (''FCLASS_Q'', 0xe6001053, 0xfff0707f),
   (''FCVT_S_W'', 0xd0000053, 0xfff0007f),
   (''FCVT_S_WU'', 0xd0100053, 0xfff0007f),
   (''FCVT_S_L'', 0xd0200053, 0xfff0007f),
   (''FCVT_S_LU'', 0xd0300053, 0xfff0007f),
   (''FMV_W_X'', 0xf0000053, 0xfff0707f),
   (''FCVT_D_W'', 0xd2000053, 0xfff0007f),
   (''FCVT_D_WU'', 0xd2100053, 0xfff0007f),
   (''FCVT_D_L'', 0xd2200053, 0xfff0007f),
   (''FCVT_D_LU'', 0xd2300053, 0xfff0007f),
   (''FMV_D_X'', 0xf2000053, 0xfff0707f),
   (''FCVT_Q_W'', 0xd6000053, 0xfff0007f),
   (''FCVT_Q_WU'', 0xd6100053, 0xfff0007f),
   (''FCVT_Q_L'', 0xd6200053, 0xfff0007f),
   (''FCVT_Q_LU'', 0xd6300053, 0xfff0007f),
   (''FMV_Q_X'', 0xf6000053, 0xfff0707f),
   (''FLW'', 0x2007, 0x707f),
   (''FLD'', 0x3007, 0x707f),
   (''FLQ'', 0x4007, 0x707f),
   (''FSW'', 0x2027, 0x707f),
   (''FSD'', 0x3027, 0x707f),
   (''FSQ'', 0x4027, 0x707f),
   (''FMADD_S'', 0x43, 0x600007f),
   (''FMSUB_S'', 0x47, 0x600007f),
   (''FNMSUB_S'', 0x4b, 0x600007f),
   (''FNMADD_S'', 0x4f, 0x600007f),
   (''FMADD_D'', 0x2000043, 0x600007f),
   (''FMSUB_D'', 0x2000047, 0x600007f),
   (''FNMSUB_D'', 0x200004b, 0x600007f),
   (''FNMADD_D'', 0x200004f, 0x600007f),
   (''FMADD_Q'', 0x6000043, 0x600007f),
   (''FMSUB_Q'', 0x6000047, 0x600007f),
   (''FNMSUB_Q'', 0x600004b, 0x600007f),
   (''FNMADD_Q'', 0x600004f, 0x600007f)]"

definition insn_codes_rvc_aliases :: "insn_row list" where
  "insn_codes_rvc_aliases = [
   (''C_NOP'', 0x1, 0xffff),
   (''C_ADDI16SP'', 0x6101, 0xef83),
   (''C_JR'', 0x8002, 0xf07f),
   (''C_JALR'', 0x9002, 0xf07f),
   (''C_EBREAK'', 0x9002, 0xffff),
   (''C_LD'', 0x6000, 0xe003),
   (''C_SD'', 0xe000, 0xe003),
   (''C_ADDIW'', 0x2001, 0xe003),
   (''C_LDSP'', 0x6002, 0xe003),
   (''C_SDSP'', 0xe002, 0xe003)]"

definition insn_codes_4 :: "insn_row list" where
  "insn_codes_4 = [
   (''C_ADDI4SPN'', 0x0, 0xe003),
   (''C_FLD'', 0x2000, 0xe003),
   (''C_LW'', 0x4000, 0xe003),
   (''C_FLW'', 0x6000, 0xe003),
   (''C_FSD'', 0xa000, 0xe003),
   (''C_SW'', 0xc000, 0xe003),
   (''C_FSW'', 0xe000, 0xe003),
   (''C_ADDI'', 0x1, 0xe003),
   (''C_JAL'', 0x2001, 0xe003),
   (''C_LI'', 0x4001, 0xe003),
   (''C_LUI'', 0x6001, 0xe003),
   (''C_SRLI'', 0x8001, 0xec03),
   (''C_SRAI'', 0x8401, 0xec03),
   (''C_ANDI'', 0x8801, 0xec03),
   (''C_SUB'', 0x8c01, 0xfc63),
   (''C_XOR'', 0x8c21, 0xfc63),
   (''C_OR'', 0x8c41, 0xfc63),
   (''C_AND'', 0x8c61, 0xfc63),
   (''C_SUBW'', 0x9c01, 0xfc63),
   (''C_ADDW'', 0x9c21, 0xfc63),
   (''C_J'', 0xa001, 0xe003),
   (''C_BEQZ'', 0xc001, 0xe003),
   (''C_BNEZ'', 0xe001, 0xe003),
   (''C_SLLI'', 0x2, 0xe003),
   (''C_FLDSP'', 0x2002, 0xe003),
   (''C_LWSP'', 0x4002, 0xe003),
   (''C_FLWSP'', 0x6002, 0xe003),
   (''C_MV'', 0x8002, 0xf003),
   (''C_ADD'', 0x9002, 0xf003),
   (''C_FSDSP'', 0xa002, 0xe003),
   (''C_SWSP'', 0xc002, 0xe003),
   (''C_FSWSP'', 0xe002, 0xe003),
   (''CUSTOM0'', 0xb, 0x707f),
   (''CUSTOM0_RS1'', 0x200b, 0x707f),
   (''CUSTOM0_RS1_RS2'', 0x300b, 0x707f),
   (''CUSTOM0_RD'', 0x400b, 0x707f),
   (''CUSTOM0_RD_RS1'', 0x600b, 0x707f),
   (''CUSTOM0_RD_RS1_RS2'', 0x700b, 0x707f),
   (''CUSTOM1'', 0x2b, 0x707f),
   (''CUSTOM1_RS1'', 0x202b, 0x707f),
   (''CUSTOM1_RS1_RS2'', 0x302b, 0x707f),
   (''CUSTOM1_RD'', 0x402b, 0x707f),
   (''CUSTOM1_RD_RS1'', 0x602b, 0x707f),
   (''CUSTOM1_RD_RS1_RS2'', 0x702b, 0x707f),
   (''CUSTOM2'', 0x5b, 0x707f),
   (''CUSTOM2_RS1'', 0x205b, 0x707f),
   (''CUSTOM2_RS1_RS2'', 0x305b, 0x707f),
   (''CUSTOM2_RD'', 0x405b, 0x707f),
   (''CUSTOM2_RD_RS1'', 0x605b, 0x707f),
   (''CUSTOM2_RD_RS1_RS2'', 0x705b, 0x707f),
   (''CUSTOM3'', 0x7b, 0x707f),
   (''CUSTOM3_RS1'', 0x207b, 0x707f),
   (''CUSTOM3_RS1_RS2'', 0x307b, 0x707f),
   (''CUSTOM3_RD'', 0x407b, 0x707f),
   (''CUSTOM3_RD_RS1'', 0x607b, 0x707f),
   (''CUSTOM3_RD_RS1_RS2'', 0x707b, 0x707f)]"

definition insn_codes :: "insn_row list" where
  "insn_codes = insn_codes_1 @ insn_codes_2 @ insn_codes_3 @ insn_codes_rvc_aliases @ insn_codes_4"

subsection \<open>DECLARE_INSN\<close>

definition declare_insns_1 :: "(string \<times> string \<times> string) list" where
  "declare_insns_1 = [
   (''beq'', ''BEQ'', ''BEQ''),
   (''bne'', ''BNE'', ''BNE''),
   (''blt'', ''BLT'', ''BLT''),
   (''bge'', ''BGE'', ''BGE''),
   (''bltu'', ''BLTU'', ''BLTU''),
   (''bgeu'', ''BGEU'', ''BGEU''),
   (''jalr'', ''JALR'', ''JALR''),
   (''jal'', ''JAL'', ''JAL''),
   (''lui'', ''LUI'', ''LUI''),
   (''auipc'', ''AUIPC'', ''AUIPC''),
   (''addi'', ''ADDI'', ''ADDI''),
   (''slli'', ''SLLI'', ''SLLI''),
   (''slti'', ''SLTI'', ''SLTI''),
   (''sltiu'', ''SLTIU'', ''SLTIU''),
   (''xori'', ''XORI'', ''XORI''),
   (''srli'', ''SRLI'', ''SRLI''),
   (''srai'', ''SRAI'', ''SRAI''),
   (''ori'', ''ORI'', ''ORI''),
   (''andi'', ''ANDI'', ''ANDI''),
   (''add'', ''ADD'', ''ADD''),
   (''sub'', ''SUB'', ''SUB''),
   (''sll'', ''SLL'', ''SLL''),
   (''slt'', ''SLT'', ''SLT''),
   (''sltu'', ''SLTU'', ''SLTU''),
   (''xor'', ''XOR'', ''XOR''),
   (''srl'', ''SRL'', ''SRL''),
   (''sra'', ''SRA'', ''SRA''),
   (''or'', ''OR'', ''OR''),
   (''and'', ''AND'', ''AND''),
   (''addiw'', ''ADDIW'', ''ADDIW''),
   (''slliw'', ''SLLIW'', ''SLLIW''),
   (''srliw'', ''SRLIW'', ''SRLIW''),
   (''sraiw'', ''SRAIW'', ''SRAIW''),
   (''addw'', ''ADDW'', ''ADDW''),
   (''subw'', ''SUBW'', ''SUBW''),
   (''sllw'', ''SLLW'', ''SLLW''),
   (''srlw'', ''SRLW'', ''SRLW''),
   (''sraw'', ''SRAW'', ''SRAW''),
   (''lb'', ''LB'', ''LB''),
   (''lh'', ''LH'', ''LH''),
   (''lw'', ''LW'', ''LW''),
   (''ld'', ''LD'', ''LD''),
   (''lbu'', ''LBU'', ''LBU''),
   (''lhu'', ''LHU'', ''LHU''),
   (''lwu'', ''LWU'', ''LWU''),
   (''sb'', ''SB'', ''SB''),
   (''sh'', ''SH'', ''SH''),
   (''sw'', ''SW'', ''SW''),
   (''sd'', ''SD'', ''SD''),
   (''fence'', ''FENCE'', ''FENCE''),
   (''fence_i'', ''FENCE_I'', ''FENCE_I''),
   (''mul'', ''MUL'', ''MUL''),
   (''mulh'', ''MULH'', ''MULH''),
   (''mulhsu'', ''MULHSU'', ''MULHSU''),
   (''mulhu'', ''MULHU'', ''MULHU''),
   (''div'', ''DIV'', ''DIV''),
   (''divu'', ''DIVU'', ''DIVU''),
   (''rem'', ''REM'', ''REM''),
   (''remu'', ''REMU'', ''REMU''),
   (''mulw'', ''MULW'', ''MULW''),
   (''divw'', ''DIVW'', ''DIVW''),
   (''divuw'', ''DIVUW'', ''DIVUW''),
   (''remw'', ''REMW'', ''REMW''),
   (''remuw'', ''REMUW'', ''REMUW''),
   (''amoadd_w'', ''AMOADD_W'', ''AMOADD_W''),
   (''amoxor_w'', ''AMOXOR_W'', ''AMOXOR_W''),
   (''amoor_w'', ''AMOOR_W'', ''AMOOR_W''),
   (''amoand_w'', ''AMOAND_W'', ''AMOAND_W''),
   (''amomin_w'', ''AMOMIN_W'', ''AMOMIN_W''),
   (''amomax_w'', ''AMOMAX_W'', ''AMOMAX_W''),
   (''amominu_w'', ''AMOMINU_W'', ''AMOMINU_W''),
   (''amomaxu_w'', ''AMOMAXU_W'', ''AMOMAXU_W''),
   (''amoswap_w'', ''AMOSWAP_W'', ''AMOSWAP_W''),
   (''lr_w'', ''LR_W'', ''LR_W''),
   (''sc_w'', ''SC_W'', ''SC_W''),
   (''amoadd_d'', ''AMOADD_D'', ''AMOADD_D''),
   (''amoxor_d'', ''AMOXOR_D'', ''AMOXOR_D''),
   (''amoor_d'', ''AMOOR_D'', ''AMOOR_D''),
   (''amoand_d'', ''AMOAND_D'', ''AMOAND_D''),
   (''amomin_d'', ''AMOMIN_D'', ''AMOMIN_D''),
   (''amomax_d'', ''AMOMAX_D'', ''AMOMAX_D''),
   (''amominu_d'', ''AMOMINU_D'', ''AMOMINU_D''),
   (''amomaxu_d'', ''AMOMAXU_D'', ''AMOMAXU_D''),
   (''amoswap_d'', ''AMOSWAP_D'', ''AMOSWAP_D''),
   (''lr_d'', ''LR_D'', ''LR_D''),
   (''sc_d'', ''SC_D'', ''SC_D''),
   (''ecall'', ''ECALL'', ''ECALL''),
   (''ebreak'', ''EBREAK'', ''EBREAK''),
   (''uret'', ''URET'', ''URET''),
   (''sret'', ''SRET'', ''SRET''),
   (''mret'', ''MRET'', ''MRET''),
   (''dret'', ''DRET'', ''DRET''),
   (''sfence_vma'', ''SFENCE_VMA'', ''SFENCE_VMA''),
   (''wfi'', ''WFI'', ''WFI''),
   (''csrrw'', ''CSRRW'', ''CSRRW''),
   (''csrrs'', ''CSRRS'', ''CSRRS''),
   (''csrrc'', ''CSRRC'', ''CSRRC''),
   (''csrrwi'', ''CSRRWI'', ''CSRRWI''),
   (''csrrsi'', ''CSRRSI'', ''CSRRSI''),
   (''csrrci'', ''CSRRCI'', ''CSRRCI''),
   (''fadd_s'', ''FADD_S'', ''FADD_S''),
   (''fsub_s'', ''FSUB_S'', ''FSUB_S''),
   (''fmul_s'', ''FMUL_S'', ''FMUL_S''),
   (''fdiv_s'', ''FDIV_S'', ''FDIV_S''),
   (''fsgnj_s'', ''FSGNJ_S'', ''FSGNJ_S''),
   (''fsgnjn_s'', ''FSGNJN_S'', ''FSGNJN_S''),
   (''fsgnjx_s'', ''FSGNJX_S'', ''FSGNJX_S''),
   (''fmin_s'', ''FMIN_S'', ''FMIN_S''),
   (''fmax_s'', ''FMAX_S'', ''FMAX_S''),
   (''fsqrt_s'', ''FSQRT_S'', ''FSQRT_S''),
   (''fadd_d'', ''FADD_D'', ''FADD_D''),
   (''fsub_d'', ''FSUB_D'', ''FSUB_D''),
   (''fmul_d'', ''FMUL_D'', ''FMUL_D''),
   (''fdiv_d'', ''FDIV_D'', ''FDIV_D''),
   (''fsgnj_d'', ''FSGNJ_D'', ''FSGNJ_D''),
   (''fsgnjn_d'', ''FSGNJN_D'', ''FSGNJN_D''),
   (''fsgnjx_d'', ''FSGNJX_D'', ''FSGNJX_D''),
   (''fmin_d'', ''FMIN_D'', ''FMIN_D''),
   (''fmax_d'', ''FMAX_D'', ''FMAX_D''),
   (''fcvt_s_d'', ''FCVT_S_D'', ''FCVT_S_D''),
   (''fcvt_d_s'', ''FCVT_D_S'', ''FCVT_D_S''),
   (''fsqrt_d'', ''FSQRT_D'', ''FSQRT_D''),
   (''fadd_q'', ''FADD_Q'', ''FADD_Q''),
   (''fsub_q'', ''FSUB_Q'', ''FSUB_Q''),
   (''fmul_q'', ''FMUL_Q'', ''FMUL_Q''),
   (''fdiv_q'', ''FDIV_Q'', ''FDIV_Q''),
   (''fsgnj_q'', ''FSGNJ_Q'', ''FSGNJ_Q''),
   (''fsgnjn_q'', ''FSGNJN_Q'', ''FSGNJN_Q''),
   (''fsgnjx_q'', ''FSGNJX_Q'', ''FSGNJX_Q''),
   (''fmin_q'', ''FMIN_Q'', ''FMIN_Q''),
   (''fmax_q'', ''FMAX_Q'', ''FMAX_Q'')]"

definition declare_insns_2 :: "(string \<times> string \<times> string) list" where
  "declare_insns_2 = [
   (''fcvt_s_q'', ''FCVT_S_Q'', ''FCVT_S_Q''),
   (''fcvt_q_s'', ''FCVT_Q_S'', ''FCVT_Q_S''),
   (''fcvt_d_q'', ''FCVT_D_Q'', ''FCVT_D_Q''),
   (''fcvt_q_d'', ''FCVT_Q_D'', ''FCVT_Q_D''),
   (''fsqrt_q'', ''FSQRT_Q'', ''FSQRT_Q''),
   (''fle_s'', ''FLE_S'', ''FLE_S''),
   (''flt_s'', ''FLT_S'', ''FLT_S''),
   (''feq_s'', ''FEQ_S'', ''FEQ_S''),
   (''fle_d'', ''FLE_D'', ''FLE_D''),
   (''flt_d'', ''FLT_D'', ''FLT_D''),
   (''feq_d'', ''FEQ_D'', ''FEQ_D''),
   (''fle_q'', ''FLE_Q'', ''FLE_Q''),
   (''flt_q'', ''FLT_Q'', ''FLT_Q''),
   (''feq_q'', ''FEQ_Q'', ''FEQ_Q''),
   (''fcvt_w_s'', ''FCVT_W_S'', ''FCVT_W_S''),
   (''fcvt_wu_s'', ''FCVT_WU_S'', ''FCVT_WU_S''),
   (''fcvt_l_s'', ''FCVT_L_S'', ''FCVT_L_S''),
   (''fcvt_lu_s'', ''FCVT_LU_S'', ''FCVT_LU_S''),
   (''fmv_x_w'', ''FMV_X_W'', ''FMV_X_W''),
   (''fclass_s'', ''FCLASS_S'', ''FCLASS_S''),
   (''fcvt_w_d'', ''FCVT_W_D'', ''FCVT_W_D''),
   (''fcvt_wu_d'', ''FCVT_WU_D'', ''FCVT_WU_D''),
   (''fcvt_l_d'', ''FCVT_L_D'', ''FCVT_L_D''),
   (''fcvt_lu_d'', ''FCVT_LU_D'', ''FCVT_LU_D''),
   (''fmv_x_d'', ''FMV_X_D'', ''FMV_X_D''),
   (''fclass_d'', ''FCLASS_D'', ''FCLASS_D''),
   (''fcvt_w_q'', ''FCVT_W_Q'', ''FCVT_W_Q''),
   (''fcvt_wu_q'', ''FCVT_WU_Q'', ''FCVT_WU_Q''),
   (''fcvt_l_q'', ''FCVT_L_Q'', ''FCVT_L_Q''),
   (''fcvt_lu_q'', ''FCVT_LU_Q'', ''FCVT_LU_Q''),
   (''fmv_x_q'', ''FMV_X_Q'', ''FMV_X_Q''),
   (''fclass_q'', ''FCLASS_Q'', ''FCLASS_Q''),
   (''fcvt_s_w'', ''FCVT_S_W'', ''FCVT_S_W''),
   (''fcvt_s_wu'', ''FCVT_S_WU'', ''FCVT_S_WU''),
   (''fcvt_s_l'', ''FCVT_S_L'', ''FCVT_S_L''),
   (''fcvt_s_lu'', ''FCVT_S_LU'', ''FCVT_S_LU''),
   (''fmv_w_x'', ''FMV_W_X'', ''FMV_W_X''),
   (''fcvt_d_w'', ''FCVT_D_W'', ''FCVT_D_W''),
   (''fcvt_d_wu'', ''FCVT_D_WU'', ''FCVT_D_WU''),
   (''fcvt_d_l'', ''FCVT_D_L'', ''FCVT_D_L''),
   (''fcvt_d_lu'', ''FCVT_D_LU'', ''FCVT_D_LU''),
   (''fmv_d_x'', ''FMV_D_X'', ''FMV_D_X''),
   (''fcvt_q_w'', ''FCVT_Q_W'', ''FCVT_Q_W''),
   (''fcvt_q_wu'', ''FCVT_Q_WU'', ''FCVT_Q_WU''),
   (''fcvt_q_l'', ''FCVT_Q_L'', ''FCVT_Q_L''),
   (''fcvt_q_lu'', ''FCVT_Q_LU'', ''FCVT_Q_LU''),
   (''fmv_q_x'', ''FMV_Q_X'', ''FMV_Q_X''),
   (''flw'', ''FLW'', ''FLW''),
   (''fld'', ''FLD'', ''FLD''),
   (''flq'', ''FLQ'', ''FLQ''),
   (''fsw'', ''FSW'', ''FSW''),
   (''fsd'', ''FSD'', ''FSD''),
   (''fsq'', ''FSQ'', ''FSQ''),
   (''fmadd_s'', ''FMADD_S'', ''FMADD_S''),
   (''fmsub_s'', ''FMSUB_S'', ''FMSUB_S''),
   (''fnmsub_s'', ''FNMSUB_S'', ''FNMSUB_S''),
   (''fnmadd_s'', ''FNMADD_S'', ''FNMADD_S''),
   (''fmadd_d'', ''FMADD_D'', ''FMADD_D''),
   (''fmsub_d'', ''FMSUB_D'', ''FMSUB_D''),
   (''fnmsub_d'', ''FNMSUB_D'', ''FNMSUB_D''),
   (''fnmadd_d'', ''FNMADD_D'', ''FNMADD_D''),
   (''fmadd_q'', ''FMADD_Q'', ''FMADD_Q''),
   (''fmsub_q'', ''FMSUB_Q'', ''FMSUB_Q''),
   (''fnmsub_q'', ''FNMSUB_Q'', ''FNMSUB_Q''),
   (''fnmadd_q'', ''FNMADD_Q'', ''FNMADD_Q''),
   (''c_nop'', ''C_NOP'', ''C_NOP''),
   (''c_addi16sp'', ''C_ADDI16SP'', ''C_ADDI16SP''),
   (''c_jr'', ''C_JR'', ''C_JR''),
   (''c_jalr'', ''C_JALR'', ''C_JALR''),
   (''c_ebreak'', ''C_EBREAK'', ''C_EBREAK''),
   (''c_ld'', ''C_LD'', ''C_LD''),
   (''c_sd'', ''C_SD'', ''C_SD''),
   (''c_addiw'', ''C_ADDIW'', ''C_ADDIW''),
   (''c_ldsp'', ''C_LDSP'', ''C_LDSP''),
   (''c_sdsp'', ''C_SDSP'', ''C_SDSP''),
   (''c_addi4spn'', ''C_ADDI4SPN'', ''C_ADDI4SPN''),
   (''c_fld'', ''C_FLD'', ''C_FLD''),
   (''c_lw'', ''C_LW'', ''C_LW''),
   (''c_flw'', ''C_FLW'', ''C_FLW''),
   (''c_fsd'', ''C_FSD'', ''C_FSD''),
   (''c_sw'', ''C_SW'', ''C_SW''),
   (''c_fsw'', ''C_FSW'', ''C_FSW''),
   (''c_addi'', ''C_ADDI'', ''C_ADDI''),
   (''c_jal'', ''C_JAL'', ''C_JAL''),
   (''c_li'', ''C_LI'', ''C_LI''),
   (''c_lui'', ''C_LUI'', ''C_LUI''),
   (''c_srli'', ''C_SRLI'', ''C_SRLI''),
   (''c_srai'', ''C_SRAI'', ''C_SRAI''),
   (''c_andi'', ''C_ANDI'', ''C_ANDI''),
   (''c_sub'', ''C_SUB'', ''C_SUB''),
   (''c_xor'', ''C_XOR'', ''C_XOR''),
   (''c_or'', ''C_OR'', ''C_OR''),
   (''c_and'', ''C_AND'', ''C_AND''),
   (''c_subw'', ''C_SUBW'', ''C_SUBW''),
   (''c_addw'', ''C_ADDW'', ''C_ADDW''),
   (''c_j'', ''C_J'', ''C_J''),
   (''c_beqz'', ''C_BEQZ'', ''C_BEQZ''),
   (''c_bnez'', ''C_BNEZ'', ''C_BNEZ''),
   (''c_slli'', ''C_SLLI'', ''C_SLLI''),
   (''c_fldsp'', ''C_FLDSP'', ''C_FLDSP''),
   (''c_lwsp'', ''C_LWSP'', ''C_LWSP''),
   (''c_flwsp'', ''C_FLWSP'', ''C_FLWSP''),
   (''c_mv'', ''C_MV'', ''C_MV''),
   (''c_add'', ''C_ADD'', ''C_ADD''),
   (''c_fsdsp'', ''C_FSDSP'', ''C_FSDSP''),
   (''c_swsp'', ''C_SWSP'', ''C_SWSP''),
   (''c_fswsp'', ''C_FSWSP'', ''C_FSWSP''),
   (''custom0'', ''CUSTOM0'', ''CUSTOM0''),
   (''custom0_rs1'', ''CUSTOM0_RS1'', ''CUSTOM0_RS1''),
   (''custom0_rs1_rs2'', ''CUSTOM0_RS1_RS2'', ''CUSTOM0_RS1_RS2''),
   (''custom0_rd'', ''CUSTOM0_RD'', ''CUSTOM0_RD''),
   (''custom0_rd_rs1'', ''CUSTOM0_RD_RS1'', ''CUSTOM0_RD_RS1''),
   (''custom0_rd_rs1_rs2'', ''CUSTOM0_RD_RS1_RS2'', ''CUSTOM0_RD_RS1_RS2''),
   (''custom1'', ''CUSTOM1'', ''CUSTOM1''),
   (''custom1_rs1'', ''CUSTOM1_RS1'', ''CUSTOM1_RS1''),
   (''custom1_rs1_rs2'', ''CUSTOM1_RS1_RS2'', ''CUSTOM1_RS1_RS2''),
   (''custom1_rd'', ''CUSTOM1_RD'', ''CUSTOM1_RD''),
   (''custom1_rd_rs1'', ''CUSTOM1_RD_RS1'', ''CUSTOM1_RD_RS1''),
   (''custom1_rd_rs1_rs2'', ''CUSTOM1_RD_RS1_RS2'', ''CUSTOM1_RD_RS1_RS2''),
   (''custom2'', ''CUSTOM2'', ''CUSTOM2''),
   (''custom2_rs1'', ''CUSTOM2_RS1'', ''CUSTOM2_RS1''),
   (''custom2_rs1_rs2'', ''CUSTOM2_RS1_RS2'', ''CUSTOM2_RS1_RS2''),
   (''custom2_rd'', ''CUSTOM2_RD'', ''CUSTOM2_RD''),
   (''custom2_rd_rs1'', ''CUSTOM2_RD_RS1'', ''CUSTOM2_RD_RS1''),
   (''custom2_rd_rs1_rs2'', ''CUSTOM2_RD_RS1_RS2'', ''CUSTOM2_RD_RS1_RS2''),
   (''custom3'', ''CUSTOM3'', ''CUSTOM3''),
   (''custom3_rs1'', ''CUSTOM3_RS1'', ''CUSTOM3_RS1''),
   (''custom3_rs1_rs2'', ''CUSTOM3_RS1_RS2'', ''CUSTOM3_RS1_RS2''),
   (''custom3_rd'', ''CUSTOM3_RD'', ''CUSTOM3_RD''),
   (''custom3_rd_rs1'', ''CUSTOM3_RD_RS1'', ''CUSTOM3_RD_RS1''),
   (''custom3_rd_rs1_rs2'', ''CUSTOM3_RD_RS1_RS2'', ''CUSTOM3_RD_RS1_RS2'')]"

definition declare_insns :: "(string \<times> string \<times> string) list" where
  "declare_insns = declare_insns_1 @ declare_insns_2"

subsection \<open>Decoding\<close>

definition matches :: "u32 \<Rightarrow> u32 \<times> u32 \<Rightarrow> bool" where
  "matches w c \<longleftrightarrow> w AND snd c = fst c"

text \<open>The rows of the table that a word is an instance of.\<close>

definition decode_insn :: "insn_row list \<Rightarrow> u32 \<Rightarrow> string list" where
  "decode_insn rows w = map fst (filter (\<lambda>r. matches w (snd r)) rows)"

text \<open>
  A decision procedure for "no word matches two rows": split the rows by the bits that all of
  them fix, and recurse into each part.
\<close>

fun common_mask :: "int \<Rightarrow> (int \<times> int) list \<Rightarrow> int" where
  "common_mask m [] = m"
| "common_mask m ((c, d) # cs) = common_mask (m AND d) cs"

fun cons_if :: "bool \<Rightarrow> 'a \<Rightarrow> 'a list \<Rightarrow> 'a list" where
  "cons_if True x xs = x # xs"
| "cons_if False x xs = xs"

fun tag :: "int \<Rightarrow> (int \<times> int) list \<Rightarrow> (int \<times> int \<times> int) list" where
  "tag m [] = []"
| "tag m ((c, d) # cs) = (c AND m, c, d) # tag m cs"

fun pick :: "'k \<Rightarrow> ('k \<times> 'a) list \<Rightarrow> 'a list" where
  "pick k [] = []"
| "pick k ((x, c) # xs) = cons_if (x = k) c (pick k xs)"

fun mem :: "'a \<Rightarrow> 'a list \<Rightarrow> bool" where
  "mem x [] = False"
| "mem x (y # ys) = (x = y \<or> mem x ys)"

definition add_key :: "int \<Rightarrow> int list \<Rightarrow> int list" where
  "add_key k ks = cons_if (\<not> mem k ks) k ks"

fun keys :: "int list \<Rightarrow> (int \<times> 'a) list \<Rightarrow> int list" where
  "keys ks [] = ks"
| "keys ks ((x, c) # xs) = keys (add_key x ks) xs"

fun parts_all :: "('a list \<Rightarrow> bool) \<Rightarrow> int list \<Rightarrow> (int \<times> 'a) list \<Rightarrow> bool" where
  "parts_all P [] xs = True"
| "parts_all P (k # ks) xs = (P (pick k xs) \<and> parts_all P ks xs)"

definition split_all :: "('a list \<Rightarrow> bool) \<Rightarrow> (int \<times> 'a) list \<Rightarrow> bool" where
  "split_all P xs = parts_all P (keys [] xs) xs"

fun separated :: "nat \<Rightarrow> (int \<times> int) list \<Rightarrow> bool" where
  "separated 0 cs = (length cs \<le> 1)"
| "separated (Suc n) cs = split_all (separated n) (tag (common_mask (- 1) cs) cs)"

fun int_codes :: "insn_row list \<Rightarrow> (int \<times> int) list" where
  "int_codes [] = []"
| "int_codes ((x, c, d) # rs) = (uint c, uint d) # int_codes rs"

definition imatch :: "int \<Rightarrow> int \<times> int \<Rightarrow> bool" where
  "imatch v c \<longleftrightarrow> v AND snd c = fst c"

lemma and_below: "a AND (m AND y) = a \<Longrightarrow> a AND m = a \<and> y AND a = a" for a m y :: int
  by (metis and.assoc and.commute and.idem)

lemma common_mask_le: "common_mask m cs AND m = common_mask m cs"
proof (induction m cs rule: common_mask.induct)
  case (2 m c d cs)
  then show ?case by (simp add: and_below [OF 2])
qed simp

lemma common_mask_below: "c \<in> set cs \<Longrightarrow> snd c AND common_mask m cs = common_mask m cs"
proof (induction m cs rule: common_mask.induct)
  case (2 m x d cs)
  show ?case
  proof (cases "c = (x, d)")
    case True
    then show ?thesis using and_below [OF common_mask_le [of "m AND d" cs]] by simp
  next
    case False
    with 2 show ?thesis by simp
  qed
qed simp

lemma cons_if_eq: "cons_if b x xs = (if b then x # xs else xs)"
  by (cases b) simp_all

lemma pick_tag: "pick k (tag m cs) = filter (\<lambda>c. fst c AND m = k) cs"
  by (induction cs rule: tag.induct [of _ m for m]) (auto simp: cons_if_eq)

lemma set_tag: "fst ` set (tag m cs) = (\<lambda>c. fst c AND m) ` set cs"
  by (induction m cs rule: tag.induct) auto

lemma set_keys: "set (keys ks xs) = set ks \<union> fst ` set xs"
proof -
  have "mem x ys \<longleftrightarrow> x \<in> set ys" for x :: int and ys by (induction ys) auto
  then show ?thesis
    by (induction ks xs rule: keys.induct) (auto simp: add_key_def cons_if_eq)
qed

lemma parts_all_iff: "parts_all P ks xs \<longleftrightarrow> (\<forall>k\<in>set ks. P (pick k xs))"
  by (induction ks) auto

lemma separated_sound: "separated n cs \<Longrightarrow> length (filter (imatch v) cs) \<le> 1"
proof (induction n arbitrary: cs)
  case 0
  then have "length cs \<le> 1" by simp
  with length_filter_le [of "imatch v" cs] show ?case by (rule le_trans)
next
  case (Suc n)
  let ?m = "common_mask (- 1) cs"
  let ?key = "\<lambda>c. fst c AND ?m"
  have all: "separated n (filter (\<lambda>c. ?key c = k) cs)" if "k \<in> ?key ` set cs" for k
    using Suc.prems that
    by (simp only: separated.simps split_all_def parts_all_iff set_keys set_tag pick_tag) blast
  have key: "?key c = v AND ?m" if "c \<in> set cs" "imatch v c" for c
  proof -
    have "v AND ?m = v AND (snd c AND ?m)" using common_mask_below [OF that(1)] by simp
    also have "\<dots> = (v AND snd c) AND ?m" by (simp only: and.assoc)
    also have "\<dots> = ?key c" using that(2) by (simp add: imatch_def)
    finally show ?thesis by simp
  qed
  then have f: "filter (imatch v) cs = filter (imatch v) (filter (\<lambda>c. ?key c = v AND ?m) cs)"
    by (auto simp: filter_filter intro: filter_cong)
  show ?case
  proof (cases "v AND ?m \<in> ?key ` set cs")
    case True
    from Suc.IH [OF all [OF True]] show ?thesis by (simp only: f)
  next
    case False
    then have "filter (imatch v) cs = []" using key by (force simp: filter_empty_conv)
    then show ?thesis by simp
  qed
qed

lemmas insn_code_tables = insn_codes_1_def insn_codes_2_def insn_codes_3_def insn_codes_4_def
  insn_codes_rvc_aliases_def

text \<open>Five rounds separate the table.\<close>

lemma codes_separated:
  "separated (Suc (Suc (Suc (Suc (Suc 0))))) (int_codes (insn_codes_1 @ insn_codes_2 @ insn_codes_3 @ insn_codes_4))"
  by (simp add: insn_code_tables add_key_def split_all_def)

lemma int_codes_decode: "length (filter (imatch (uint w)) (int_codes rows)) = length (decode_insn rows w)"
  by (induction rows rule: int_codes.induct)
    (auto simp: decode_insn_def imatch_def matches_def word_uint_eq_iff uint_and)

text \<open>Lower case: \<open>0x20\<close> is added to the characters \<open>0x40\<close> to \<open>0x5E\<close>, so \<open>_\<close> stays.\<close>

fun lower_char :: "char \<Rightarrow> char" where
  "lower_char (Char b0 b1 b2 b3 b4 b5 b6 b7) =
     Char b0 b1 b2 b3 b4 (b5 \<or> (b6 \<and> \<not> b7 \<and> \<not> (b0 \<and> b1 \<and> b2 \<and> b3 \<and> b4))) b6 b7"

subsection \<open>Properties\<close>

text \<open>
  C26 (unambiguous codes). Each \<open>MATCH_X\<close> lies within its \<open>MASK_X\<close>, and, apart from the ten
  rows in front of the compressed part (special cases of a later row, and RV64 forms that share
  a code with an RV32 form), no 32-bit word is an instance of two instructions of the table: a
  disassembler built from \<open>DECLARE_INSN\<close> gives one answer.
\<close>

theorem insn_codes_unambiguous:
  "list_all (\<lambda>(x, m, k). m AND k = m) insn_codes \<and>
   length (decode_insn (insn_codes_1 @ insn_codes_2 @ insn_codes_3 @ insn_codes_4) w) \<le> 1"
proof
  show "list_all (\<lambda>(x, m, k). m AND k = m) insn_codes" by (simp add: insn_codes_def insn_code_tables)
  show "length (decode_insn (insn_codes_1 @ insn_codes_2 @ insn_codes_3 @ insn_codes_4) w) \<le> 1"
    using separated_sound [OF codes_separated, of "uint w"] by (simp only: int_codes_decode)
qed

text \<open>The declarations name the table's rows.\<close>

lemma declared_insns:
  "map (\<lambda>(mnemonic, x, y). (x, y)) declare_insns = map (\<lambda>r. (fst r, fst r)) insn_codes \<and>
   list_all (\<lambda>(mnemonic, x, y). mnemonic = map lower_char x) declare_insns"
proof
  show "map (\<lambda>(mnemonic, x, y). (x, y)) declare_insns = map (\<lambda>r. (fst r, fst r)) insn_codes"
    by (simp add: declare_insns_def declare_insns_1_def declare_insns_2_def insn_codes_def insn_code_tables)
  show "list_all (\<lambda>(mnemonic, x, y). mnemonic = map lower_char x) declare_insns"
    by (simp add: declare_insns_def declare_insns_1_def declare_insns_2_def)
qed

end
