(* ===== verification/Encoding_Micro.thy ===== *)
theory Encoding_Micro
  imports Encoding Encoding_Insns Encoding_CSRs
begin

section \<open>The second copy of encoding.h\<close>

text \<open>
  \<open>micro-arch-tests/performance_tests/micro-arch-tests/env/encoding.h\<close> is the copy of the
  header that the compliance-style tests include. Its tables are modelled row by row like those
  of \<open>Encoding\<close>, \<open>Encoding_Insns\<close> and \<open>Encoding_CSRs\<close>; the theorem below says in
  what the two copies differ. (Its CSR access macros are the same text and are not repeated.)
\<close>

subsection \<open>Register fields\<close>

definition micro_mstatus_fields :: "(string \<times> u64) list" where
  "micro_mstatus_fields = [
   (''MSTATUS_UIE'', 0x00000001),
   (''MSTATUS_SIE'', 0x00000002),
   (''MSTATUS_HIE'', 0x00000004),
   (''MSTATUS_MIE'', 0x00000008),
   (''MSTATUS_UPIE'', 0x00000010),
   (''MSTATUS_SPIE'', 0x00000020),
   (''MSTATUS_HPIE'', 0x00000040),
   (''MSTATUS_MPIE'', 0x00000080),
   (''MSTATUS_SPP'', 0x00000100),
   (''MSTATUS_HPP'', 0x00000600),
   (''MSTATUS_MPP'', 0x00001800),
   (''MSTATUS_FS'', 0x00006000),
   (''MSTATUS_XS'', 0x00018000),
   (''MSTATUS_MPRV'', 0x00020000),
   (''MSTATUS_SUM'', 0x00040000),
   (''MSTATUS_MXR'', 0x00080000),
   (''MSTATUS_TVM'', 0x00100000),
   (''MSTATUS_TW'', 0x00200000),
   (''MSTATUS_TSR'', 0x00400000),
   (''MSTATUS32_SD'', 0x80000000),
   (''MSTATUS_UXL'', 0x0000000300000000),
   (''MSTATUS_SXL'', 0x0000000C00000000),
   (''MSTATUS64_SD'', 0x8000000000000000)]"

definition micro_sstatus_fields :: "(string \<times> u64) list" where
  "micro_sstatus_fields = [
   (''SSTATUS_UIE'', 0x00000001),
   (''SSTATUS_SIE'', 0x00000002),
   (''SSTATUS_UPIE'', 0x00000010),
   (''SSTATUS_SPIE'', 0x00000020),
   (''SSTATUS_SPP'', 0x00000100),
   (''SSTATUS_FS'', 0x00006000),
   (''SSTATUS_XS'', 0x00018000),
   (''SSTATUS_SUM'', 0x00040000),
   (''SSTATUS_MXR'', 0x00080000),
   (''SSTATUS32_SD'', 0x80000000),
   (''SSTATUS_UXL'', 0x0000000300000000),
   (''SSTATUS64_SD'', 0x8000000000000000)]"

definition micro_dcsr_fields :: "(string \<times> u64) list" where
  "micro_dcsr_fields = [
   (''DCSR_XDEBUGVER'', push_bit 30 3),
   (''DCSR_NDRESET'', push_bit 29 1),
   (''DCSR_FULLRESET'', push_bit 28 1),
   (''DCSR_EBREAKM'', push_bit 15 1),
   (''DCSR_EBREAKH'', push_bit 14 1),
   (''DCSR_EBREAKS'', push_bit 13 1),
   (''DCSR_EBREAKU'', push_bit 12 1),
   (''DCSR_STOPCYCLE'', push_bit 10 1),
   (''DCSR_STOPTIME'', push_bit 9 1),
   (''DCSR_CAUSE'', push_bit 6 7),
   (''DCSR_DEBUGINT'', push_bit 5 1),
   (''DCSR_HALT'', push_bit 3 1),
   (''DCSR_STEP'', push_bit 2 1),
   (''DCSR_PRV'', push_bit 0 3)]"

definition micro_dcsr_causes :: "(string \<times> u64) list" where
  "micro_dcsr_causes = [
   (''DCSR_CAUSE_NONE'', 0),
   (''DCSR_CAUSE_SWBP'', 1),
   (''DCSR_CAUSE_HWBP'', 2),
   (''DCSR_CAUSE_DEBUGINT'', 3),
   (''DCSR_CAUSE_STEP'', 4),
   (''DCSR_CAUSE_HALT'', 5)]"

definition micro_mcontrol_fields :: "(string \<times> u64) list" where
  "micro_mcontrol_fields = [
   (''MCONTROL_SELECT'', push_bit 19 1),
   (''MCONTROL_TIMING'', push_bit 18 1),
   (''MCONTROL_ACTION'', push_bit 12 0x3f),
   (''MCONTROL_CHAIN'', push_bit 11 1),
   (''MCONTROL_MATCH'', push_bit 7 0xf),
   (''MCONTROL_M'', push_bit 6 1),
   (''MCONTROL_H'', push_bit 5 1),
   (''MCONTROL_S'', push_bit 4 1),
   (''MCONTROL_U'', push_bit 3 1),
   (''MCONTROL_EXECUTE'', push_bit 2 1),
   (''MCONTROL_STORE'', push_bit 1 1),
   (''MCONTROL_LOAD'', push_bit 0 1)]"

definition micro_mcontrol_values :: "(string \<times> u64) list" where
  "micro_mcontrol_values = [
   (''MCONTROL_TYPE_NONE'', 0),
   (''MCONTROL_TYPE_MATCH'', 2),
   (''MCONTROL_ACTION_DEBUG_EXCEPTION'', 0),
   (''MCONTROL_ACTION_DEBUG_MODE'', 1),
   (''MCONTROL_ACTION_TRACE_START'', 2),
   (''MCONTROL_ACTION_TRACE_STOP'', 3),
   (''MCONTROL_ACTION_TRACE_EMIT'', 4),
   (''MCONTROL_MATCH_EQUAL'', 0),
   (''MCONTROL_MATCH_NAPOT'', 1),
   (''MCONTROL_MATCH_GE'', 2),
   (''MCONTROL_MATCH_LT'', 3),
   (''MCONTROL_MATCH_MASK_LOW'', 4),
   (''MCONTROL_MATCH_MASK_HIGH'', 5)]"

definition micro_mip_fields :: "(string \<times> u64) list" where
  "micro_mip_fields = [
   (''MIP_SSIP'', push_bit 1 1),
   (''MIP_HSIP'', push_bit 2 1),
   (''MIP_MSIP'', push_bit 3 1),
   (''MIP_STIP'', push_bit 5 1),
   (''MIP_HTIP'', push_bit 6 1),
   (''MIP_MTIP'', push_bit 7 1),
   (''MIP_SEIP'', push_bit 9 1),
   (''MIP_HEIP'', push_bit 10 1),
   (''MIP_MEIP'', push_bit 11 1),
   (''MIP_MCOUNTERIP'', push_bit 16 1),
   (''SIP_SSIP'', push_bit 1 1),
   (''SIP_STIP'', push_bit 5 1)]"

definition micro_privilege_levels :: "(string \<times> u64) list" where
  "micro_privilege_levels = [
   (''PRV_U'', 0),
   (''PRV_S'', 1),
   (''PRV_H'', 2),
   (''PRV_M'', 3)]"

definition micro_satp_fields :: "(string \<times> u64) list" where
  "micro_satp_fields = [
   (''SATP32_MODE'', 0x80000000),
   (''SATP32_ASID'', 0x7FC00000),
   (''SATP32_PPN'', 0x003FFFFF),
   (''SATP64_MODE'', 0xF000000000000000),
   (''SATP64_ASID'', 0x0FFFF00000000000),
   (''SATP64_PPN'', 0x00000FFFFFFFFFFF)]"

definition micro_satp_modes :: "(string \<times> u64) list" where
  "micro_satp_modes = [
   (''SATP_MODE_OFF'', 0),
   (''SATP_MODE_SV32'', 1),
   (''SATP_MODE_SV39'', 8),
   (''SATP_MODE_SV48'', 9),
   (''SATP_MODE_SV57'', 10),
   (''SATP_MODE_SV64'', 11)]"

definition micro_pmp_fields :: "(string \<times> u64) list" where
  "micro_pmp_fields = [
   (''PMP_R'', 0x01),
   (''PMP_W'', 0x02),
   (''PMP_X'', 0x04),
   (''PMP_A'', 0x18),
   (''PMP_L'', 0x80),
   (''PMP_SHIFT'', 2),
   (''PMP_TOR'', 0x08),
   (''PMP_NA4'', 0x10),
   (''PMP_NAPOT'', 0x18)]"

definition micro_irq_numbers :: "(string \<times> u64) list" where
  "micro_irq_numbers = [
   (''IRQ_S_SOFT'', 1),
   (''IRQ_H_SOFT'', 2),
   (''IRQ_M_SOFT'', 3),
   (''IRQ_S_TIMER'', 5),
   (''IRQ_H_TIMER'', 6),
   (''IRQ_M_TIMER'', 7),
   (''IRQ_S_EXT'', 9),
   (''IRQ_H_EXT'', 10),
   (''IRQ_M_EXT'', 11),
   (''IRQ_COP'', 12),
   (''IRQ_HOST'', 13),
   (''IRQ_COUNTERIP'', 16)]"

definition micro_memory_map :: "(string \<times> u64) list" where
  "micro_memory_map = [
   (''DEFAULT_RSTVEC'', 0x00001000),
   (''CLINT_BASE'', 0x02000000),
   (''CLINT_SIZE'', 0x000c0000),
   (''EXT_IO_BASE'', 0x40000000),
   (''DRAM_BASE'', 0x80000000)]"

definition micro_pte_fields :: "(string \<times> u64) list" where
  "micro_pte_fields = [
   (''PTE_V'', 0x001),
   (''PTE_R'', 0x002),
   (''PTE_W'', 0x004),
   (''PTE_X'', 0x008),
   (''PTE_U'', 0x010),
   (''PTE_G'', 0x020),
   (''PTE_A'', 0x040),
   (''PTE_D'', 0x080),
   (''PTE_SOFT'', 0x300),
   (''PTE_PPN_SHIFT'', 10)]"

subsection \<open>Instructions\<close>

definition micro_insn_codes_1 :: "insn_row list" where
  "micro_insn_codes_1 = [
   (''BEQ'', 0x63, 0x707f),
   (''BNE'', 0x1063, 0x707f),
   (''BLT'', 0x4063, 0x707f),
   (''BGE'', 0x5063, 0x707f),
   (''BLTU'', 0x6063, 0x707f),
   (''BGEU'', 0x7063, 0x707f),
   (''JALR'', 0x67, 0x707f),
   (''JAL'', 0x6f, 0x7f),
   (''LUI'', 0x37, 0x7f),
   (''AUIPC'', 0x17, 0x7f),
   (''ADDI'', 0x13, 0x707f),
   (''SLLI'', 0x1013, 0xfc00707f),
   (''SLTI'', 0x2013, 0x707f),
   (''SLTIU'', 0x3013, 0x707f),
   (''XORI'', 0x4013, 0x707f),
   (''SRLI'', 0x5013, 0xfc00707f),
   (''SRAI'', 0x40005013, 0xfc00707f),
   (''ORI'', 0x6013, 0x707f),
   (''ANDI'', 0x7013, 0x707f),
   (''ADD'', 0x33, 0xfe00707f),
   (''SUB'', 0x40000033, 0xfe00707f),
   (''SLL'', 0x1033, 0xfe00707f),
   (''SLT'', 0x2033, 0xfe00707f),
   (''SLTU'', 0x3033, 0xfe00707f),
   (''XOR'', 0x4033, 0xfe00707f),
   (''SRL'', 0x5033, 0xfe00707f),
   (''SRA'', 0x40005033, 0xfe00707f),
   (''OR'', 0x6033, 0xfe00707f),
   (''AND'', 0x7033, 0xfe00707f),
   (''ADDIW'', 0x1b, 0x707f),
   (''SLLIW'', 0x101b, 0xfe00707f),
   (''SRLIW'', 0x501b, 0xfe00707f),
   (''SRAIW'', 0x4000501b, 0xfe00707f),
   (''ADDW'', 0x3b, 0xfe00707f),
   (''SUBW'', 0x4000003b, 0xfe00707f),
   (''SLLW'', 0x103b, 0xfe00707f),
   (''SRLW'', 0x503b, 0xfe00707f),
   (''SRAW'', 0x4000503b, 0xfe00707f),
   (''LB'', 0x3, 0x707f),
   (''LH'', 0x1003, 0x707f),
   (''LW'', 0x2003, 0x707f),
   (''LD'', 0x3003, 0x707f),
   (''LBU'', 0x4003, 0x707f),
   (''LHU'', 0x5003, 0x707f),
   (''LWU'', 0x6003, 0x707f),
   (''SB'', 0x23, 0x707f),
   (''SH'', 0x1023, 0x707f),
   (''SW'', 0x2023, 0x707f),
   (''SD'', 0x3023, 0x707f),
   (''FENCE'', 0xf, 0x707f),
   (''FENCE_I'', 0x100f, 0x707f),
   (''MUL'', 0x2000033, 0xfe00707f),
   (''MULH'', 0x2001033, 0xfe00707f),
   (''MULHSU'', 0x2002033, 0xfe00707f),
   (''MULHU'', 0x2003033, 0xfe00707f),
   (''DIV'', 0x2004033, 0xfe00707f),
   (''DIVU'', 0x2005033, 0xfe00707f),
   (''REM'', 0x2006033, 0xfe00707f),
   (''REMU'', 0x2007033, 0xfe00707f),
   (''MULW'', 0x200003b, 0xfe00707f),
   (''DIVW'', 0x200403b, 0xfe00707f),
   (''DIVUW'', 0x200503b, 0xfe00707f),
   (''REMW'', 0x200603b, 0xfe00707f),
   (''REMUW'', 0x200703b, 0xfe00707f),
   (''AMOADD_W'', 0x202f, 0xf800707f),
   (''AMOXOR_W'', 0x2000202f, 0xf800707f)]"

definition micro_insn_codes_2 :: "insn_row list" where
  "micro_insn_codes_2 = [
   (''AMOOR_W'', 0x4000202f, 0xf800707f),
   (''AMOAND_W'', 0x6000202f, 0xf800707f),
   (''AMOMIN_W'', 0x8000202f, 0xf800707f),
   (''AMOMAX_W'', 0xa000202f, 0xf800707f),
   (''AMOMINU_W'', 0xc000202f, 0xf800707f),
   (''AMOMAXU_W'', 0xe000202f, 0xf800707f),
   (''AMOSWAP_W'', 0x800202f, 0xf800707f),
   (''LR_W'', 0x1000202f, 0xf9f0707f),
   (''SC_W'', 0x1800202f, 0xf800707f),
   (''AMOADD_D'', 0x302f, 0xf800707f),
   (''AMOXOR_D'', 0x2000302f, 0xf800707f),
   (''AMOOR_D'', 0x4000302f, 0xf800707f),
   (''AMOAND_D'', 0x6000302f, 0xf800707f),
   (''AMOMIN_D'', 0x8000302f, 0xf800707f),
   (''AMOMAX_D'', 0xa000302f, 0xf800707f),
   (''AMOMINU_D'', 0xc000302f, 0xf800707f),
   (''AMOMAXU_D'', 0xe000302f, 0xf800707f),
   (''AMOSWAP_D'', 0x800302f, 0xf800707f),
   (''LR_D'', 0x1000302f, 0xf9f0707f),
   (''SC_D'', 0x1800302f, 0xf800707f),
   (''ECALL'', 0x73, 0xffffffff),
   (''EBREAK'', 0x100073, 0xffffffff),
   (''URET'', 0x200073, 0xffffffff),
   (''SRET'', 0x10200073, 0xffffffff),
   (''MRET'', 0x30200073, 0xffffffff),
   (''DRET'', 0x7b200073, 0xffffffff),
   (''SFENCE_VMA'', 0x12000073, 0xfe007fff),
   (''WFI'', 0x10500073, 0xffffffff),
   (''CSRRW'', 0x1073, 0x707f),
   (''CSRRS'', 0x2073, 0x707f),
   (''CSRRC'', 0x3073, 0x707f),
   (''CSRRWI'', 0x5073, 0x707f),
   (''CSRRSI'', 0x6073, 0x707f),
   (''CSRRCI'', 0x7073, 0x707f),
   (''FADD_S'', 0x53, 0xfe00007f),
   (''FSUB_S'', 0x8000053, 0xfe00007f),
   (''FMUL_S'', 0x10000053, 0xfe00007f),
   (''FDIV_S'', 0x18000053, 0xfe00007f),
   (''FSGNJ_S'', 0x20000053, 0xfe00707f),
   (''FSGNJN_S'', 0x20001053, 0xfe00707f),
   (''FSGNJX_S'', 0x20002053, 0xfe00707f),
   (''FMIN_S'', 0x28000053, 0xfe00707f),
   (''FMAX_S'', 0x28001053, 0xfe00707f),
   (''FSQRT_S'', 0x58000053, 0xfff0007f),
   (''FADD_D'', 0x2000053, 0xfe00007f),
   (''FSUB_D'', 0xa000053, 0xfe00007f),
   (''FMUL_D'', 0x12000053, 0xfe00007f),
   (''FDIV_D'', 0x1a000053, 0xfe00007f),
   (''FSGNJ_D'', 0x22000053, 0xfe00707f),
   (''FSGNJN_D'', 0x22001053, 0xfe00707f),
   (''FSGNJX_D'', 0x22002053, 0xfe00707f),
   (''FMIN_D'', 0x2a000053, 0xfe00707f),
   (''FMAX_D'', 0x2a001053, 0xfe00707f),
   (''FCVT_S_D'', 0x40100053, 0xfff0007f),
   (''FCVT_D_S'', 0x42000053, 0xfff0007f),
   (''FSQRT_D'', 0x5a000053, 0xfff0007f),
   (''FADD_Q'', 0x6000053, 0xfe00007f),
   (''FSUB_Q'', 0xe000053, 0xfe00007f),
   (''FMUL_Q'', 0x16000053, 0xfe00007f),
   (''FDIV_Q'', 0x1e000053, 0xfe00007f),
   (''FSGNJ_Q'', 0x26000053, 0xfe00707f),
   (''FSGNJN_Q'', 0x26001053, 0xfe00707f),
   (''FSGNJX_Q'', 0x26002053, 0xfe00707f),
   (''FMIN_Q'', 0x2e000053, 0xfe00707f),
   (''FMAX_Q'', 0x2e001053, 0xfe00707f),
   (''FCVT_S_Q'', 0x40300053, 0xfff0007f)]"

definition micro_insn_codes_3 :: "insn_row list" where
  "micro_insn_codes_3 = [
   (''FCVT_Q_S'', 0x46000053, 0xfff0007f),
   (''FCVT_D_Q'', 0x42300053, 0xfff0007f),
   (''FCVT_Q_D'', 0x46100053, 0xfff0007f),
   (''FSQRT_Q'', 0x5e000053, 0xfff0007f),
   (''FLE_S'', 0xa0000053, 0xfe00707f),
   (''FLT_S'', 0xa0001053, 0xfe00707f),
   (''FEQ_S'', 0xa0002053, 0xfe00707f),
   (''FLE_D'', 0xa2000053, 0xfe00707f),
   (''FLT_D'', 0xa2001053, 0xfe00707f),
   (''FEQ_D'', 0xa2002053, 0xfe00707f),
   (''FLE_Q'', 0xa6000053, 0xfe00707f),
   (''FLT_Q'', 0xa6001053, 0xfe00707f),
   (''FEQ_Q'', 0xa6002053, 0xfe00707f),
   (''FCVT_W_S'', 0xc0000053, 0xfff0007f),
   (''FCVT_WU_S'', 0xc0100053, 0xfff0007f),
   (''FCVT_L_S'', 0xc0200053, 0xfff0007f),
   (''FCVT_LU_S'', 0xc0300053, 0xfff0007f),
   (''FMV_X_W'', 0xe0000053, 0xfff0707f),
   (''FCLASS_S'', 0xe0001053, 0xfff0707f),
   (''FCVT_W_D'', 0xc2000053, 0xfff0007f),
   (''FCVT_WU_D'', 0xc2100053, 0xfff0007f),
   (''FCVT_L_D'', 0xc2200053, 0xfff0007f),
   (''FCVT_LU_D'', 0xc2300053, 0xfff0007f),
   (''FMV_X_D'', 0xe2000053, 0xfff0707f),
   (''FCLASS_D'', 0xe2001053, 0xfff0707f),
   (''FCVT_W_Q'', 0xc6000053, 0xfff0007f),
   (''FCVT_WU_Q'', 0xc6100053, 0xfff0007f),
   (''FCVT_L_Q'', 0xc6200053, 0xfff0007f),
   (''FCVT_LU_Q'', 0xc6300053, 0xfff0007f),
   (''FMV_X_Q'', 0xe6000053, 0xfff0707f),
   (''FCLASS_Q'', 0xe6001053, 0xfff0707f),
   (''FCVT_S_W'', 0xd0000053, 0xfff0007f),
   (''FCVT_S_WU'', 0xd0100053, 0xfff0007f),
   (''FCVT_S_L'', 0xd0200053, 0xfff0007f),
   (''FCVT_S_LU'', 0xd0300053, 0xfff0007f),
   (''FMV_W_X'', 0xf0000053, 0xfff0707f),
   (''FCVT_D_W'', 0xd2000053, 0xfff0007f),
   (''FCVT_D_WU'', 0xd2100053, 0xfff0007f),
   (''FCVT_D_L'', 0xd2200053, 0xfff0007f),
   (''FCVT_D_LU'', 0xd2300053, 0xfff0007f),
   (''FMV_D_X'', 0xf2000053, 0xfff0707f),
   (''FCVT_Q_W'', 0xd6000053, 0xfff0007f),
   (''FCVT_Q_WU'', 0xd6100053, 0xfff0007f),
   (''FCVT_Q_L'', 0xd6200053, 0xfff0007f),
   (''FCVT_Q_LU'', 0xd6300053, 0xfff0007f),
   (''FMV_Q_X'', 0xf6000053, 0xfff0707f),
   (''FLW'', 0x2007, 0x707f),
   (''FLD'', 0x3007, 0x707f),
   (''FLQ'', 0x4007, 0x707f),
   (''FSW'', 0x2027, 0x707f),
   (''FSD'', 0x3027, 0x707f),
   (''FSQ'', 0x4027, 0x707f),
   (''FMADD_S'', 0x43, 0x600007f),
   (''FMSUB_S'', 0x47, 0x600007f),
   (''FNMSUB_S'', 0x4b, 0x600007f),
   (''FNMADD_S'', 0x4f, 0x600007f),
   (''FMADD_D'', 0x2000043, 0x600007f),
   (''FMSUB_D'', 0x2000047, 0x600007f),
   (''FNMSUB_D'', 0x200004b, 0x600007f),
   (''FNMADD_D'', 0x200004f, 0x600007f),
   (''FMADD_Q'', 0x6000043, 0x600007f),
   (''FMSUB_Q'', 0x6000047, 0x600007f),
   (''FNMSUB_Q'', 0x600004b, 0x600007f),
   (''FNMADD_Q'', 0x600004f, 0x600007f)]"

definition micro_insn_codes_rvc_aliases :: "insn_row list" where
  "micro_insn_codes_rvc_aliases = [
   (''C_NOP'', 0x1, 0xffff),
   (''C_ADDI16SP'', 0x6101, 0xef83),
   (''C_JR'', 0x8002, 0xf07f),
   (''C_JALR'', 0x9002, 0xf07f),
   (''C_EBREAK'', 0x9002, 0xffff),
   (''C_LD'', 0x6000, 0xe003),
   (''C_SD'', 0xe000, 0xe003),
   (''C_ADDIW'', 0x2001, 0xe003),
   (''C_LDSP'', 0x6002, 0xe003),
   (''C_SDSP'', 0xe002, 0xe003)]"

definition micro_insn_codes_4 :: "insn_row list" where
  "micro_insn_codes_4 = [
   (''C_ADDI4SPN'', 0x0, 0xe003),
   (''C_FLD'', 0x2000, 0xe003),
   (''C_LW'', 0x4000, 0xe003),
   (''C_FLW'', 0x6000, 0xe003),
   (''C_FSD'', 0xa000, 0xe003),
   (''C_SW'', 0xc000, 0xe003),
   (''C_FSW'', 0xe000, 0xe003),
   (''C_ADDI'', 0x1, 0xe003),
   (''C_JAL'', 0x2001, 0xe003),
   (''C_LI'', 0x4001, 0xe003),
   (''C_LUI'', 0x6001, 0xe003),
   (''C_SRLI'', 0x8001, 0xec03),
   (''C_SRAI'', 0x8401, 0xec03),
   (''C_ANDI'', 0x8801, 0xec03),
   (''C_SUB'', 0x8c01, 0xfc63),
   (''C_XOR'', 0x8c21, 0xfc63),
   (''C_OR'', 0x8c41, 0xfc63),
   (''C_AND'', 0x8c61, 0xfc63),
   (''C_SUBW'', 0x9c01, 0xfc63),
   (''C_ADDW'', 0x9c21, 0xfc63),
   (''C_J'', 0xa001, 0xe003),
   (''C_BEQZ'', 0xc001, 0xe003),
   (''C_BNEZ'', 0xe001, 0xe003),
   (''C_SLLI'', 0x2, 0xe003),
   (''C_FLDSP'', 0x2002, 0xe003),
   (''C_LWSP'', 0x4002, 0xe003),
   (''C_FLWSP'', 0x6002, 0xe003),
   (''C_MV'', 0x8002, 0xf003),
   (''C_ADD'', 0x9002, 0xf003),
   (''C_FSDSP'', 0xa002, 0xe003),
   (''C_SWSP'', 0xc002, 0xe003),
   (''C_FSWSP'', 0xe002, 0xe003),
   (''CUSTOM0'', 0xb, 0x707f),
   (''CUSTOM0_RS1'', 0x200b, 0x707f),
   (''CUSTOM0_RS1_RS2'', 0x300b, 0x707f),
   (''CUSTOM0_RD'', 0x400b, 0x707f),
   (''CUSTOM0_RD_RS1'', 0x600b, 0x707f),
   (''CUSTOM0_RD_RS1_RS2'', 0x700b, 0x707f),
   (''CUSTOM1'', 0x2b, 0x707f),
   (''CUSTOM1_RS1'', 0x202b, 0x707f),
   (''CUSTOM1_RS1_RS2'', 0x302b, 0x707f),
   (''CUSTOM1_RD'', 0x402b, 0x707f),
   (''CUSTOM1_RD_RS1'', 0x602b, 0x707f),
   (''CUSTOM1_RD_RS1_RS2'', 0x702b, 0x707f),
   (''CUSTOM2'', 0x5b, 0x707f),
   (''CUSTOM2_RS1'', 0x205b, 0x707f),
   (''CUSTOM2_RS1_RS2'', 0x305b, 0x707f),
   (''CUSTOM2_RD'', 0x405b, 0x707f),
   (''CUSTOM2_RD_RS1'', 0x605b, 0x707f),
   (''CUSTOM2_RD_RS1_RS2'', 0x705b, 0x707f),
   (''CUSTOM3'', 0x7b, 0x707f),
   (''CUSTOM3_RS1'', 0x207b, 0x707f),
   (''CUSTOM3_RS1_RS2'', 0x307b, 0x707f),
   (''CUSTOM3_RD'', 0x407b, 0x707f),
   (''CUSTOM3_RD_RS1'', 0x607b, 0x707f),
   (''CUSTOM3_RD_RS1_RS2'', 0x707b, 0x707f)]"

definition micro_declare_insns_1 :: "(string \<times> string \<times> string) list" where
  "micro_declare_insns_1 = [
   (''beq'', ''BEQ'', ''BEQ''),
   (''bne'', ''BNE'', ''BNE''),
   (''blt'', ''BLT'', ''BLT''),
   (''bge'', ''BGE'', ''BGE''),
   (''bltu'', ''BLTU'', ''BLTU''),
   (''bgeu'', ''BGEU'', ''BGEU''),
   (''jalr'', ''JALR'', ''JALR''),
   (''jal'', ''JAL'', ''JAL''),
   (''lui'', ''LUI'', ''LUI''),
   (''auipc'', ''AUIPC'', ''AUIPC''),
   (''addi'', ''ADDI'', ''ADDI''),
   (''slli'', ''SLLI'', ''SLLI''),
   (''slti'', ''SLTI'', ''SLTI''),
   (''sltiu'', ''SLTIU'', ''SLTIU''),
   (''xori'', ''XORI'', ''XORI''),
   (''srli'', ''SRLI'', ''SRLI''),
   (''srai'', ''SRAI'', ''SRAI''),
   (''ori'', ''ORI'', ''ORI''),
   (''andi'', ''ANDI'', ''ANDI''),
   (''add'', ''ADD'', ''ADD''),
   (''sub'', ''SUB'', ''SUB''),
   (''sll'', ''SLL'', ''SLL''),
   (''slt'', ''SLT'', ''SLT''),
   (''sltu'', ''SLTU'', ''SLTU''),
   (''xor'', ''XOR'', ''XOR''),
   (''srl'', ''SRL'', ''SRL''),
   (''sra'', ''SRA'', ''SRA''),
   (''or'', ''OR'', ''OR''),
   (''and'', ''AND'', ''AND''),
   (''addiw'', ''ADDIW'', ''ADDIW''),
   (''slliw'', ''SLLIW'', ''SLLIW''),
   (''srliw'', ''SRLIW'', ''SRLIW''),
   (''sraiw'', ''SRAIW'', ''SRAIW''),
   (''addw'', ''ADDW'', ''ADDW''),
   (''subw'', ''SUBW'', ''SUBW''),
   (''sllw'', ''SLLW'', ''SLLW''),
   (''srlw'', ''SRLW'', ''SRLW''),
   (''sraw'', ''SRAW'', ''SRAW''),
   (''lb'', ''LB'', ''LB''),
   (''lh'', ''LH'', ''LH''),
   (''lw'', ''LW'', ''LW''),
   (''ld'', ''LD'', ''LD''),
   (''lbu'', ''LBU'', ''LBU''),
   (''lhu'', ''LHU'', ''LHU''),
   (''lwu'', ''LWU'', ''LWU''),
   (''sb'', ''SB'', ''SB''),
   (''sh'', ''SH'', ''SH''),
   (''sw'', ''SW'', ''SW''),
   (''sd'', ''SD'', ''SD''),
   (''fence'', ''FENCE'', ''FENCE''),
   (''fence_i'', ''FENCE_I'', ''FENCE_I''),
   (''mul'', ''MUL'', ''MUL''),
   (''mulh'', ''MULH'', ''MULH''),
   (''mulhsu'', ''MULHSU'', ''MULHSU''),
   (''mulhu'', ''MULHU'', ''MULHU''),
   (''div'', ''DIV'', ''DIV''),
   (''divu'', ''DIVU'', ''DIVU''),
   (''rem'', ''REM'', ''REM''),
   (''remu'', ''REMU'', ''REMU''),
   (''mulw'', ''MULW'', ''MULW''),
   (''divw'', ''DIVW'', ''DIVW''),
   (''divuw'', ''DIVUW'', ''DIVUW''),
   (''remw'', ''REMW'', ''REMW''),
   (''remuw'', ''REMUW'', ''REMUW''),
   (''amoadd_w'', ''AMOADD_W'', ''AMOADD_W''),
   (''amoxor_w'', ''AMOXOR_W'', ''AMOXOR_W''),
   (''amoor_w'', ''AMOOR_W'', ''AMOOR_W''),
   (''amoand_w'', ''AMOAND_W'', ''AMOAND_W''),
   (''amomin_w'', ''AMOMIN_W'', ''AMOMIN_W''),
   (''amomax_w'', ''AMOMAX_W'', ''AMOMAX_W''),
   (''amominu_w'', ''AMOMINU_W'', ''AMOMINU_W''),
   (''amomaxu_w'', ''AMOMAXU_W'', ''AMOMAXU_W''),
   (''amoswap_w'', ''AMOSWAP_W'', ''AMOSWAP_W''),
   (''lr_w'', ''LR_W'', ''LR_W''),
   (''sc_w'', ''SC_W'', ''SC_W''),
   (''amoadd_d'', ''AMOADD_D'', ''AMOADD_D''),
   (''amoxor_d'', ''AMOXOR_D'', ''AMOXOR_D''),
   (''amoor_d'', ''AMOOR_D'', ''AMOOR_D''),
   (''amoand_d'', ''AMOAND_D'', ''AMOAND_D''),
   (''amomin_d'', ''AMOMIN_D'', ''AMOMIN_D''),
   (''amomax_d'', ''AMOMAX_D'', ''AMOMAX_D''),
   (''amominu_d'', ''AMOMINU_D'', ''AMOMINU_D''),
   (''amomaxu_d'', ''AMOMAXU_D'', ''AMOMAXU_D''),
   (''amoswap_d'', ''AMOSWAP_D'', ''AMOSWAP_D''),
   (''lr_d'', ''LR_D'', ''LR_D''),
   (''sc_d'', ''SC_D'', ''SC_D''),
   (''ecall'', ''ECALL'', ''ECALL''),
   (''ebreak'', ''EBREAK'', ''EBREAK''),
   (''uret'', ''URET'', ''URET''),
   (''sret'', ''SRET'', ''SRET''),
   (''mret'', ''MRET'', ''MRET''),
   (''dret'', ''DRET'', ''DRET''),
   (''sfence_vma'', ''SFENCE_VMA'', ''SFENCE_VMA''),
   (''wfi'', ''WFI'', ''WFI''),
   (''csrrw'', ''CSRRW'', ''CSRRW''),
   (''csrrs'', ''CSRRS'', ''CSRRS''),
   (''csrrc'', ''CSRRC'', ''CSRRC''),
   (''csrrwi'', ''CSRRWI'', ''CSRRWI''),
   (''csrrsi'', ''CSRRSI'', ''CSRRSI''),
   (''csrrci'', ''CSRRCI'', ''CSRRCI''),
   (''fadd_s'', ''FADD_S'', ''FADD_S''),
   (''fsub_s'', ''FSUB_S'', ''FSUB_S''),
   (''fmul_s'', ''FMUL_S'', ''FMUL_S''),
   (''fdiv_s'', ''FDIV_S'', ''FDIV_S''),
   (''fsgnj_s'', ''FSGNJ_S'', ''FSGNJ_S''),
   (''fsgnjn_s'', ''FSGNJN_S'', ''FSGNJN_S''),
   (''fsgnjx_s'', ''FSGNJX_S'', ''FSGNJX_S''),
   (''fmin_s'', ''FMIN_S'', ''FMIN_S''),
   (''fmax_s'', ''FMAX_S'', ''FMAX_S''),
   (''fsqrt_s'', ''FSQRT_S'', ''FSQRT_S''),
   (''fadd_d'', ''FADD_D'', ''FADD_D''),
   (''fsub_d'', ''FSUB_D'', ''FSUB_D''),
   (''fmul_d'', ''FMUL_D'', ''FMUL_D''),
   (''fdiv_d'', ''FDIV_D'', ''FDIV_D''),
   (''fsgnj_d'', ''FSGNJ_D'', ''FSGNJ_D''),
   (''fsgnjn_d'', ''FSGNJN_D'', ''FSGNJN_D''),
   (''fsgnjx_d'', ''FSGNJX_D'', ''FSGNJX_D''),
   (''fmin_d'', ''FMIN_D'', ''FMIN_D''),
   (''fmax_d'', ''FMAX_D'', ''FMAX_D''),
   (''fcvt_s_d'', ''FCVT_S_D'', ''FCVT_S_D''),
   (''fcvt_d_s'', ''FCVT_D_S'', ''FCVT_D_S''),
   (''fsqrt_d'', ''FSQRT_D'', ''FSQRT_D''),
   (''fadd_q'', ''FADD_Q'', ''FADD_Q''),
   (''fsub_q'', ''FSUB_Q'', ''FSUB_Q''),
   (''fmul_q'', ''FMUL_Q'', ''FMUL_Q''),
   (''fdiv_q'', ''FDIV_Q'', ''FDIV_Q''),
   (''fsgnj_q'', ''FSGNJ_Q'', ''FSGNJ_Q''),
   (''fsgnjn_q'', ''FSGNJN_Q'', ''FSGNJN_Q''),
   (''fsgnjx_q'', ''FSGNJX_Q'', ''FSGNJX_Q''),
   (''fmin_q'', ''FMIN_Q'', ''FMIN_Q''),
   (''fmax_q'', ''FMAX_Q'', ''FMAX_Q'')]"

definition micro_declare_insns_2 :: "(string \<times> string \<times> string) list" where
  "micro_declare_insns_2 = [
   (''fcvt_s_q'', ''FCVT_S_Q'', ''FCVT_S_Q''),
   (''fcvt_q_s'', ''FCVT_Q_S'', ''FCVT_Q_S''),
   (''fcvt_d_q'', ''FCVT_D_Q'', ''FCVT_D_Q''),
   (''fcvt_q_d'', ''FCVT_Q_D'', ''FCVT_Q_D''),
   (''fsqrt_q'', ''FSQRT_Q'', ''FSQRT_Q''),
   (''fle_s'', ''FLE_S'', ''FLE_S''),
   (''flt_s'', ''FLT_S'', ''FLT_S''),
   (''feq_s'', ''FEQ_S'', ''FEQ_S''),
   (''fle_d'', ''FLE_D'', ''FLE_D''),
   (''flt_d'', ''FLT_D'', ''FLT_D''),
   (''feq_d'', ''FEQ_D'', ''FEQ_D''),
   (''fle_q'', ''FLE_Q'', ''FLE_Q''),
   (''flt_q'', ''FLT_Q'', ''FLT_Q''),
   (''feq_q'', ''FEQ_Q'', ''FEQ_Q''),
   (''fcvt_w_s'', ''FCVT_W_S'', ''FCVT_W_S''),
   (''fcvt_wu_s'', ''FCVT_WU_S'', ''FCVT_WU_S''),
   (''fcvt_l_s'', ''FCVT_L_S'', ''FCVT_L_S''),
   (''fcvt_lu_s'', ''FCVT_LU_S'', ''FCVT_LU_S''),
   (''fmv_x_w'', ''FMV_X_W'', ''FMV_X_W''),
   (''fclass_s'', ''FCLASS_S'', ''FCLASS_S''),
   (''fcvt_w_d'', ''FCVT_W_D'', ''FCVT_W_D''),
   (''fcvt_wu_d'', ''FCVT_WU_D'', ''FCVT_WU_D''),
   (''fcvt_l_d'', ''FCVT_L_D'', ''FCVT_L_D''),
   (''fcvt_lu_d'', ''FCVT_LU_D'', ''FCVT_LU_D''),
   (''fmv_x_d'', ''FMV_X_D'', ''FMV_X_D''),
   (''fclass_d'', ''FCLASS_D'', ''FCLASS_D''),
   (''fcvt_w_q'', ''FCVT_W_Q'', ''FCVT_W_Q''),
   (''fcvt_wu_q'', ''FCVT_WU_Q'', ''FCVT_WU_Q''),
   (''fcvt_l_q'', ''FCVT_L_Q'', ''FCVT_L_Q''),
   (''fcvt_lu_q'', ''FCVT_LU_Q'', ''FCVT_LU_Q''),
   (''fmv_x_q'', ''FMV_X_Q'', ''FMV_X_Q''),
   (''fclass_q'', ''FCLASS_Q'', ''FCLASS_Q''),
   (''fcvt_s_w'', ''FCVT_S_W'', ''FCVT_S_W''),
   (''fcvt_s_wu'', ''FCVT_S_WU'', ''FCVT_S_WU''),
   (''fcvt_s_l'', ''FCVT_S_L'', ''FCVT_S_L''),
   (''fcvt_s_lu'', ''FCVT_S_LU'', ''FCVT_S_LU''),
   (''fmv_w_x'', ''FMV_W_X'', ''FMV_W_X''),
   (''fcvt_d_w'', ''FCVT_D_W'', ''FCVT_D_W''),
   (''fcvt_d_wu'', ''FCVT_D_WU'', ''FCVT_D_WU''),
   (''fcvt_d_l'', ''FCVT_D_L'', ''FCVT_D_L''),
   (''fcvt_d_lu'', ''FCVT_D_LU'', ''FCVT_D_LU''),
   (''fmv_d_x'', ''FMV_D_X'', ''FMV_D_X''),
   (''fcvt_q_w'', ''FCVT_Q_W'', ''FCVT_Q_W''),
   (''fcvt_q_wu'', ''FCVT_Q_WU'', ''FCVT_Q_WU''),
   (''fcvt_q_l'', ''FCVT_Q_L'', ''FCVT_Q_L''),
   (''fcvt_q_lu'', ''FCVT_Q_LU'', ''FCVT_Q_LU''),
   (''fmv_q_x'', ''FMV_Q_X'', ''FMV_Q_X''),
   (''flw'', ''FLW'', ''FLW''),
   (''fld'', ''FLD'', ''FLD''),
   (''flq'', ''FLQ'', ''FLQ''),
   (''fsw'', ''FSW'', ''FSW''),
   (''fsd'', ''FSD'', ''FSD''),
   (''fsq'', ''FSQ'', ''FSQ''),
   (''fmadd_s'', ''FMADD_S'', ''FMADD_S''),
   (''fmsub_s'', ''FMSUB_S'', ''FMSUB_S''),
   (''fnmsub_s'', ''FNMSUB_S'', ''FNMSUB_S''),
   (''fnmadd_s'', ''FNMADD_S'', ''FNMADD_S''),
   (''fmadd_d'', ''FMADD_D'', ''FMADD_D''),
   (''fmsub_d'', ''FMSUB_D'', ''FMSUB_D''),
   (''fnmsub_d'', ''FNMSUB_D'', ''FNMSUB_D''),
   (''fnmadd_d'', ''FNMADD_D'', ''FNMADD_D''),
   (''fmadd_q'', ''FMADD_Q'', ''FMADD_Q''),
   (''fmsub_q'', ''FMSUB_Q'', ''FMSUB_Q''),
   (''fnmsub_q'', ''FNMSUB_Q'', ''FNMSUB_Q''),
   (''fnmadd_q'', ''FNMADD_Q'', ''FNMADD_Q''),
   (''c_nop'', ''C_NOP'', ''C_NOP''),
   (''c_addi16sp'', ''C_ADDI16SP'', ''C_ADDI16SP''),
   (''c_jr'', ''C_JR'', ''C_JR''),
   (''c_jalr'', ''C_JALR'', ''C_JALR''),
   (''c_ebreak'', ''C_EBREAK'', ''C_EBREAK''),
   (''c_ld'', ''C_LD'', ''C_LD''),
   (''c_sd'', ''C_SD'', ''C_SD''),
   (''c_addiw'', ''C_ADDIW'', ''C_ADDIW''),
   (''c_ldsp'', ''C_LDSP'', ''C_LDSP''),
   (''c_sdsp'', ''C_SDSP'', ''C_SDSP''),
   (''c_addi4spn'', ''C_ADDI4SPN'', ''C_ADDI4SPN''),
   (''c_fld'', ''C_FLD'', ''C_FLD''),
   (''c_lw'', ''C_LW'', ''C_LW''),
   (''c_flw'', ''C_FLW'', ''C_FLW''),
   (''c_fsd'', ''C_FSD'', ''C_FSD''),
   (''c_sw'', ''C_SW'', ''C_SW''),
   (''c_fsw'', ''C_FSW'', ''C_FSW''),
   (''c_addi'', ''C_ADDI'', ''C_ADDI''),
   (''c_jal'', ''C_JAL'', ''C_JAL''),
   (''c_li'', ''C_LI'', ''C_LI''),
   (''c_lui'', ''C_LUI'', ''C_LUI''),
   (''c_srli'', ''C_SRLI'', ''C_SRLI''),
   (''c_srai'', ''C_SRAI'', ''C_SRAI''),
   (''c_andi'', ''C_ANDI'', ''C_ANDI''),
   (''c_sub'', ''C_SUB'', ''C_SUB''),
   (''c_xor'', ''C_XOR'', ''C_XOR''),
   (''c_or'', ''C_OR'', ''C_OR''),
   (''c_and'', ''C_AND'', ''C_AND''),
   (''c_subw'', ''C_SUBW'', ''C_SUBW''),
   (''c_addw'', ''C_ADDW'', ''C_ADDW''),
   (''c_j'', ''C_J'', ''C_J''),
   (''c_beqz'', ''C_BEQZ'', ''C_BEQZ''),
   (''c_bnez'', ''C_BNEZ'', ''C_BNEZ''),
   (''c_slli'', ''C_SLLI'', ''C_SLLI''),
   (''c_fldsp'', ''C_FLDSP'', ''C_FLDSP''),
   (''c_lwsp'', ''C_LWSP'', ''C_LWSP''),
   (''c_flwsp'', ''C_FLWSP'', ''C_FLWSP''),
   (''c_mv'', ''C_MV'', ''C_MV''),
   (''c_add'', ''C_ADD'', ''C_ADD''),
   (''c_fsdsp'', ''C_FSDSP'', ''C_FSDSP''),
   (''c_swsp'', ''C_SWSP'', ''C_SWSP''),
   (''c_fswsp'', ''C_FSWSP'', ''C_FSWSP''),
   (''custom0'', ''CUSTOM0'', ''CUSTOM0''),
   (''custom0_rs1'', ''CUSTOM0_RS1'', ''CUSTOM0_RS1''),
   (''custom0_rs1_rs2'', ''CUSTOM0_RS1_RS2'', ''CUSTOM0_RS1_RS2''),
   (''custom0_rd'', ''CUSTOM0_RD'', ''CUSTOM0_RD''),
   (''custom0_rd_rs1'', ''CUSTOM0_RD_RS1'', ''CUSTOM0_RD_RS1''),
   (''custom0_rd_rs1_rs2'', ''CUSTOM0_RD_RS1_RS2'', ''CUSTOM0_RD_RS1_RS2''),
   (''custom1'', ''CUSTOM1'', ''CUSTOM1''),
   (''custom1_rs1'', ''CUSTOM1_RS1'', ''CUSTOM1_RS1''),
   (''custom1_rs1_rs2'', ''CUSTOM1_RS1_RS2'', ''CUSTOM1_RS1_RS2''),
   (''custom1_rd'', ''CUSTOM1_RD'', ''CUSTOM1_RD''),
   (''custom1_rd_rs1'', ''CUSTOM1_RD_RS1'', ''CUSTOM1_RD_RS1''),
   (''custom1_rd_rs1_rs2'', ''CUSTOM1_RD_RS1_RS2'', ''CUSTOM1_RD_RS1_RS2''),
   (''custom2'', ''CUSTOM2'', ''CUSTOM2''),
   (''custom2_rs1'', ''CUSTOM2_RS1'', ''CUSTOM2_RS1''),
   (''custom2_rs1_rs2'', ''CUSTOM2_RS1_RS2'', ''CUSTOM2_RS1_RS2''),
   (''custom2_rd'', ''CUSTOM2_RD'', ''CUSTOM2_RD''),
   (''custom2_rd_rs1'', ''CUSTOM2_RD_RS1'', ''CUSTOM2_RD_RS1''),
   (''custom2_rd_rs1_rs2'', ''CUSTOM2_RD_RS1_RS2'', ''CUSTOM2_RD_RS1_RS2''),
   (''custom3'', ''CUSTOM3'', ''CUSTOM3''),
   (''custom3_rs1'', ''CUSTOM3_RS1'', ''CUSTOM3_RS1''),
   (''custom3_rs1_rs2'', ''CUSTOM3_RS1_RS2'', ''CUSTOM3_RS1_RS2''),
   (''custom3_rd'', ''CUSTOM3_RD'', ''CUSTOM3_RD''),
   (''custom3_rd_rs1'', ''CUSTOM3_RD_RS1'', ''CUSTOM3_RD_RS1''),
   (''custom3_rd_rs1_rs2'', ''CUSTOM3_RD_RS1_RS2'', ''CUSTOM3_RD_RS1_RS2'')]"

subsection \<open>CSRs and causes\<close>

definition micro_csr_numbers_1 :: "(string \<times> u32) list" where
  "micro_csr_numbers_1 = [
   (''FFLAGS'', 0x1),
   (''FRM'', 0x2),
   (''FCSR'', 0x3),
   (''CYCLE'', 0xc00),
   (''TIME'', 0xc01),
   (''INSTRET'', 0xc02),
   (''HPMCOUNTER3'', 0xc03),
   (''HPMCOUNTER4'', 0xc04),
   (''HPMCOUNTER5'', 0xc05),
   (''HPMCOUNTER6'', 0xc06),
   (''HPMCOUNTER7'', 0xc07),
   (''HPMCOUNTER8'', 0xc08),
   (''HPMCOUNTER9'', 0xc09),
   (''HPMCOUNTER10'', 0xc0a),
   (''HPMCOUNTER11'', 0xc0b),
   (''HPMCOUNTER12'', 0xc0c),
   (''HPMCOUNTER13'', 0xc0d),
   (''HPMCOUNTER14'', 0xc0e),
   (''HPMCOUNTER15'', 0xc0f),
   (''HPMCOUNTER16'', 0xc10),
   (''HPMCOUNTER17'', 0xc11),
   (''HPMCOUNTER18'', 0xc12),
   (''HPMCOUNTER19'', 0xc13),
   (''HPMCOUNTER20'', 0xc14),
   (''HPMCOUNTER21'', 0xc15),
   (''HPMCOUNTER22'', 0xc16),
   (''HPMCOUNTER23'', 0xc17),
   (''HPMCOUNTER24'', 0xc18),
   (''HPMCOUNTER25'', 0xc19),
   (''HPMCOUNTER26'', 0xc1a),
   (''HPMCOUNTER27'', 0xc1b),
   (''HPMCOUNTER28'', 0xc1c),
   (''HPMCOUNTER29'', 0xc1d),
   (''HPMCOUNTER30'', 0xc1e),
   (''HPMCOUNTER31'', 0xc1f),
   (''SSTATUS'', 0x100),
   (''SIE'', 0x104),
   (''STVEC'', 0x105),
   (''SCOUNTEREN'', 0x106),
   (''SSCRATCH'', 0x140),
   (''SEPC'', 0x141),
   (''SCAUSE'', 0x142),
   (''STVAL'', 0x143),
   (''SIP'', 0x144),
   (''SATP'', 0x180),
   (''MSTATUS'', 0x300),
   (''MISA'', 0x301),
   (''MEDELEG'', 0x302),
   (''MIDELEG'', 0x303),
   (''MIE'', 0x304),
   (''MTVEC'', 0x305),
   (''MCOUNTEREN'', 0x306),
   (''MSCRATCH'', 0x340),
   (''MEPC'', 0x341),
   (''MCAUSE'', 0x342),
   (''MTVAL'', 0x343),
   (''MIP'', 0x344),
   (''PMPCFG0'', 0x3a0),
   (''PMPCFG1'', 0x3a1),
   (''PMPCFG2'', 0x3a2),
   (''PMPCFG3'', 0x3a3),
   (''PMPADDR0'', 0x3b0),
   (''PMPADDR1'', 0x3b1),
   (''PMPADDR2'', 0x3b2),
   (''PMPADDR3'', 0x3b3),
   (''PMPADDR4'', 0x3b4),
   (''PMPADDR5'', 0x3b5),
   (''PMPADDR6'', 0x3b6),
   (''PMPADDR7'', 0x3b7),
   (''PMPADDR8'', 0x3b8),
   (''PMPADDR9'', 0x3b9),
   (''PMPADDR10'', 0x3ba),
   (''PMPADDR11'', 0x3bb),
   (''PMPADDR12'', 0x3bc),
   (''PMPADDR13'', 0x3bd),
   (''PMPADDR14'', 0x3be),
   (''PMPADDR15'', 0x3bf),
   (''TSELECT'', 0x7a0),
   (''TDATA1'', 0x7a1),
   (''TDATA2'', 0x7a2),
   (''TDATA3'', 0x7a3),
   (''DCSR'', 0x7b0),
   (''DPC'', 0x7b1),
   (''DSCRATCH'', 0x7b2),
   (''MCYCLE'', 0xb00),
   (''MINSTRET'', 0xb02),
   (''MHPMCOUNTER3'', 0xb03),
   (''MHPMCOUNTER4'', 0xb04),
   (''MHPMCOUNTER5'', 0xb05),
   (''MHPMCOUNTER6'', 0xb06),
   (''MHPMCOUNTER7'', 0xb07),
   (''MHPMCOUNTER8'', 0xb08),
   (''MHPMCOUNTER9'', 0xb09),
   (''MHPMCOUNTER10'', 0xb0a),
   (''MHPMCOUNTER11'', 0xb0b),
   (''MHPMCOUNTER12'', 0xb0c),
   (''MHPMCOUNTER13'', 0xb0d),
   (''MHPMCOUNTER14'', 0xb0e),
   (''MHPMCOUNTER15'', 0xb0f),
   (''MHPMCOUNTER16'', 0xb10),
   (''MHPMCOUNTER17'', 0xb11),
   (''MHPMCOUNTER18'', 0xb12),
   (''MHPMCOUNTER19'', 0xb13),
   (''MHPMCOUNTER20'', 0xb14),
   (''MHPMCOUNTER21'', 0xb15),
   (''MHPMCOUNTER22'', 0xb16)]"

definition micro_csr_numbers_2 :: "(string \<times> u32) list" where
  "micro_csr_numbers_2 = [
   (''MHPMCOUNTER23'', 0xb17),
   (''MHPMCOUNTER24'', 0xb18),
   (''MHPMCOUNTER25'', 0xb19),
   (''MHPMCOUNTER26'', 0xb1a),
   (''MHPMCOUNTER27'', 0xb1b),
   (''MHPMCOUNTER28'', 0xb1c),
   (''MHPMCOUNTER29'', 0xb1d),
   (''MHPMCOUNTER30'', 0xb1e),
   (''MHPMCOUNTER31'', 0xb1f),
   (''MHPMEVENT3'', 0x323),
   (''MHPMEVENT4'', 0x324),
   (''MHPMEVENT5'', 0x325),
   (''MHPMEVENT6'', 0x326),
   (''MHPMEVENT7'', 0x327),
   (''MHPMEVENT8'', 0x328),
   (''MHPMEVENT9'', 0x329),
   (''MHPMEVENT10'', 0x32a),
   (''MHPMEVENT11'', 0x32b),
   (''MHPMEVENT12'', 0x32c),
   (''MHPMEVENT13'', 0x32d),
   (''MHPMEVENT14'', 0x32e),
   (''MHPMEVENT15'', 0x32f),
   (''MHPMEVENT16'', 0x330),
   (''MHPMEVENT17'', 0x331),
   (''MHPMEVENT18'', 0x332),
   (''MHPMEVENT19'', 0x333),
   (''MHPMEVENT20'', 0x334),
   (''MHPMEVENT21'', 0x335),
   (''MHPMEVENT22'', 0x336),
   (''MHPMEVENT23'', 0x337),
   (''MHPMEVENT24'', 0x338),
   (''MHPMEVENT25'', 0x339),
   (''MHPMEVENT26'', 0x33a),
   (''MHPMEVENT27'', 0x33b),
   (''MHPMEVENT28'', 0x33c),
   (''MHPMEVENT29'', 0x33d),
   (''MHPMEVENT30'', 0x33e),
   (''MHPMEVENT31'', 0x33f),
   (''MVENDORID'', 0xf11),
   (''MARCHID'', 0xf12),
   (''MIMPID'', 0xf13),
   (''MHARTID'', 0xf14),
   (''CYCLEH'', 0xc80),
   (''TIMEH'', 0xc81),
   (''INSTRETH'', 0xc82),
   (''HPMCOUNTER3H'', 0xc83),
   (''HPMCOUNTER4H'', 0xc84),
   (''HPMCOUNTER5H'', 0xc85),
   (''HPMCOUNTER6H'', 0xc86),
   (''HPMCOUNTER7H'', 0xc87),
   (''HPMCOUNTER8H'', 0xc88),
   (''HPMCOUNTER9H'', 0xc89),
   (''HPMCOUNTER10H'', 0xc8a),
   (''HPMCOUNTER11H'', 0xc8b),
   (''HPMCOUNTER12H'', 0xc8c),
   (''HPMCOUNTER13H'', 0xc8d),
   (''HPMCOUNTER14H'', 0xc8e),
   (''HPMCOUNTER15H'', 0xc8f),
   (''HPMCOUNTER16H'', 0xc90),
   (''HPMCOUNTER17H'', 0xc91),
   (''HPMCOUNTER18H'', 0xc92),
   (''HPMCOUNTER19H'', 0xc93),
   (''HPMCOUNTER20H'', 0xc94),
   (''HPMCOUNTER21H'', 0xc95),
   (''HPMCOUNTER22H'', 0xc96),
   (''HPMCOUNTER23H'', 0xc97),
   (''HPMCOUNTER24H'', 0xc98),
   (''HPMCOUNTER25H'', 0xc99),
   (''HPMCOUNTER26H'', 0xc9a),
   (''HPMCOUNTER27H'', 0xc9b),
   (''HPMCOUNTER28H'', 0xc9c),
   (''HPMCOUNTER29H'', 0xc9d),
   (''HPMCOUNTER30H'', 0xc9e),
   (''HPMCOUNTER31H'', 0xc9f),
   (''MCYCLEH'', 0xb80),
   (''MINSTRETH'', 0xb82),
   (''MHPMCOUNTER3H'', 0xb83),
   (''MHPMCOUNTER4H'', 0xb84),
   (''MHPMCOUNTER5H'', 0xb85),
   (''MHPMCOUNTER6H'', 0xb86),
   (''MHPMCOUNTER7H'', 0xb87),
   (''MHPMCOUNTER8H'', 0xb88),
   (''MHPMCOUNTER9H'', 0xb89),
   (''MHPMCOUNTER10H'', 0xb8a),
   (''MHPMCOUNTER11H'', 0xb8b),
   (''MHPMCOUNTER12H'', 0xb8c),
   (''MHPMCOUNTER13H'', 0xb8d),
   (''MHPMCOUNTER14H'', 0xb8e),
   (''MHPMCOUNTER15H'', 0xb8f),
   (''MHPMCOUNTER16H'', 0xb90),
   (''MHPMCOUNTER17H'', 0xb91),
   (''MHPMCOUNTER18H'', 0xb92),
   (''MHPMCOUNTER19H'', 0xb93),
   (''MHPMCOUNTER20H'', 0xb94),
   (''MHPMCOUNTER21H'', 0xb95),
   (''MHPMCOUNTER22H'', 0xb96),
   (''MHPMCOUNTER23H'', 0xb97),
   (''MHPMCOUNTER24H'', 0xb98),
   (''MHPMCOUNTER25H'', 0xb99),
   (''MHPMCOUNTER26H'', 0xb9a),
   (''MHPMCOUNTER27H'', 0xb9b),
   (''MHPMCOUNTER28H'', 0xb9c),
   (''MHPMCOUNTER29H'', 0xb9d),
   (''MHPMCOUNTER30H'', 0xb9e),
   (''MHPMCOUNTER31H'', 0xb9f)]"

definition micro_cause_numbers :: "(string \<times> u32) list" where
  "micro_cause_numbers = [
   (''MISALIGNED_FETCH'', 0x0),
   (''FETCH_ACCESS'', 0x1),
   (''ILLEGAL_INSTRUCTION'', 0x2),
   (''BREAKPOINT'', 0x3),
   (''MISALIGNED_LOAD'', 0x4),
   (''LOAD_ACCESS'', 0x5),
   (''MISALIGNED_STORE'', 0x6),
   (''STORE_ACCESS'', 0x7),
   (''USER_ECALL'', 0x8),
   (''SUPERVISOR_ECALL'', 0x9),
   (''HYPERVISOR_ECALL'', 0xa),
   (''MACHINE_ECALL'', 0xb),
   (''FETCH_PAGE_FAULT'', 0xc),
   (''LOAD_PAGE_FAULT'', 0xd),
   (''STORE_PAGE_FAULT'', 0xf)]"

definition micro_declare_csrs_1 :: "(string \<times> string) list" where
  "micro_declare_csrs_1 = [
   (''fflags'', ''FFLAGS''),
   (''frm'', ''FRM''),
   (''fcsr'', ''FCSR''),
   (''cycle'', ''CYCLE''),
   (''time'', ''TIME''),
   (''instret'', ''INSTRET''),
   (''hpmcounter3'', ''HPMCOUNTER3''),
   (''hpmcounter4'', ''HPMCOUNTER4''),
   (''hpmcounter5'', ''HPMCOUNTER5''),
   (''hpmcounter6'', ''HPMCOUNTER6''),
   (''hpmcounter7'', ''HPMCOUNTER7''),
   (''hpmcounter8'', ''HPMCOUNTER8''),
   (''hpmcounter9'', ''HPMCOUNTER9''),
   (''hpmcounter10'', ''HPMCOUNTER10''),
   (''hpmcounter11'', ''HPMCOUNTER11''),
   (''hpmcounter12'', ''HPMCOUNTER12''),
   (''hpmcounter13'', ''HPMCOUNTER13''),
   (''hpmcounter14'', ''HPMCOUNTER14''),
   (''hpmcounter15'', ''HPMCOUNTER15''),
   (''hpmcounter16'', ''HPMCOUNTER16''),
   (''hpmcounter17'', ''HPMCOUNTER17''),
   (''hpmcounter18'', ''HPMCOUNTER18''),
   (''hpmcounter19'', ''HPMCOUNTER19''),
   (''hpmcounter20'', ''HPMCOUNTER20''),
   (''hpmcounter21'', ''HPMCOUNTER21''),
   (''hpmcounter22'', ''HPMCOUNTER22''),
   (''hpmcounter23'', ''HPMCOUNTER23''),
   (''hpmcounter24'', ''HPMCOUNTER24''),
   (''hpmcounter25'', ''HPMCOUNTER25''),
   (''hpmcounter26'', ''HPMCOUNTER26''),
   (''hpmcounter27'', ''HPMCOUNTER27''),
   (''hpmcounter28'', ''HPMCOUNTER28''),
   (''hpmcounter29'', ''HPMCOUNTER29''),
   (''hpmcounter30'', ''HPMCOUNTER30''),
   (''hpmcounter31'', ''HPMCOUNTER31''),
   (''sstatus'', ''SSTATUS''),
   (''sie'', ''SIE''),
   (''stvec'', ''STVEC''),
   (''scounteren'', ''SCOUNTEREN''),
   (''sscratch'', ''SSCRATCH''),
   (''sepc'', ''SEPC''),
   (''scause'', ''SCAUSE''),
   (''stval'', ''STVAL''),
   (''sip'', ''SIP''),
   (''satp'', ''SATP''),
   (''mstatus'', ''MSTATUS''),
   (''misa'', ''MISA''),
   (''medeleg'', ''MEDELEG''),
   (''mideleg'', ''MIDELEG''),
   (''mie'', ''MIE''),
   (''mtvec'', ''MTVEC''),
   (''mcounteren'', ''MCOUNTEREN''),
   (''mscratch'', ''MSCRATCH''),
   (''mepc'', ''MEPC''),
   (''mcause'', ''MCAUSE''),
   (''mtval'', ''MTVAL''),
   (''mip'', ''MIP''),
   (''pmpcfg0'', ''PMPCFG0''),
   (''pmpcfg1'', ''PMPCFG1''),
   (''pmpcfg2'', ''PMPCFG2''),
   (''pmpcfg3'', ''PMPCFG3''),
   (''pmpaddr0'', ''PMPADDR0''),
   (''pmpaddr1'', ''PMPADDR1''),
   (''pmpaddr2'', ''PMPADDR2''),
   (''pmpaddr3'', ''PMPADDR3''),
   (''pmpaddr4'', ''PMPADDR4''),
   (''pmpaddr5'', ''PMPADDR5''),
   (''pmpaddr6'', ''PMPADDR6''),
   (''pmpaddr7'', ''PMPADDR7''),
   (''pmpaddr8'', ''PMPADDR8''),
   (''pmpaddr9'', ''PMPADDR9''),
   (''pmpaddr10'', ''PMPADDR10''),
   (''pmpaddr11'', ''PMPADDR11''),
   (''pmpaddr12'', ''PMPADDR12''),
   (''pmpaddr13'', ''PMPADDR13''),
   (''pmpaddr14'', ''PMPADDR14''),
   (''pmpaddr15'', ''PMPADDR15''),
   (''tselect'', ''TSELECT''),
   (''tdata1'', ''TDATA1''),
   (''tdata2'', ''TDATA2''),
   (''tdata3'', ''TDATA3''),
   (''dcsr'', ''DCSR''),
   (''dpc'', ''DPC''),
   (''dscratch'', ''DSCRATCH''),
   (''mcycle'', ''MCYCLE''),
   (''minstret'', ''MINSTRET''),
   (''mhpmcounter3'', ''MHPMCOUNTER3''),
   (''mhpmcounter4'', ''MHPMCOUNTER4''),
   (''mhpmcounter5'', ''MHPMCOUNTER5''),
   (''mhpmcounter6'', ''MHPMCOUNTER6''),
   (''mhpmcounter7'', ''MHPMCOUNTER7''),
   (''mhpmcounter8'', ''MHPMCOUNTER8''),
   (''mhpmcounter9'', ''MHPMCOUNTER9''),
   (''mhpmcounter10'', ''MHPMCOUNTER10''),
   (''mhpmcounter11'', ''MHPMCOUNTER11''),
   (''mhpmcounter12'', ''MHPMCOUNTER12''),
   (''mhpmcounter13'', ''MHPMCOUNTER13''),
   (''mhpmcounter14'', ''MHPMCOUNTER14''),
   (''mhpmcounter15'', ''MHPMCOUNTER15''),
   (''mhpmcounter16'', ''MHPMCOUNTER16''),
   (''mhpmcounter17'', ''MHPMCOUNTER17''),
   (''mhpmcounter18'', ''MHPMCOUNTER18''),
   (''mhpmcounter19'', ''MHPMCOUNTER19''),
   (''mhpmcounter20'', ''MHPMCOUNTER20''),
   (''mhpmcounter21'', ''MHPMCOUNTER21''),
   (''mhpmcounter22'', ''MHPMCOUNTER22'')]"

definition micro_declare_csrs_2 :: "(string \<times> string) list" where
  "micro_declare_csrs_2 = [
   (''mhpmcounter23'', ''MHPMCOUNTER23''),
   (''mhpmcounter24'', ''MHPMCOUNTER24''),
   (''mhpmcounter25'', ''MHPMCOUNTER25''),
   (''mhpmcounter26'', ''MHPMCOUNTER26''),
   (''mhpmcounter27'', ''MHPMCOUNTER27''),
   (''mhpmcounter28'', ''MHPMCOUNTER28''),
   (''mhpmcounter29'', ''MHPMCOUNTER29''),
   (''mhpmcounter30'', ''MHPMCOUNTER30''),
   (''mhpmcounter31'', ''MHPMCOUNTER31''),
   (''mhpmevent3'', ''MHPMEVENT3''),
   (''mhpmevent4'', ''MHPMEVENT4''),
   (''mhpmevent5'', ''MHPMEVENT5''),
   (''mhpmevent6'', ''MHPMEVENT6''),
   (''mhpmevent7'', ''MHPMEVENT7''),
   (''mhpmevent8'', ''MHPMEVENT8''),
   (''mhpmevent9'', ''MHPMEVENT9''),
   (''mhpmevent10'', ''MHPMEVENT10''),
   (''mhpmevent11'', ''MHPMEVENT11''),
   (''mhpmevent12'', ''MHPMEVENT12''),
   (''mhpmevent13'', ''MHPMEVENT13''),
   (''mhpmevent14'', ''MHPMEVENT14''),
   (''mhpmevent15'', ''MHPMEVENT15''),
   (''mhpmevent16'', ''MHPMEVENT16''),
   (''mhpmevent17'', ''MHPMEVENT17''),
   (''mhpmevent18'', ''MHPMEVENT18''),
   (''mhpmevent19'', ''MHPMEVENT19''),
   (''mhpmevent20'', ''MHPMEVENT20''),
   (''mhpmevent21'', ''MHPMEVENT21''),
   (''mhpmevent22'', ''MHPMEVENT22''),
   (''mhpmevent23'', ''MHPMEVENT23''),
   (''mhpmevent24'', ''MHPMEVENT24''),
   (''mhpmevent25'', ''MHPMEVENT25''),
   (''mhpmevent26'', ''MHPMEVENT26''),
   (''mhpmevent27'', ''MHPMEVENT27''),
   (''mhpmevent28'', ''MHPMEVENT28''),
   (''mhpmevent29'', ''MHPMEVENT29''),
   (''mhpmevent30'', ''MHPMEVENT30''),
   (''mhpmevent31'', ''MHPMEVENT31''),
   (''mvendorid'', ''MVENDORID''),
   (''marchid'', ''MARCHID''),
   (''mimpid'', ''MIMPID''),
   (''mhartid'', ''MHARTID''),
   (''cycleh'', ''CYCLEH''),
   (''timeh'', ''TIMEH''),
   (''instreth'', ''INSTRETH''),
   (''hpmcounter3h'', ''HPMCOUNTER3H''),
   (''hpmcounter4h'', ''HPMCOUNTER4H''),
   (''hpmcounter5h'', ''HPMCOUNTER5H''),
   (''hpmcounter6h'', ''HPMCOUNTER6H''),
   (''hpmcounter7h'', ''HPMCOUNTER7H''),
   (''hpmcounter8h'', ''HPMCOUNTER8H''),
   (''hpmcounter9h'', ''HPMCOUNTER9H''),
   (''hpmcounter10h'', ''HPMCOUNTER10H''),
   (''hpmcounter11h'', ''HPMCOUNTER11H''),
   (''hpmcounter12h'', ''HPMCOUNTER12H''),
   (''hpmcounter13h'', ''HPMCOUNTER13H''),
   (''hpmcounter14h'', ''HPMCOUNTER14H''),
   (''hpmcounter15h'', ''HPMCOUNTER15H''),
   (''hpmcounter16h'', ''HPMCOUNTER16H''),
   (''hpmcounter17h'', ''HPMCOUNTER17H''),
   (''hpmcounter18h'', ''HPMCOUNTER18H''),
   (''hpmcounter19h'', ''HPMCOUNTER19H''),
   (''hpmcounter20h'', ''HPMCOUNTER20H''),
   (''hpmcounter21h'', ''HPMCOUNTER21H''),
   (''hpmcounter22h'', ''HPMCOUNTER22H''),
   (''hpmcounter23h'', ''HPMCOUNTER23H''),
   (''hpmcounter24h'', ''HPMCOUNTER24H''),
   (''hpmcounter25h'', ''HPMCOUNTER25H''),
   (''hpmcounter26h'', ''HPMCOUNTER26H''),
   (''hpmcounter27h'', ''HPMCOUNTER27H''),
   (''hpmcounter28h'', ''HPMCOUNTER28H''),
   (''hpmcounter29h'', ''HPMCOUNTER29H''),
   (''hpmcounter30h'', ''HPMCOUNTER30H''),
   (''hpmcounter31h'', ''HPMCOUNTER31H''),
   (''mcycleh'', ''MCYCLEH''),
   (''minstreth'', ''MINSTRETH''),
   (''mhpmcounter3h'', ''MHPMCOUNTER3H''),
   (''mhpmcounter4h'', ''MHPMCOUNTER4H''),
   (''mhpmcounter5h'', ''MHPMCOUNTER5H''),
   (''mhpmcounter6h'', ''MHPMCOUNTER6H''),
   (''mhpmcounter7h'', ''MHPMCOUNTER7H''),
   (''mhpmcounter8h'', ''MHPMCOUNTER8H''),
   (''mhpmcounter9h'', ''MHPMCOUNTER9H''),
   (''mhpmcounter10h'', ''MHPMCOUNTER10H''),
   (''mhpmcounter11h'', ''MHPMCOUNTER11H''),
   (''mhpmcounter12h'', ''MHPMCOUNTER12H''),
   (''mhpmcounter13h'', ''MHPMCOUNTER13H''),
   (''mhpmcounter14h'', ''MHPMCOUNTER14H''),
   (''mhpmcounter15h'', ''MHPMCOUNTER15H''),
   (''mhpmcounter16h'', ''MHPMCOUNTER16H''),
   (''mhpmcounter17h'', ''MHPMCOUNTER17H''),
   (''mhpmcounter18h'', ''MHPMCOUNTER18H''),
   (''mhpmcounter19h'', ''MHPMCOUNTER19H''),
   (''mhpmcounter20h'', ''MHPMCOUNTER20H''),
   (''mhpmcounter21h'', ''MHPMCOUNTER21H''),
   (''mhpmcounter22h'', ''MHPMCOUNTER22H''),
   (''mhpmcounter23h'', ''MHPMCOUNTER23H''),
   (''mhpmcounter24h'', ''MHPMCOUNTER24H''),
   (''mhpmcounter25h'', ''MHPMCOUNTER25H''),
   (''mhpmcounter26h'', ''MHPMCOUNTER26H''),
   (''mhpmcounter27h'', ''MHPMCOUNTER27H''),
   (''mhpmcounter28h'', ''MHPMCOUNTER28H''),
   (''mhpmcounter29h'', ''MHPMCOUNTER29H''),
   (''mhpmcounter30h'', ''MHPMCOUNTER30H''),
   (''mhpmcounter31h'', ''MHPMCOUNTER31H'')]"

definition micro_declare_causes :: "(string \<times> string) list" where
  "micro_declare_causes = [
   (''misaligned fetch'', ''MISALIGNED_FETCH''),
   (''fetch access'', ''FETCH_ACCESS''),
   (''illegal instruction'', ''ILLEGAL_INSTRUCTION''),
   (''breakpoint'', ''BREAKPOINT''),
   (''misaligned load'', ''MISALIGNED_LOAD''),
   (''load access'', ''LOAD_ACCESS''),
   (''misaligned store'', ''MISALIGNED_STORE''),
   (''store access'', ''STORE_ACCESS''),
   (''user_ecall'', ''USER_ECALL''),
   (''supervisor_ecall'', ''SUPERVISOR_ECALL''),
   (''hypervisor_ecall'', ''HYPERVISOR_ECALL''),
   (''machine_ecall'', ''MACHINE_ECALL''),
   (''fetch page fault'', ''FETCH_PAGE_FAULT''),
   (''load page fault'', ''LOAD_PAGE_FAULT''),
   (''store page fault'', ''STORE_PAGE_FAULT'')]"

lemmas micro_tables =
  micro_mstatus_fields_def
  micro_sstatus_fields_def
  micro_dcsr_fields_def
  micro_dcsr_causes_def
  micro_mcontrol_fields_def
  micro_mcontrol_values_def
  micro_privilege_levels_def
  micro_satp_fields_def
  micro_satp_modes_def
  micro_pmp_fields_def
  micro_memory_map_def
  micro_pte_fields_def
  micro_insn_codes_1_def
  micro_insn_codes_2_def
  micro_insn_codes_3_def
  micro_insn_codes_rvc_aliases_def
  micro_insn_codes_4_def
  micro_declare_insns_1_def
  micro_declare_insns_2_def
  micro_cause_numbers_def
  micro_declare_causes_def

lemmas first_tables =
  mstatus_fields_def
  sstatus_fields_def
  dcsr_fields_def
  dcsr_causes_def
  mcontrol_fields_def
  mcontrol_values_def
  privilege_levels_def
  satp_fields_def
  satp_modes_def
  pmp_fields_def
  memory_map_def
  pte_fields_def
  insn_codes_1_def
  insn_codes_2_def
  insn_codes_3_def
  insn_codes_rvc_aliases_def
  insn_codes_4_def
  declare_insns_1_def
  declare_insns_2_def
  cause_numbers_def
  declare_causes_def

subsection \<open>Properties\<close>

text \<open>
  Declarations. The \<open>DECLARE\<close> lists of the header say neither more nor less than its tables:
  \<open>DECLARE_INSN\<close> names each row of the code table once, in order, with its own \<open>MATCH\<close> and \<open>MASK\<close>
  and the row's name in lower case; \<open>DECLARE_CSR\<close> does so for the CSRs, and \<open>DECLARE_CAUSE\<close>
  for the exception causes, whose numbers are distinct and below 16.
\<close>

theorem declarations_complete:
  "map (\<lambda>(mnemonic, x, y). (x, y)) declare_insns = map (\<lambda>r. (fst r, fst r)) insn_codes \<and>
   list_all (\<lambda>(mnemonic, x, y). mnemonic = map lower_char x) declare_insns \<and>
   map snd declare_csrs = map fst csr_numbers \<and>
   list_all (\<lambda>(x, y). map upper_char x = y) declare_csrs \<and>
   map snd declare_causes = map fst cause_numbers \<and>
   distinct (map snd cause_numbers) \<and> list_all (\<lambda>(x, n). n < 16) cause_numbers"
  using declared_insns declared_csrs by (simp only: simp_thms)

text \<open>
  The two headers agree. Both copies give the same instruction codes, declarations, causes
  and register fields. The second lacks one CSR, \<open>mcountinhibit\<close>, in its table and in its
  declarations, and has one interrupt more: number 16, with its bit 16 of mip, which no other
  interrupt of the header uses.
\<close>

theorem second_header_agrees:
  "micro_insn_codes_1 = insn_codes_1 \<and>
   micro_insn_codes_2 = insn_codes_2 \<and>
   micro_insn_codes_3 = insn_codes_3 \<and>
   micro_insn_codes_rvc_aliases = insn_codes_rvc_aliases \<and>
   micro_insn_codes_4 = insn_codes_4 \<and>
   micro_declare_insns_1 = declare_insns_1 \<and>
   micro_declare_insns_2 = declare_insns_2 \<and>
   micro_cause_numbers = cause_numbers \<and>
   micro_declare_causes = declare_causes \<and>
   micro_mstatus_fields = mstatus_fields \<and>
   micro_sstatus_fields = sstatus_fields \<and>
   micro_dcsr_fields = dcsr_fields \<and>
   micro_dcsr_causes = dcsr_causes \<and>
   micro_mcontrol_fields = mcontrol_fields \<and>
   micro_mcontrol_values = mcontrol_values \<and>
   micro_privilege_levels = privilege_levels \<and>
   micro_satp_fields = satp_fields \<and>
   micro_satp_modes = satp_modes \<and>
   micro_pmp_fields = pmp_fields \<and>
   micro_memory_map = memory_map \<and>
   micro_pte_fields = pte_fields \<and>
   micro_csr_numbers_1 @ micro_csr_numbers_2 = filter (\<lambda>r. fst r \<noteq> ''MCOUNTINHIBIT'') csr_numbers \<and>
   micro_declare_csrs_1 @ micro_declare_csrs_2 = filter (\<lambda>r. snd r \<noteq> ''MCOUNTINHIBIT'') declare_csrs \<and>
   micro_irq_numbers = irq_numbers @ [(''IRQ_COUNTERIP'', 16)] \<and>
   filter (\<lambda>r. fst r \<noteq> ''MIP_MCOUNTERIP'') micro_mip_fields = mip_fields \<and>
   filter (\<lambda>r. snd r AND 0x10000 \<noteq> 0) micro_mip_fields = [(''MIP_MCOUNTERIP'', 0x10000)]"
proof (intro conjI)
  show "micro_csr_numbers_1 @ micro_csr_numbers_2 = filter (\<lambda>r. fst r \<noteq> ''MCOUNTINHIBIT'') csr_numbers"
    by (simp add: micro_csr_numbers_1_def micro_csr_numbers_2_def csr_tables)
  show "micro_declare_csrs_1 @ micro_declare_csrs_2 = filter (\<lambda>r. snd r \<noteq> ''MCOUNTINHIBIT'') declare_csrs"
    by (simp add: micro_declare_csrs_1_def micro_declare_csrs_2_def csr_declarations)
  show "micro_irq_numbers = irq_numbers @ [(''IRQ_COUNTERIP'', 16)]"
    by (simp add: micro_irq_numbers_def irq_numbers_def)
  show "filter (\<lambda>r. fst r \<noteq> ''MIP_MCOUNTERIP'') micro_mip_fields = mip_fields"
    by (simp add: micro_mip_fields_def mip_fields_def)
  show "filter (\<lambda>r. snd r AND 0x10000 \<noteq> 0) micro_mip_fields = [(''MIP_MCOUNTERIP'', 0x10000)]"
    by (simp add: micro_mip_fields_def)
qed (simp_all only: micro_tables first_tables)

end
