(* ===== verification/SimMain.thy ===== *)
theory SimMain
  imports Prelude
begin

section \<open>The simulation driver of the test SoC\<close>

text \<open>
  \<open>test_soc/sim_main.cpp\<close>: the loop that drives the clock and reset pins of the Verilated
  model \<open>mkTbSoC\<close>. The model itself is generated code, so it is a parameter: \<open>eval\<close> is its
  step from a state and the two pins to the next state, \<open>got_finish\<close> is the flag
  \<open>Verilated::gotFinish()\<close>. Tracing and coverage (compiled in under \<open>VM_TRACE\<close> and
  \<open>VM_COVERAGE\<close>) only write files and are left out. \<open>main_time\<close> is the 64-bit
  \<open>vluint64_t\<close>.
\<close>

subsection \<open>State and one turn of the loop\<close>

record 'm driver =
  main_time :: u64
  RST_N :: bool
  CLK :: bool
  mkTbSoC :: 'm

definition sc_time_stamp :: "'m driver \<Rightarrow> u64" where
  "sc_time_stamp d = main_time d"

definition driver_init :: "'m \<Rightarrow> 'm driver" where
  "driver_init m = \<lparr>main_time = 0, RST_N = True, CLK = False, mkTbSoC = m\<rparr>"

text \<open>The pins as the body of the loop sets them, from the value of \<open>main_time\<close> after its increment.\<close>

definition set_clock :: "u64 \<Rightarrow> bool \<Rightarrow> bool" where
  "set_clock t clk =
     (let clk = (if t mod 10 = 5 then True else clk) in if t mod 10 = 0 then False else clk)"

definition set_reset :: "u64 \<Rightarrow> bool" where
  "set_reset t = (if t > 1 \<and> t < 107 then False else True)"

definition driver_step :: "(bool \<Rightarrow> bool \<Rightarrow> 'm \<Rightarrow> 'm) \<Rightarrow> 'm driver \<Rightarrow> 'm driver" where
  "driver_step eval d =
     (let d = d\<lparr>main_time := main_time d + 1\<rparr>;
          d = d\<lparr>CLK := set_clock (main_time d) (CLK d)\<rparr>;
          d = d\<lparr>RST_N := set_reset (main_time d)\<rparr>
      in d\<lparr>mkTbSoC := eval (RST_N d) (CLK d) (mkTbSoC d)\<rparr>)"

text \<open>The loop may never end: a model that never finishes gives None.\<close>

partial_function (option) driver_loop ::
    "(bool \<Rightarrow> bool \<Rightarrow> 'm \<Rightarrow> 'm) \<Rightarrow> ('m \<Rightarrow> bool) \<Rightarrow> 'm driver \<Rightarrow> 'm driver option" where
  "driver_loop eval got_finish d =
     (if got_finish (mkTbSoC d) then Some d else driver_loop eval got_finish (driver_step eval d))"

text \<open>\<open>main\<close>: the exit status, and the model after \<open>final\<close>.\<close>

definition main ::
    "(bool \<Rightarrow> bool \<Rightarrow> 'm \<Rightarrow> 'm) \<Rightarrow> ('m \<Rightarrow> bool) \<Rightarrow> ('m \<Rightarrow> 'm) \<Rightarrow> 'm \<Rightarrow> (nat \<times> 'm) option" where
  "main eval got_finish final m =
     map_option (\<lambda>d. (0, final (mkTbSoC d))) (driver_loop eval got_finish (driver_init m))"

subsection \<open>The pins as functions of time\<close>

lemma driver_step_simps [simp]:
  "main_time (driver_step ev d) = main_time d + 1"
  "CLK (driver_step ev d) = set_clock (main_time d + 1) (CLK d)"
  "RST_N (driver_step ev d) = set_reset (main_time d + 1)"
  "mkTbSoC (driver_step ev d) =
     ev (set_reset (main_time d + 1)) (set_clock (main_time d + 1) (CLK d)) (mkTbSoC d)"
  by (simp_all add: driver_step_def Let_def)

definition driver_at :: "(bool \<Rightarrow> bool \<Rightarrow> 'm \<Rightarrow> 'm) \<Rightarrow> 'm \<Rightarrow> nat \<Rightarrow> 'm driver" where
  "driver_at ev m n = (driver_step ev ^^ n) (driver_init m)"

lemma driver_at_simps [simp]:
  "driver_at ev m 0 = driver_init m" "driver_at ev m (Suc n) = driver_step ev (driver_at ev m n)"
  by (simp_all add: driver_at_def)

lemma driver_time: "main_time (driver_at ev m n) = of_nat n"
  by (induction n) (simp_all add: driver_init_def add.commute)

lemma time_mod_10: "n < 2 ^ 64 \<Longrightarrow> (of_nat n :: u64) mod 10 = of_nat (n mod 10)"
  by (rule unat_eqI) (simp add: unat_mod unat_of_nat)

lemma of_nat_eq_numeral_u64:
  "n < 2 ^ 64 \<Longrightarrow> k < 2 ^ 64 \<Longrightarrow> (of_nat n :: u64) = of_nat k \<longleftrightarrow> n = k"
  by (rule of_nat_u64_inj)

lemma set_clock_nat:
  assumes "n < 2 ^ 64"
  shows "set_clock (of_nat n) c = (if n mod 10 = 5 then True else if n mod 10 = 0 then False else c)"
proof -
  have "(of_nat (n mod 10) :: u64) = 5 \<longleftrightarrow> n mod 10 = 5" "(of_nat (n mod 10) :: u64) = 0 \<longleftrightarrow> n mod 10 = 0"
    using of_nat_u64_inj [of "n mod 10" 5] of_nat_u64_inj [of "n mod 10" 0] by simp_all
  then show ?thesis using time_mod_10 [OF assms] by (simp add: set_clock_def Let_def)
qed

lemma set_reset_nat: "n < 2 ^ 64 \<Longrightarrow> set_reset (of_nat n) \<longleftrightarrow> n \<le> 1 \<or> 107 \<le> n"
  by (auto simp: set_reset_def word_less_nat_alt unat_of_nat)

lemma mod_10_Suc: "(Suc n) mod 10 = (if n mod 10 = 9 then 0 else Suc (n mod 10))"
  by (simp add: mod_Suc)

lemma driver_clock: "n < 2 ^ 64 \<Longrightarrow> CLK (driver_at ev m n) \<longleftrightarrow> 5 \<le> n mod 10"
proof (induction n)
  case (Suc n)
  have "(of_nat n + 1 :: u64) = of_nat (Suc n)" by simp
  moreover have "5 \<le> Suc n mod 10 \<longleftrightarrow>
      (if Suc n mod 10 = 5 then True else if Suc n mod 10 = 0 then False else 5 \<le> n mod 10)"
    by (auto simp: mod_10_Suc)
  ultimately show ?case
    using Suc set_clock_nat [of "Suc n"] by (simp add: driver_time del: of_nat_Suc)
qed (simp add: driver_init_def)

lemma driver_reset: "n < 2 ^ 64 \<Longrightarrow> RST_N (driver_at ev m n) \<longleftrightarrow> n \<le> 1 \<or> 107 \<le> n"
proof (cases n)
  case (Suc k)
  assume "n < 2 ^ 64"
  have "(of_nat k + 1 :: u64) = of_nat n" using Suc by simp
  then show ?thesis using Suc set_reset_nat [OF \<open>n < 2 ^ 64\<close>] by (simp add: driver_time del: of_nat_Suc)
qed (simp add: driver_init_def)

lemma driver_loop_stops:
  assumes "got_finish (mkTbSoC (driver_at ev m n))" "\<forall>k<n. \<not> got_finish (mkTbSoC (driver_at ev m k))"
  shows "driver_loop ev got_finish (driver_init m) = Some (driver_at ev m n)"
proof -
  have "k \<le> n \<Longrightarrow> driver_loop ev got_finish (driver_at ev m k) = Some (driver_at ev m n)" for k
  proof (induction "n - k" arbitrary: k)
    case 0
    then show ?case using assms(1) by (subst driver_loop.simps) simp
  next
    case (Suc d)
    then have "k < n" "d = n - Suc k" by simp_all
    then have "driver_loop ev got_finish (driver_at ev m (Suc k)) = Some (driver_at ev m n)"
      using Suc(1) [of "Suc k"] by simp
    then show ?case using assms(2) \<open>k < n\<close> by (subst driver_loop.simps) simp
  qed
  from this [of 0] show ?thesis by simp
qed

subsection \<open>Properties\<close>

text \<open>
  Clock and reset. After \<open>n\<close> turns of the loop the clock is high exactly in the second half
  of each ten time units, and the active-low reset is low exactly at times 2 to 106: it is
  \<open>not\<close> asserted by the statement before the loop, and the design sees eleven rising edges (at
  5, 15, \<dots>, 105) under reset.
\<close>

theorem driver_pins:
  assumes "n < 2 ^ 64"
  shows "main_time (driver_at eval m n) = of_nat n \<and>
    (CLK (driver_at eval m n) \<longleftrightarrow> 5 \<le> n mod 10) \<and>
    (RST_N (driver_at eval m n) \<longleftrightarrow> n \<le> 1 \<or> 107 \<le> n) \<and>
    filter (\<lambda>k. \<not> CLK (driver_at eval m k) \<and> CLK (driver_at eval m (Suc k)) \<and>
       \<not> RST_N (driver_at eval m (Suc k))) [0..<200] = [4, 14, 24, 34, 44, 54, 64, 74, 84, 94, 104]"
proof (intro conjI)
  have "filter (\<lambda>k. \<not> CLK (driver_at eval m k) \<and> CLK (driver_at eval m (Suc k)) \<and>
       \<not> RST_N (driver_at eval m (Suc k))) [0..<200] =
    filter (\<lambda>k. \<not> 5 \<le> k mod 10 \<and> 5 \<le> Suc k mod 10 \<and> \<not> (Suc k \<le> 1 \<or> 107 \<le> Suc k)) [0..<200]"
    by (rule filter_cong [OF refl]) (simp add: driver_clock driver_reset del: driver_at_simps)
  also have "\<dots> = [4, 14, 24, 34, 44, 54, 64, 74, 84, 94, 104]" by code_simp
  finally show "filter (\<lambda>k. \<not> CLK (driver_at eval m k) \<and> CLK (driver_at eval m (Suc k)) \<and>
       \<not> RST_N (driver_at eval m (Suc k))) [0..<200] = [4, 14, 24, 34, 44, 54, 64, 74, 84, 94, 104]" .
qed (use assms in \<open>simp_all add: driver_time driver_clock driver_reset\<close>)

theorem driver_pins_witness:
  "CLK (driver_at (\<lambda>_ _ n. Suc n) 0 1007) \<and> RST_N (driver_at (\<lambda>_ _ n. Suc n) 0 1007)"
  using driver_pins [of 1007 "\<lambda>_ _ n. Suc n" 0] by simp

text \<open>
  End of the simulation. If the model sets its finish flag after some turn, \<open>main\<close> exits
  with status 0 and the model as it is after the first such turn; turns after it do not happen.
\<close>

theorem main_stops_at_first_finish:
  assumes "got_finish (mkTbSoC (driver_at eval m n))"
    and "\<forall>k<n. \<not> got_finish (mkTbSoC (driver_at eval m k))"
  shows "main eval got_finish final m = Some (0, final (mkTbSoC (driver_at eval m n)))"
  using driver_loop_stops [of got_finish, OF assms] by (simp add: main_def)

theorem main_stops_at_first_finish_witness:
  "main (\<lambda>_ _ n. Suc n) (\<lambda>n. n \<ge> 3) id (0 :: nat) = Some (0, 3)"
proof -
  have s: "mkTbSoC (driver_at (\<lambda>_ _ n. Suc n) (0 :: nat) k) = k" for k
    by (induction k) (simp_all add: driver_init_def)
  show ?thesis
    using main_stops_at_first_finish [of "\<lambda>n. n \<ge> 3" "\<lambda>_ _ n. Suc n" "0 :: nat" 3 id] by (simp add: s)
qed

end
