(* ===== verification/Rule_System.thy ===== *)
theory Rule_System
  imports Main
begin

section \<open>Rules that fire until they are done\<close>

text \<open>
  A Bluespec module is a set of rules that fire one at a time in an order nobody fixes. The
  contract of such a module: the rules keep an invariant, every firing uses up some of a finite
  amount of work, and only a final state can be one in which no rule fires.
\<close>

locale rule_system =
  fixes rule :: "'s \<Rightarrow> 's \<Rightarrow> bool"
    and inv :: "'s \<Rightarrow> bool"
    and final :: "'s \<Rightarrow> bool"
    and work :: "'s \<Rightarrow> nat"
  assumes keeps_inv: "inv s \<Longrightarrow> rule s s' \<Longrightarrow> inv s'"
    and uses_work: "inv s \<Longrightarrow> rule s s' \<Longrightarrow> work s' < work s"
    and not_stuck: "inv s \<Longrightarrow> \<not> final s \<Longrightarrow> \<exists>s'. rule s s'"
begin

lemma firings: "(rule ^^ n) s t \<Longrightarrow> inv s \<Longrightarrow> inv t \<and> n + work t \<le> work s"
proof (induction n arbitrary: t)
  case (Suc n)
  then obtain u where u: "(rule ^^ n) s u" "rule u t" by auto
  from Suc.IH [OF u(1) Suc.prems(2)] keeps_inv [OF _ u(2)] uses_work [OF _ u(2)] show ?case by fastforce
qed simp

lemma gets_done:
  assumes "inv s"
  shows "\<exists>n t. n \<le> work s \<and> (rule ^^ n) s t \<and> inv t \<and> final t"
  using assms
proof (induction "work s" arbitrary: s rule: less_induct)
  case less
  show ?case
  proof (cases "final s")
    case False
    then obtain s' where s': "rule s s'" using not_stuck less.prems by blast
    from less.hyps [OF uses_work [OF less.prems s'] keeps_inv [OF less.prems s']]
    obtain n t where t: "(rule ^^ n) s' t" "inv t" "final t" by blast
    have "(rule ^^ Suc n) s t" using s' t(1) by (rule relpowp_Suc_I2)
    moreover from this have "Suc n \<le> work s" using firings less.prems by fastforce
    ultimately show ?thesis using t(2,3) by blast
  qed (use less.prems in \<open>auto intro: exI [of _ 0]\<close>)
qed

lemma reachable_inv: "rule\<^sup>*\<^sup>* s t \<Longrightarrow> inv s \<Longrightarrow> inv t"
  by (induction rule: rtranclp_induct) (auto intro: keeps_inv)

end

end
