(* ===== verification/SignDump.thy ===== *)
theory SignDump
  imports Prelude Rule_System
begin

section \<open>The signature dumper of the test SoC\<close>

text \<open>
  \<open>test_soc/sign_dump.bsv\<close>, for a 32-bit physical address and a 64-bit bus: a device that
  takes three configuration writes (start, end, finish), reads the words between start and end
  over its own bus master and writes them to the file \<open>signature\<close>. Its rules are guarded
  atomic steps; any rule whose guard holds may fire next. The bus answers reads in order:
  \<open>beat a\<close> is the data and the status (True: AXI4_OKAY) of the answer to address \<open>a\<close>. A
  write waits in the slave transactor until \<open>configure_registers\<close> may fire; \<open>wr_queue\<close>
  holds the writes, as pairs of the address's low four bits and the data. The model starts after
  the first cycles, in which the rule \<open>open_file\<close> opens the file; the write responses are not
  modelled.
\<close>

record sign_dump =
  rg_start :: bool
  rg_start_address :: u32
  rg_end_address :: u32
  rg_total_count :: u32
  ff_lower_order_bits :: "3 word list"
  rd_queue :: "u32 list"
  wr_queue :: "(4 word \<times> u64) list"
  dump :: "u32 list"
  stopped :: bool

definition mksign_dump :: "(4 word \<times> u64) list \<Rightarrow> sign_dump" where
  "mksign_dump ws = \<lparr>rg_start = False, rg_start_address = 0, rg_end_address = 0, rg_total_count = 0,
     ff_lower_order_bits = [], rd_queue = [], wr_queue = ws, dump = [], stopped = False\<rparr>"

subsection \<open>The rules\<close>

text \<open>A rule's result is None when its guard does not hold. After \<open>$finish\<close> no rule fires.\<close>

definition configure_registers :: "sign_dump \<Rightarrow> sign_dump option" where
  "configure_registers d =
     (if stopped d \<or> rg_start d then None
      else case wr_queue d of [] \<Rightarrow> None
      | (awaddr, wdata) # ws \<Rightarrow>
          let d = d\<lparr>wr_queue := ws\<rparr>; w = ucast wdata in
          Some (if awaddr = 0 then d\<lparr>rg_start_address := w\<rparr>
            else if awaddr = 8 then
              let total_bytes = w - rg_start_address d
              in d\<lparr>rg_end_address := w, rg_total_count := drop_bit 2 total_bytes,
                   rg_start := (rg_start d \<or> rg_start_address d \<noteq> w)\<rparr>
            else if awaddr = 12 then d\<lparr>stopped := True\<rparr>
            else d))"

definition send_request :: "sign_dump \<Rightarrow> sign_dump option" where
  "send_request d =
     (if stopped d \<or> \<not> rg_start d then None
      else if rg_start_address d < rg_end_address d
      then if length (ff_lower_order_bits d) < 8
           then Some (d\<lparr>rd_queue := rd_queue d @ [rg_start_address d],
                  rg_start_address := rg_start_address d + 4,
                  ff_lower_order_bits := ff_lower_order_bits d @ [ucast (rg_start_address d)]\<rparr>)
           else None
      else Some d)"

definition receive_response :: "(u32 \<Rightarrow> u64 \<times> bool) \<Rightarrow> sign_dump \<Rightarrow> sign_dump option" where
  "receive_response beat d =
     (if stopped d \<or> \<not> rg_start d then None
      else case (rd_queue d, ff_lower_order_bits d) of
        (a # rds, lower_addr_bits # ffs) \<Rightarrow>
          let (rdata, okay) = beat a;
              lv_data = ucast (drop_bit (8 * unat lower_addr_bits) rdata)
          in Some (d\<lparr>rd_queue := rds, ff_lower_order_bits := ffs, dump := dump d @ [lv_data],
                     rg_total_count := rg_total_count d - 1, stopped := \<not> okay,
                     rg_start := (rg_total_count d \<noteq> 1)\<rparr>)
      | _ \<Rightarrow> None)"

inductive sd_step :: "(u32 \<Rightarrow> u64 \<times> bool) \<Rightarrow> sign_dump \<Rightarrow> sign_dump \<Rightarrow> bool"
  for beat :: "u32 \<Rightarrow> u64 \<times> bool" where
  configure: "configure_registers d = Some d' \<Longrightarrow> sd_step beat d d'"
| send: "send_request d = Some d' \<Longrightarrow> d' \<noteq> d \<Longrightarrow> sd_step beat d d'"
| receive: "receive_response beat d = Some d' \<Longrightarrow> sd_step beat d d'"

inductive sd_reach :: "(u32 \<Rightarrow> u64 \<times> bool) \<Rightarrow> sign_dump \<Rightarrow> sign_dump \<Rightarrow> bool"
  for beat :: "u32 \<Rightarrow> u64 \<times> bool" and d0 :: sign_dump where
  start: "sd_reach beat d0 d0"
| step: "sd_reach beat d0 d \<Longrightarrow> sd_step beat d d' \<Longrightarrow> sd_reach beat d0 d'"

text \<open>The word the dumper should write for address \<open>a\<close>.\<close>

definition bus_word :: "(u32 \<Rightarrow> u64 \<times> bool) \<Rightarrow> u32 \<Rightarrow> u32" where
  "bus_word beat a = ucast (drop_bit (8 * unat (ucast a :: 3 word)) (fst (beat a)))"

inductive_cases sd_step_cases: "sd_step beat d d'"

subsection \<open>The phases of a dump\<close>

text \<open>
  \<open>dumping b n i j d\<close>: of the \<open>n\<close> words from \<open>b\<close> on, \<open>i\<close> are in the file and the reads of
  the next ones, up to the \<open>j\<close>-th, are on their way.
\<close>

definition words_from :: "(u32 \<Rightarrow> u64 \<times> bool) \<Rightarrow> u32 \<Rightarrow> nat \<Rightarrow> u32 list" where
  "words_from beat b n = map (\<lambda>k. bus_word beat (b + 4 * of_nat k)) [0..<n]"

definition dumping :: "(u32 \<Rightarrow> u64 \<times> bool) \<Rightarrow> u32 \<Rightarrow> nat \<Rightarrow> nat \<Rightarrow> nat \<Rightarrow> sign_dump \<Rightarrow> bool" where
  "dumping beat b n i j d \<longleftrightarrow> rg_start d \<and> \<not> stopped d \<and> i < n \<and> i \<le> j \<and> j \<le> n \<and>
     rg_start_address d = b + 4 * of_nat j \<and> rg_end_address d = b + 4 * of_nat n \<and>
     rg_total_count d = of_nat (n - i) \<and>
     rd_queue d = map (\<lambda>k. b + 4 * of_nat k) [i..<j] \<and>
     ff_lower_order_bits d = map (\<lambda>k. ucast (b + 4 * of_nat k)) [i..<j] \<and>
     dump d = words_from beat b i"

definition idle :: "sign_dump \<Rightarrow> bool" where
  "idle d \<longleftrightarrow> \<not> rg_start d \<and> \<not> stopped d \<and> rd_queue d = [] \<and> ff_lower_order_bits d = []"

text \<open>The states of a dump that starts from the writes \<open>[(0, b), (8, e), (12, x)]\<close>.\<close>

definition dump_inv :: "(u32 \<Rightarrow> u64 \<times> bool) \<Rightarrow> u32 \<Rightarrow> nat \<Rightarrow> u64 \<Rightarrow> u64 \<Rightarrow> u64 \<Rightarrow> sign_dump \<Rightarrow> bool" where
  "dump_inv beat b n w0 w8 x d \<longleftrightarrow>
     (idle d \<and> wr_queue d = [(0, w0), (8, w8), (12, x)] \<and> dump d = []) \<or>
     (idle d \<and> wr_queue d = [(8, w8), (12, x)] \<and> dump d = [] \<and> rg_start_address d = b) \<or>
     (\<exists>i j. dumping beat b n i j d \<and> wr_queue d = [(12, x)]) \<or>
     (idle d \<and> wr_queue d = [(12, x)] \<and> dump d = words_from beat b n) \<or>
     (stopped d \<and> dump d = words_from beat b n)"

lemma words_from_Suc: "words_from beat b (Suc n) = words_from beat b n @ [bus_word beat (b + 4 * of_nat n)]"
  by (simp add: words_from_def)

lemma unat_region:
  assumes "unat b + 4 * n < 2 ^ 32" "k \<le> n"
  shows "unat (b + 4 * of_nat k :: u32) = unat b + 4 * k"
proof -
  have "(4 * of_nat k :: u32) = of_nat (4 * k)" by simp
  moreover have "unat (of_nat (4 * k) :: u32) = 4 * k" using assms by (simp add: unat_of_nat del: of_nat_mult)
  ultimately show ?thesis using assms by (simp add: unat_word_ariths del: of_nat_mult)
qed

lemma region_less:
  assumes "unat b + 4 * n < 2 ^ 32" "j \<le> n"
  shows "(b + 4 * of_nat j :: u32) < b + 4 * of_nat n \<longleftrightarrow> j < n"
  using unat_region [OF assms] unat_region [OF assms(1), of n] assms(2) by (simp add: word_less_nat_alt)

lemma dumping_send:
  assumes d: "dumping beat b n i j d" and b: "unat b + 4 * n < 2 ^ 32"
    and s: "send_request d = Some d'" "d' \<noteq> d"
  shows "dumping beat b n i (Suc j) d' \<and> wr_queue d' = wr_queue d"
proof -
  have j: "j \<le> n" "i \<le> j" using d by (auto simp: dumping_def)
  have "j < n"
    using s d region_less [OF b j(1)] by (auto simp: send_request_def dumping_def split: if_splits)
  then show ?thesis
    using s d region_less [OF b j(1)] j
    by (auto simp: send_request_def dumping_def algebra_simps split: if_splits)
qed

lemma dumping_receive:
  assumes d: "dumping beat b n i j d" and b: "unat b + 4 * n < 2 ^ 32"
    and ok: "\<forall>k<n. snd (beat (b + 4 * of_nat k))" and r: "receive_response beat d = Some d'"
  shows "wr_queue d' = wr_queue d \<and> (if Suc i = n then idle d' \<and> dump d' = words_from beat b n
    else dumping beat b n (Suc i) j d')"
proof -
  have "rd_queue d \<noteq> []"
    using r by (auto simp: receive_response_def split: if_splits)
  then have ij: "i < j" "j \<le> n" "i < n" using d by (auto simp: dumping_def)
  have total: "rg_total_count d = 1 \<longleftrightarrow> Suc i = n"
  proof -
    have "n < 2 ^ 32" using b by simp
    then have "unat (of_nat (n - i) :: u32) = n - i" by (simp only: unat_of_nat) simp
    moreover have "rg_total_count d = of_nat (n - i)" using d by (simp only: dumping_def)
    ultimately have "unat (rg_total_count d) = n - i" by simp
    then show ?thesis using ij(3) by (auto simp: word_unat_eq_iff)
  qed
  have "[i..<j] = i # [Suc i..<j]" using ij(1) by (rule upt_conv_Cons)
  moreover have "of_nat (n - i) - 1 = (of_nat (n - Suc i) :: u32)"
    using ij(3) by (simp add: of_nat_diff algebra_simps)
  moreover have "Suc i = n \<Longrightarrow> [Suc i..<j] = []" using ij by simp
  ultimately show ?thesis
    using r d ok ij total
    by (auto simp: receive_response_def dumping_def idle_def words_from_Suc bus_word_def Let_def split_beta)
qed

lemma not_started_rules:
  "\<not> rg_start d \<Longrightarrow> send_request d = None" "\<not> rg_start d \<Longrightarrow> receive_response beat d = None"
  "stopped d \<Longrightarrow> configure_registers d = None" "stopped d \<Longrightarrow> send_request d = None"
  "stopped d \<Longrightarrow> receive_response beat d = None" "rg_start d \<Longrightarrow> configure_registers d = None"
  by (simp_all add: configure_registers_def send_request_def receive_response_def)

text \<open>The writes name the region of \<open>n\<close> words from \<open>b\<close>.\<close>

definition region_writes :: "u32 \<Rightarrow> nat \<Rightarrow> u64 \<Rightarrow> u64 \<Rightarrow> bool" where
  "region_writes b n w0 w8 \<longleftrightarrow> 0 < n \<and> unat b + 4 * n < 2 ^ 32 \<and> ucast w0 = b \<and> ucast w8 = b + 4 * of_nat n"

lemma region_start:
  assumes "region_writes b n w0 w8"
  shows "b \<noteq> (ucast w8 :: u32)" "drop_bit 2 ((ucast w8 :: u32) - b) = of_nat n"
proof -
  have r: "0 < n" "unat b + 4 * n < 2 ^ 32" "(ucast w8 :: u32) = b + 4 * of_nat n"
    using assms by (auto simp: region_writes_def)
  show "b \<noteq> (ucast w8 :: u32)" using region_less [OF r(2), of 0] r(1,3) by auto
  have "(4 * of_nat n :: u32) = of_nat (4 * n)" by simp
  then have "unat (4 * of_nat n :: u32) = 4 * n"
    using r(2) by (simp add: unat_of_nat del: of_nat_mult)
  then have "unat (drop_bit 2 (4 * of_nat n :: u32)) = n" by (simp add: drop_bit_eq_div unat_div)
  then show "drop_bit 2 ((ucast w8 :: u32) - b) = of_nat n" by (simp add: r(3) word_of_unat)
qed

text \<open>The steps that are left at most.\<close>

definition work :: "nat \<Rightarrow> sign_dump \<Rightarrow> nat" where
  "work n d = (2 * n + 2) * length (wr_queue d) +
     (if rg_start d then 2 * (unat (rg_end_address d - rg_start_address d) div 4) + length (rd_queue d) + 1 else 0)"

lemma dumping_work:
  assumes d: "dumping beat b n i j d" and b: "unat b + 4 * n < 2 ^ 32"
  shows "work n d = (2 * n + 2) * length (wr_queue d) + 2 * (n - j) + (j - i) + 1"
proof -
  have j: "j \<le> n" using d by (simp add: dumping_def)
  have "rg_end_address d - rg_start_address d = of_nat (4 * (n - j))"
    using d j by (simp add: dumping_def of_nat_diff algebra_simps)
  moreover have "unat (of_nat (4 * (n - j)) :: u32) = 4 * (n - j)"
    using b j by (simp only: unat_of_nat) simp
  ultimately show ?thesis using d by (simp add: work_def dumping_def)
qed

text \<open>One lemma for each phase of a dump.\<close>

lemma idle_step: "idle d \<Longrightarrow> sd_step beat d d' \<Longrightarrow> configure_registers d = Some d'"
  by (auto elim!: sd_step_cases simp: idle_def not_started_rules)

lemma configure_start:
  assumes "region_writes b n w0 w8" and "idle d" "wr_queue d = [(0, w0), (8, w8), (12, x)]" "dump d = []"
    and "sd_step beat d d'"
  shows "dump_inv beat b n w0 w8 x d' \<and> work n d' < work n d"
proof -
  have "d' = d\<lparr>wr_queue := [(8, w8), (12, x)], rg_start_address := b\<rparr>"
    using idle_step [OF assms(2,5)] assms(1-4) by (simp add: configure_registers_def idle_def region_writes_def)
  then have "idle d' \<and> wr_queue d' = [(8, w8), (12, x)] \<and> dump d' = [] \<and> rg_start_address d' = b"
    "work n d' < work n d"
    using assms(2-4) by (simp_all add: idle_def work_def)
  then show ?thesis unfolding dump_inv_def by blast
qed

lemma configure_end:
  assumes w: "region_writes b n w0 w8" and "idle d" "wr_queue d = [(8, w8), (12, x)]" "dump d = []"
    and "rg_start_address d = b" and "sd_step beat d d'"
  shows "dump_inv beat b n w0 w8 x d' \<and> work n d' < work n d"
proof -
  have r: "0 < n" "unat b + 4 * n < 2 ^ 32" "ucast w8 = b + 4 * of_nat n"
    using w by (auto simp: region_writes_def)
  have d': "d' = d\<lparr>wr_queue := [(12, x)], rg_end_address := ucast w8,
      rg_total_count := drop_bit 2 (ucast w8 - b), rg_start := True\<rparr>"
    using idle_step [OF assms(2,6)] assms(2-5) region_start(1) [OF w]
    by (simp add: configure_registers_def idle_def Let_def)
  have "dumping beat b n 0 0 d' \<and> wr_queue d' = [(12, x)]"
    unfolding d' region_start(2) [OF w] using assms(2-5) r by (simp add: idle_def dumping_def words_from_def)
  moreover from this have "work n d' < work n d"
    using dumping_work [of beat b n 0 0 d', OF _ r(2)] assms(2,3) by (simp add: work_def idle_def)
  ultimately show ?thesis unfolding dump_inv_def by blast
qed

lemma dumping_step:
  assumes w: "region_writes b n w0 w8" and ok: "\<forall>k<n. snd (beat (b + 4 * of_nat k))"
    and d: "dumping beat b n i j d" "wr_queue d = [(12, x)]" and st: "sd_step beat d d'"
  shows "dump_inv beat b n w0 w8 x d' \<and> work n d' < work n d"
proof -
  have r: "unat b + 4 * n < 2 ^ 32" using w by (auto simp: region_writes_def)
  note before = dumping_work [OF d(1) r]
  from st show ?thesis
  proof cases
    case configure
    moreover have "rg_start d" using d(1) by (simp add: dumping_def)
    ultimately show ?thesis by (simp add: not_started_rules)
  next
    case send
    then have d': "dumping beat b n i (Suc j) d'" "wr_queue d' = wr_queue d"
      using dumping_send [OF d(1) r] by blast+
    moreover have "i \<le> j" "Suc j \<le> n" using d(1) d'(1) by (simp_all add: dumping_def)
    ultimately have "work n d' < work n d" using before dumping_work [OF d'(1) r] by simp
    with d' d(2) show ?thesis unfolding dump_inv_def by metis
  next
    case receive
    note d' = dumping_receive [OF d(1) r ok receive]
    show ?thesis
    proof (cases "Suc i = n")
      case True
      then have "idle d'" "wr_queue d' = wr_queue d" "dump d' = words_from beat b n" using d' by simp_all
      moreover from this have "work n d' < work n d" using before by (simp add: work_def idle_def)
      ultimately show ?thesis using d(2) unfolding dump_inv_def by metis
    next
      case False
      then have e: "dumping beat b n (Suc i) j d'" "wr_queue d' = wr_queue d" using d' by simp_all
      moreover have "Suc i \<le> j" using e(1) by (simp add: dumping_def)
      ultimately have "work n d' < work n d" using before dumping_work [OF e(1) r] by simp
      with e d(2) show ?thesis unfolding dump_inv_def by metis
    qed
  qed
qed

lemma configure_control:
  assumes "idle d" "wr_queue d = [(12, x)]" "dump d = words_from beat b n" and "sd_step beat d d'"
  shows "dump_inv beat b n w0 w8 x d' \<and> work n d' < work n d"
proof -
  have "d' = d\<lparr>wr_queue := [], stopped := True\<rparr>"
    using idle_step [OF assms(1,4)] assms(1,2) by (simp add: configure_registers_def idle_def)
  then have "stopped d' \<and> dump d' = words_from beat b n" "work n d' < work n d"
    using assms(1-3) by (simp_all add: work_def idle_def)
  then show ?thesis unfolding dump_inv_def by blast
qed

lemma dump_inv_step:
  assumes w: "region_writes b n w0 w8" and ok: "\<forall>k<n. snd (beat (b + 4 * of_nat k))"
    and inv: "dump_inv beat b n w0 w8 x d" and st: "sd_step beat d d'"
  shows "dump_inv beat b n w0 w8 x d' \<and> work n d' < work n d"
proof -
  have "\<not> stopped d" using st by (auto elim!: sd_step_cases simp: not_started_rules)
  with inv consider
    (start) "idle d" "wr_queue d = [(0, w0), (8, w8), (12, x)]" "dump d = []"
    | (ending) "idle d" "wr_queue d = [(8, w8), (12, x)]" "dump d = []" "rg_start_address d = b"
    | (dumping) i j where "dumping beat b n i j d" "wr_queue d = [(12, x)]"
    | (control) "idle d" "wr_queue d = [(12, x)]" "dump d = words_from beat b n"
    unfolding dump_inv_def by blast
  then show ?thesis
  proof cases
    case start
    then show ?thesis using w st by (intro configure_start)
  next
    case ending
    then show ?thesis using w st by (intro configure_end)
  next
    case dumping
    then show ?thesis using w ok st by (intro dumping_step)
  next
    case control
    then show ?thesis using st by (intro configure_control)
  qed
qed

lemma dump_inv_reach:
  assumes "region_writes b n w0 w8" "\<forall>k<n. snd (beat (b + 4 * of_nat k))"
    and "sd_reach beat (mksign_dump [(0, w0), (8, w8), (12, x)]) d"
  shows "dump_inv beat b n w0 w8 x d"
  using assms(3)
proof (induction rule: sd_reach.induct)
  case start
  then show ?case by (simp add: dump_inv_def idle_def mksign_dump_def)
next
  case (step d d')
  then show ?case using dump_inv_step [OF assms(1,2)] by blast
qed

text \<open>No state before the end is stuck.\<close>

lemma dump_inv_progress:
  assumes w: "region_writes b n w0 w8" and inv: "dump_inv beat b n w0 w8 x d" and ns: "\<not> stopped d"
  shows "\<exists>d'. sd_step beat d d'"
proof -
  have r: "unat b + 4 * n < 2 ^ 32" using w by (auto simp: region_writes_def)
  from inv ns consider (idle) "idle d" "wr_queue d \<noteq> []"
    | (dumping) i j where "dumping beat b n i j d"
    unfolding dump_inv_def by force
  then show ?thesis
  proof cases
    case idle
    then obtain a w ws where "wr_queue d = (a, w) # ws" by (cases "wr_queue d") auto
    then have "\<exists>d'. configure_registers d = Some d'"
      using idle by (simp add: configure_registers_def idle_def Let_def)
    then show ?thesis by (blast intro: sd_step.configure)
  next
    case dumping
    show ?thesis
    proof (cases "i < j")
      case True
      then have "\<exists>d'. receive_response beat d = Some d'"
        using dumping by (auto simp: receive_response_def dumping_def upt_conv_Cons Let_def split_beta)
      then show ?thesis by (blast intro: sd_step.receive)
    next
      case False
      then have ij: "i = j" "j < n" using dumping by (auto simp: dumping_def)
      let ?d = "d\<lparr>rd_queue := rd_queue d @ [rg_start_address d],
          rg_start_address := rg_start_address d + 4,
          ff_lower_order_bits := ff_lower_order_bits d @ [ucast (rg_start_address d)]\<rparr>"
      have "send_request d = Some ?d"
        using dumping ij region_less [OF r, of j] by (simp add: send_request_def dumping_def)
      moreover have "?d \<noteq> d"
      proof
        assume "?d = d"
        then have "rd_queue ?d = rd_queue d" by (rule arg_cong)
        then show False by simp
      qed
      ultimately show ?thesis by (blast intro: sd_step.send)
    qed
  qed
qed

text \<open>A configured dumper, for any region and bus, is a rule system that ends when it has stopped.\<close>

interpretation dumper: rule_system "sd_step beat"
    "\<lambda>d. region_writes b n w0 w8 \<and> (\<forall>k<n. snd (beat (b + 4 * of_nat k))) \<and> dump_inv beat b n w0 w8 x d"
    stopped "work n" for beat b n w0 w8 x
  by unfold_locales (use dump_inv_step dump_inv_progress in blast)+

subsection \<open>Properties\<close>

text \<open>
  C3 (a signature dump). Configured with the start and the end of a region of \<open>n\<close> words and then
  told to finish, the device fires its rules in whatever order: when it has stopped, the file
  holds exactly the words of the region in order; before that some rule can always fire, each
  one brings it closer to the end, and it gets there with the complete signature.
\<close>

theorem signature_dump_complete:
  assumes "0 < n" and "unat b + 4 * n < 2 ^ 32" and "\<forall>k<n. snd (beat (b + 4 * of_nat k))"
    and "sd_reach beat (mksign_dump [(0, ucast b), (8, ucast (b + 4 * of_nat n)), (12, x)]) d"
  shows "if stopped d then dump d = map (\<lambda>k. bus_word beat (b + 4 * of_nat k)) [0..<n]
    else (\<exists>d'. sd_step beat d d') \<and> (\<forall>d'. sd_step beat d d' \<longrightarrow> work n d' < work n d) \<and>
      (\<exists>m e. m \<le> work n d \<and> (sd_step beat ^^ m) d e \<and> stopped e \<and>
        dump e = map (\<lambda>k. bus_word beat (b + 4 * of_nat k)) [0..<n])"
proof -
  have u: "(ucast (ucast v :: u64) :: u32) = v" for v :: u32
    by (rule bit_word_eqI) (simp add: bit_ucast_iff)
  have w: "region_writes b n (ucast b) (ucast (b + 4 * of_nat n))"
    using assms(1,2) by (simp add: region_writes_def u)
  have inv: "dump_inv beat b n (ucast b) (ucast (b + 4 * of_nat n)) x d"
    using dump_inv_reach [OF w assms(3,4)] .
  have complete: "dump e = words_from beat b n" if "stopped e" "dump_inv beat b n (ucast b) (ucast (b + 4 * of_nat n)) x e" for e
    using that by (auto simp: dump_inv_def idle_def dumping_def)
  obtain m e where "m \<le> work n d" "(sd_step beat ^^ m) d e" "stopped e" "dump e = words_from beat b n"
    using dumper.gets_done [of b n "ucast b" "ucast (b + 4 * of_nat n)" beat x d] w assms(3) inv complete by blast
  with complete [OF _ inv] dump_inv_progress [OF w inv] dump_inv_step [OF w assms(3) inv] show ?thesis
    unfolding words_from_def by auto
qed

theorem signature_dump_complete_witness:
  "\<exists>d'. sd_step (\<lambda>a. (ucast a, True)) (mksign_dump [(0, 0x80001000), (8, 0x80001010), (12, 0)]) d' \<and>
     work 4 d' < work 4 (mksign_dump [(0, 0x80001000), (8, 0x80001010), (12, 0)])"
proof -
  let ?d = "mksign_dump [(0, 0x80001000), (8, 0x80001010), (12, 0)]"
  have "sd_reach (\<lambda>a. (ucast a, True)) ?d ?d" by (rule sd_reach.start)
  then show ?thesis
    using signature_dump_complete [of 4 "0x80001000" "\<lambda>a. (ucast a, True)" 0 ?d]
    by (auto simp: mksign_dump_def)
qed

end
