(* ===== verification/Compliance.thy ===== *)
theory Compliance
  imports LibC Encoding SignDump
begin

section \<open>The model macros of the compliance tests\<close>

text \<open>
  \<open>micro-arch-tests/performance_tests/micro-arch-tests/env/compliance_model.h\<close>: the assembly
  that a test includes to set up the performance counters (\<open>RVMODEL_IO_INIT\<close>), to print a
  string on the UART (\<open>RVMODEL_IO_WRITE_STR\<close> and its routine \<open>FN_WriteStr\<close>) and to end
  the simulation (\<open>RVMODEL_HALT\<close>), beside the macro of \<open>env/p/riscv_test.h\<close> that ends the
  other tests. The macros that are empty or only emit data are not modelled.
\<close>

subsection \<open>RVMODEL_IO_INIT\<close>

definition io_init_events :: "(string \<times> u64) list" where
  "io_init_events = [
    (''mhpmevent3'', 1), (''mhpmevent4'', 2), (''mhpmevent5'', 3), (''mhpmevent6'', 4),
    (''mhpmevent7'', 5), (''mhpmevent8'', 6), (''mhpmevent9'', 7), (''mhpmevent10'', 8),
    (''mhpmevent11'', 9), (''mhpmevent12'', 10), (''mhpmevent13'', 11), (''mhpmevent14'', 12),
    (''mhpmevent15'', 13), (''mhpmevent16'', 14), (''mhpmevent17'', 15), (''mhpmevent18'', 16),
    (''mhpmevent19'', 17), (''mhpmevent20'', 18), (''mhpmevent21'', 19), (''mhpmevent22'', 20),
    (''mhpmevent23'', 21), (''mhpmevent24'', 22), (''mhpmevent25'', 23), (''mhpmevent26'', 24),
    (''mhpmevent27'', 25), (''mhpmevent28'', 26), (''mhpmevent29'', 27), (''mhpmevent30'', 28),
    (''mhpmevent31'', 29)]"

text \<open>\<open>csrs mstatus, t0\<close>, then one \<open>csrwi\<close> after the other.\<close>

definition RVMODEL_IO_INIT :: "csr_file \<Rightarrow> csr_file" where
  "RVMODEL_IO_INIT f =
     fold (\<lambda>(reg, v) f. write_csr f reg v) io_init_events
       (snd (set_csr f ''mstatus'' (MSTATUS_FS OR MSTATUS_XS)))"

lemma fold_write_csr:
  "distinct (map fst rs) \<Longrightarrow>
   fold (\<lambda>(reg, v) f. write_csr f reg v) rs f x = (case map_of rs x of None \<Rightarrow> f x | Some v \<Rightarrow> v)"
proof (induction rs arbitrary: f)
  case (Cons r rs)
  obtain reg v where r: "r = (reg, v)" by (cases r)
  have "map_of rs reg = None" using Cons.prems by (simp add: r map_of_eq_None_iff)
  then show ?case using Cons by (auto simp: r write_csr_def split: option.splits)
qed simp

subsection \<open>FN_WriteStr\<close>

text \<open>
  The UART's status register is read at \<open>0x11300 + 12\<close>, a byte is sent by a store to
  \<open>0x11300 + 4\<close>. \<open>status n\<close> is what the \<open>n\<close>-th read gives; the environment fixes it.
\<close>

record uart =
  status_reads :: nat
  sent :: "byte list"

partial_function (option) wait_status :: "(nat \<Rightarrow> byte) \<Rightarrow> byte \<Rightarrow> uart \<Rightarrow> uart option" where
  "wait_status status bits u =
     (let a1 = status (status_reads u) AND bits; u = u\<lparr>status_reads := Suc (status_reads u)\<rparr>
      in if a1 = 0 then wait_status status bits u else Some u)"

text \<open>The loop at the label 10000, with \<open>t0\<close> the pointer; it returns the final pointer.\<close>

partial_function (option) FN_WriteStr ::
    "(nat \<Rightarrow> byte) \<Rightarrow> xlate \<Rightarrow> pmem \<Rightarrow> addr \<Rightarrow> uart \<Rightarrow> (addr \<times> uart) option" where
  "FN_WriteStr status tr m t0 u =
     (let a0 = load8 tr m t0; t0 = t0 + 1 in
      if a0 = 0 then Some (t0, u)
      else Option.bind (wait_status status 2 u)
             (\<lambda>u. FN_WriteStr status tr m t0 (u\<lparr>sent := sent u @ [a0]\<rparr>)))"

text \<open>A UART whose status shows the bits of \<open>bits\<close> again and again.\<close>

definition uart_live :: "(nat \<Rightarrow> byte) \<Rightarrow> byte \<Rightarrow> bool" where
  "uart_live status bits \<longleftrightarrow> (\<forall>n. \<exists>k\<ge>n. status k AND bits \<noteq> 0)"

lemma wait_status_at:
  "status (status_reads u + d) AND bits \<noteq> 0 \<Longrightarrow>
   \<exists>n. wait_status status bits u = Some (u\<lparr>status_reads := n\<rparr>)"
proof (induction d arbitrary: u)
  case 0
  then show ?case by (subst wait_status.simps) (auto simp: Let_def)
next
  case (Suc d)
  show ?case
  proof (cases "status (status_reads u) AND bits = 0")
    case True
    have "\<exists>n. wait_status status bits (u\<lparr>status_reads := Suc (status_reads u)\<rparr>) =
        Some (u\<lparr>status_reads := Suc (status_reads u)\<rparr>\<lparr>status_reads := n\<rparr>)"
      using Suc.IH [of "u\<lparr>status_reads := Suc (status_reads u)\<rparr>"] Suc.prems by simp
    with True show ?thesis by (subst wait_status.simps) (simp add: Let_def)
  next
    case False
    then show ?thesis by (subst wait_status.simps) (auto simp: Let_def)
  qed
qed

lemma wait_status_live:
  assumes "uart_live status bits"
  shows "\<exists>n. wait_status status bits u = Some (u\<lparr>status_reads := n\<rparr>)"
proof -
  obtain k where k: "status_reads u \<le> k" "status k AND bits \<noteq> 0"
    using assms by (auto simp: uart_live_def)
  then have "status (status_reads u + (k - status_reads u)) AND bits \<noteq> 0" by simp
  then show ?thesis by (rule wait_status_at)
qed

lemma FN_WriteStr_sends:
  assumes live: "uart_live status 2"
  shows "cstr_at tr m t0 cs \<Longrightarrow> \<exists>n. FN_WriteStr status tr m t0 u =
    Some (t0 + of_nat (Suc (length cs)), \<lparr>status_reads = n, sent = sent u @ cs\<rparr>)"
proof (induction cs arbitrary: t0 u)
  case Nil
  then show ?case
    by (subst FN_WriteStr.simps) (auto simp: Let_def intro!: exI [of _ "status_reads u"])
next
  case (Cons c cs)
  obtain n where n: "wait_status status 2 u = Some (u\<lparr>status_reads := n\<rparr>)"
    using wait_status_live [OF live] by blast
  have c: "load8 tr m t0 = c" "c \<noteq> 0" "cstr_at tr m (t0 + 1) cs" using Cons.prems by auto
  let ?u = "u\<lparr>status_reads := n, sent := sent u @ [c]\<rparr>"
  obtain k where "FN_WriteStr status tr m (t0 + 1) ?u =
      Some (t0 + 1 + of_nat (Suc (length cs)), \<lparr>status_reads = k, sent = sent ?u @ cs\<rparr>)"
    using Cons.IH [OF c(3), of ?u] by blast
  then show ?case using n c(1,2) by (subst FN_WriteStr.simps) (simp add: Let_def add.assoc)
qed

subsection \<open>RVMODEL_HALT\<close>

text \<open>
  The stores to the signature device, in order, as pairs of the offset from \<open>0x20000\<close> and the
  value: \<open>t5\<close> is what the register holds on entry. Before them the macro waits for the UART
  to be idle (bit 0 of its status).
\<close>

definition halt_stores :: "u64 \<Rightarrow> addr \<Rightarrow> addr \<Rightarrow> (4 word \<times> u64) list" where
  "halt_stores t5 begin_signature end_signature =
     [(12, t5), (0, begin_signature), (8, end_signature), (12, end_signature)]"

definition RVMODEL_HALT ::
    "(nat \<Rightarrow> byte) \<Rightarrow> uart \<Rightarrow> u64 \<Rightarrow> addr \<Rightarrow> addr \<Rightarrow> (uart \<times> (4 word \<times> u64) list) option" where
  "RVMODEL_HALT status u t5 begin_signature end_signature =
     map_option (\<lambda>u. (u, halt_stores t5 begin_signature end_signature)) (wait_status status 1 u)"

text \<open>The code at \<open>shakti_end\<close> in \<open>env/p/riscv_test.h\<close>.\<close>

definition shakti_end_stores :: "addr \<Rightarrow> addr \<Rightarrow> (4 word \<times> u64) list" where
  "shakti_end_stores begin_signature end_signature =
     [(0, begin_signature), (8, end_signature), (12, end_signature)]"

lemma halt_reach:
  assumes "sd_reach beat (mksign_dump (halt_stores t5 b e)) d"
  shows "d = mksign_dump (halt_stores t5 b e) \<or>
    d = (mksign_dump [(0, b), (8, e), (12, e)])\<lparr>stopped := True\<rparr>"
  using assms
proof (induction rule: sd_reach.induct)
  case (step d d')
  then show ?case
    by (auto elim!: sd_step_cases simp: not_started_rules mksign_dump_def halt_stores_def configure_registers_def)
qed simp

subsection \<open>Properties\<close>

text \<open>
  Counter set-up. RVMODEL_IO_INIT makes counter \<open>k\<close> (3 to 31) count the event whose number
  is \<open>k - 2\<close>, so the counters count the events of encoding.h in the order of that header, except
  the last, \<open>dtlb_misses\<close>, which no counter counts; it turns FS and XS on and touches no other
  register.
\<close>

theorem io_init_counts_events:
  "list_all2 (\<lambda>(reg, v) (event, n). RVMODEL_IO_INIT f reg = n) io_init_events (butlast perf_event_ids) \<and>
   last perf_event_ids = (''dtlb_misses'', 30) \<and>
   RVMODEL_IO_INIT f ''mstatus'' = f ''mstatus'' OR MSTATUS_FS OR MSTATUS_XS \<and>
   (\<forall>reg. reg \<notin> insert ''mstatus'' (fst ` set io_init_events) \<longrightarrow> RVMODEL_IO_INIT f reg = f reg)"
proof -
  have d: "distinct (map fst io_init_events)" by (simp add: io_init_events_def)
  have e: "RVMODEL_IO_INIT f x = (case map_of io_init_events x of
      None \<Rightarrow> (if x = ''mstatus'' then f x OR (MSTATUS_FS OR MSTATUS_XS) else f x) | Some v \<Rightarrow> v)" for x
    unfolding RVMODEL_IO_INIT_def fold_write_csr [OF d] by (auto simp: set_csr_def split: option.split)
  have "RVMODEL_IO_INIT f reg = v" if "(reg, v) \<in> set io_init_events" for reg v
    using map_of_is_SomeI [OF d that] by (simp add: e)
  then have "map (\<lambda>r. RVMODEL_IO_INIT f (fst r)) io_init_events = map snd io_init_events" by auto
  moreover have "map snd io_init_events = map snd (butlast perf_event_ids)"
    by (simp add: io_init_events_def perf_event_ids_def)
  ultimately have "list_all2 (\<lambda>r n. RVMODEL_IO_INIT f (fst r) = n) io_init_events (map snd (butlast perf_event_ids))"
    by (metis list_all2_eq list_all2_map1)
  then have "list_all2 (\<lambda>(reg, v) (event, n). RVMODEL_IO_INIT f reg = n) io_init_events (butlast perf_event_ids)"
    unfolding list_all2_map2 by (rule list_all2_mono) auto
  moreover have "RVMODEL_IO_INIT f reg = f reg" if "reg \<notin> insert ''mstatus'' (fst ` set io_init_events)" for reg
  proof -
    have "map_of io_init_events reg = None" using that by (simp add: map_of_eq_None_iff)
    with that show ?thesis by (simp add: e)
  qed
  moreover have "map_of io_init_events ''mstatus'' = None" by (simp add: io_init_events_def)
  ultimately show ?thesis by (simp add: e perf_event_ids_def or.assoc)
qed

theorem io_init_counts_events_witness:
  "RVMODEL_IO_INIT (\<lambda>_. 0x8) ''mie'' = 0x8"
proof -
  have "''mie'' \<notin> insert ''mstatus'' (fst ` set io_init_events)" by (simp add: io_init_events_def)
  from io_init_counts_events [THEN conjunct2, THEN conjunct2, THEN conjunct2, rule_format, OF this]
  show ?thesis .
qed

text \<open>
  FN_WriteStr. With a UART that is ready to take a byte again and again, the routine returns
  and has sent exactly the bytes of the string, without its final 0, in order.
\<close>

theorem write_str_sends_string:
  assumes "uart_live status 2" and "cstr_at tr m t0 cs"
  shows "\<exists>n. FN_WriteStr status tr m t0 u =
    Some (t0 + of_nat (Suc (length cs)), \<lparr>status_reads = n, sent = sent u @ cs\<rparr>)"
  using FN_WriteStr_sends [OF assms] .

theorem write_str_sends_string_witness:
  "\<exists>n. FN_WriteStr (\<lambda>n. if even n then 2 else 0) id ((\<lambda>_. 0)(0x1000 := 72, 0x1001 := 105)) 0x1000
     \<lparr>status_reads = 1, sent = []\<rparr> = Some (0x1003, \<lparr>status_reads = n, sent = [72, 105]\<rparr>)"
proof -
  have "uart_live (\<lambda>n. if even n then 2 else 0) 2"
    unfolding uart_live_def
  proof
    fix n :: nat
    show "\<exists>k\<ge>n. (if even k then 2 else 0) AND (2 :: byte) \<noteq> 0" by (rule exI [of _ "2 * n"]) simp
  qed
  moreover have "cstr_at id ((\<lambda>_. 0)(0x1000 := 72, 0x1001 := 105)) 0x1000 [72, 105]"
    by (simp add: load8_def)
  ultimately show ?thesis
    using write_str_sends_string [of "\<lambda>n. if even n then 2 else 0" id
        "(\<lambda>_. 0)(0x1000 := 72, 0x1001 := 105)" "0x1000" "[72, 105]" "\<lparr>status_reads = 1, sent = []\<rparr>"] by simp
qed

text \<open>
  C40 (RVMODEL_HALT loses the signature). The macro's first store to the signature device is the
  one that stops the simulation: in every state the device can reach, the file is empty, and the
  start and end of the signature are never taken, whatever they are. The order at
  \<open>shakti_end\<close> in \<open>env/p/riscv_test.h\<close> has no such store in front.
\<close>

theorem halt_drops_signature:
  "(\<forall>d. sd_reach beat (mksign_dump (halt_stores t5 b e)) d \<longrightarrow>
      dump d = [] \<and> rg_start_address d = 0 \<and> \<not> rg_start d) \<and>
   sd_reach beat (mksign_dump (halt_stores t5 b e))
     ((mksign_dump (shakti_end_stores b e))\<lparr>stopped := True\<rparr>)"
proof
  show "\<forall>d. sd_reach beat (mksign_dump (halt_stores t5 b e)) d \<longrightarrow>
      dump d = [] \<and> rg_start_address d = 0 \<and> \<not> rg_start d"
  proof (intro allI impI)
    fix d
    assume "sd_reach beat (mksign_dump (halt_stores t5 b e)) d"
    from halt_reach [OF this] show "dump d = [] \<and> rg_start_address d = 0 \<and> \<not> rg_start d"
      by (auto simp: mksign_dump_def)
  qed
  have "configure_registers (mksign_dump (halt_stores t5 b e)) =
      Some ((mksign_dump (shakti_end_stores b e))\<lparr>stopped := True\<rparr>)"
    by (simp add: configure_registers_def mksign_dump_def halt_stores_def shakti_end_stores_def)
  then show "sd_reach beat (mksign_dump (halt_stores t5 b e))
     ((mksign_dump (shakti_end_stores b e))\<lparr>stopped := True\<rparr>)"
    by (blast intro: sd_reach.start sd_reach.step sd_step.configure)
qed

theorem halt_drops_signature_witness:
  "dump ((mksign_dump (shakti_end_stores 0x80001000 0x80001010))\<lparr>stopped := True\<rparr>) = []"
  using halt_drops_signature [of "\<lambda>a. (ucast a, True)" 7 "0x80001000" "0x80001010"] by blast

end
