(* ===== verification/PBox_Mult.thy ===== *)
theory PBox_Mult
  imports Prelude
begin

section \<open>The array multipliers of the P-box\<close>

text \<open>
  \<open>src/pbox/usmultiplier.bsv\<close> and \<open>src/pbox/multiplier_by4.bsv\<close>: a carry-save array with
  the Baugh-Wooley correction for signed operands. \<open>Bit#(n)\<close> is \<open>'n word\<close>; a bit of the
  source is a truth value. The result type \<open>Bit#(TAdd#(n,m))\<close> is a third word type \<open>'p\<close>,
  and the theorems say that it has \<open>n + m\<close> bits.
\<close>

subsection \<open>Words given by their bits\<close>

definition word_of_bits :: "(nat \<Rightarrow> bool) \<Rightarrow> 'a::len word" where
  "word_of_bits f = horner_sum of_bool 2 (map f [0..<LENGTH('a)])"

lemma bit_word_of_bits [simp]:
  "bit (word_of_bits f :: 'a::len word) i \<longleftrightarrow> i < LENGTH('a) \<and> f i"
  by (auto simp: word_of_bits_def bit_horner_sum_bit_word_iff)

lemma uint_sum_bits: "uint w = (\<Sum>i<LENGTH('a). of_bool (bit w i) * 2 ^ i)" for w :: "'a::len word"
proof -
  have "uint w = horner_sum of_bool 2 (map (bit (uint w)) [0..<LENGTH('a)])"
    by (simp only: horner_sum_bit_eq_take_bit) (simp add: take_bit_int_eq_self)
  also have "\<dots> = (\<Sum>i<LENGTH('a). of_bool (bit w i) * 2 ^ i)"
    by (simp add: horner_sum_eq_sum bit_uint_iff atLeast0LessThan [symmetric])
  finally show ?thesis .
qed

lemma uint_word_of_bits:
  "uint (word_of_bits f :: 'a::len word) = (\<Sum>i<LENGTH('a). of_bool (f i) * 2 ^ i)"
  by (simp add: uint_sum_bits)

subsection \<open>One row of adders\<close>

definition gen_carry :: "'x::len word \<Rightarrow> 'x word \<Rightarrow> 'x word \<Rightarrow> 'x word" where
  "gen_carry snew_prev s cin = word_of_bits (\<lambda>i.
     if i \<noteq> LENGTH('x) - 1
     then bit snew_prev (i + 1) \<and> bit s i \<or> bit snew_prev (i + 1) \<and> bit cin i \<or> bit s i \<and> bit cin i
     else bit s i \<and> bit cin i)"

definition gen_sum :: "'x::len word \<Rightarrow> 'x word \<Rightarrow> 'x word \<Rightarrow> 'x word" where
  "gen_sum snew_prev s cin = word_of_bits (\<lambda>i.
     if i \<noteq> LENGTH('x) - 1 then (bit snew_prev (i + 1) \<noteq> bit s i) \<noteq> bit cin i
     else bit s i \<noteq> bit cin i)"

subsection \<open>usMult\<close>

text \<open>\<open>snew[v]\<close> and \<open>carries[v]\<close>, from the partial products \<open>s\<close> and \<open>carries[0]\<close>.\<close>

fun us_rows :: "(nat \<Rightarrow> 'n::len word) \<Rightarrow> 'n word \<Rightarrow> nat \<Rightarrow> 'n word \<times> 'n word" where
  "us_rows s c0 0 = (s 0, c0)"
| "us_rows s c0 (Suc v) =
     (let (snew, carries) = us_rows s c0 v
      in (gen_sum snew (s (v + 1)) carries, gen_carry snew (s (v + 1)) carries))"

definition us_partial :: "'n::len word \<Rightarrow> 'm::len word \<Rightarrow> bool \<Rightarrow> nat \<Rightarrow> 'n word" where
  "us_partial a b sg i = word_of_bits (\<lambda>j.
     if (j = LENGTH('n) - 1 \<or> i = LENGTH('m) - 1) \<and> \<not> (j = LENGTH('n) - 1 \<and> i = LENGTH('m) - 1)
     then (bit a j \<and> bit b i) \<noteq> sg
     else bit a j \<and> bit b i)"

definition us_carry0 :: "'m::len itself \<Rightarrow> bool \<Rightarrow> 'n::len word" where
  "us_carry0 _ sg =
     (if LENGTH('n) = LENGTH('m) then word_of_bits (\<lambda>j. j = LENGTH('n) - 1 \<and> sg)
      else word_of_bits (\<lambda>j. (j = LENGTH('n) - 2 \<or> j = LENGTH('m) - 2) \<and> sg))"

text \<open>The vector merge: \<open>{sgn, snew[m-1][n-1:1]} + carries[m-1]\<close> in front of the direct sum.\<close>

definition us_merge :: "(nat \<Rightarrow> 'n::len word) \<Rightarrow> 'n word \<Rightarrow> 'm::len itself \<Rightarrow> bool \<Rightarrow> 'p::len word" where
  "us_merge s c0 _ sg =
     (let direct_sum = (word_of_bits (\<lambda>v. bit (fst (us_rows s c0 v)) 0) :: 'm word);
          (snew, carries) = us_rows s c0 (LENGTH('m) - 1);
          final_sum = word_of_bits (\<lambda>j. if j = LENGTH('n) - 1 then sg else bit snew (j + 1)) + carries
      in word_cat final_sum direct_sum)"

definition usMult :: "'n::len word \<Rightarrow> 'm::len word \<Rightarrow> bool \<Rightarrow> 'p::len word" where
  "usMult a b sg = us_merge (us_partial a b sg) (us_carry0 TYPE('m) sg) TYPE('m) sg"

subsection \<open>A row keeps the sum\<close>

lemma gen_sum_eq: "gen_sum p s c = drop_bit 1 p XOR s XOR c"
  by (rule bit_word_eqI) (auto simp: gen_sum_def bit_simps dest: bit_imp_le_length)

lemma gen_carry_eq:
  "gen_carry p s c = (drop_bit 1 p AND s) OR (drop_bit 1 p AND c) OR (s AND c)"
  by (rule bit_word_eqI) (auto simp: gen_carry_def bit_simps dest: bit_imp_le_length)

lemma add_xor_and: "a + b = (a XOR b) + 2 * (a AND b)" for a b :: int
proof -
  have "a = (a AND b) OR (a AND NOT b)" "b = (a AND b) OR (NOT a AND b)"
    by (auto intro!: bit_eqI simp: bit_simps)
  moreover have "(a AND b) OR (a AND NOT b) = (a AND b) + (a AND NOT b)"
    "(a AND b) OR (NOT a AND b) = (a AND b) + (NOT a AND b)"
    by (intro disjunctive_add_eq_or [symmetric] bit_eqI; auto simp: bit_simps)+
  moreover have "a XOR b = (a AND NOT b) + (NOT a AND b)"
    by (subst disjunctive_add_eq_or) (auto intro!: bit_eqI simp: bit_simps)
  ultimately show ?thesis by simp
qed

lemma carry_save:
  "x + y + z = (x XOR y XOR z) + 2 * ((x AND y) OR (x AND z) OR (y AND z))" for x y z :: int
proof -
  have "(x AND y) + ((x XOR y) AND z) = (x AND y) OR ((x XOR y) AND z)"
    by (rule disjunctive_add_eq_or) (auto intro!: bit_eqI simp: bit_simps)
  also have "\<dots> = (x AND y) OR (x AND z) OR (y AND z)" by (rule bit_eqI) (auto simp: bit_simps)
  finally show ?thesis using add_xor_and [of x y] add_xor_and [of "x XOR y" z] by (simp add: xor.assoc)
qed

lemma uint_drop_1: "uint (drop_bit (Suc 0) p) = uint p div 2"
  unfolding unsigned_drop_bit_eq by (simp add: take_bit_int_eq_self drop_bit_eq_div)

lemma uint_halves: "uint p = of_bool (bit p 0) + 2 * (uint p div 2)"
proof -
  have "uint p mod 2 = of_bool (bit p 0)"
    using bit_uint_iff [of p 0] by (auto simp: bit_0 [of "uint p"] mod2_eq_if)
  then show ?thesis using mult_div_mod_eq [of 2 "uint p"] by simp
qed

lemma weighted_halves: "2 ^ v * uint p = of_bool (bit p 0) * 2 ^ v + 2 ^ Suc v * (uint p div 2)"
  by (subst uint_halves) (simp add: algebra_simps)

lemma uint_word_cat:
  "uint (word_cat v w :: 'p::len word) = (2 ^ LENGTH('m) * uint v + uint w) mod 2 ^ LENGTH('p)"
  for w :: "'m::len word"
  unfolding word_cat_eq' uint_word_of_int concat_bit_eq
  by (simp add: push_bit_eq_mult take_bit_int_eq_self mult.commute add.commute)

lemma row_sum: "uint (gen_sum p s c) + 2 * uint (gen_carry p s c) = uint p div 2 + uint s + uint c"
  using carry_save [of "uint p div 2" "uint s" "uint c"]
  by (simp add: gen_sum_eq gen_carry_eq unsigned_xor_eq unsigned_or_eq unsigned_and_eq uint_drop_1
      xor.assoc or.assoc)

lemma us_rows_sum:
  "(\<Sum>u<v. of_bool (bit (fst (us_rows s c0 u)) 0) * 2 ^ u) +
     2 ^ v * (uint (fst (us_rows s c0 v)) + 2 * uint (snd (us_rows s c0 v))) =
   (\<Sum>u<Suc v. 2 ^ u * uint (s u)) + 2 * uint c0"
proof (induction v)
  case (Suc v)
  obtain p c where r: "us_rows s c0 v = (p, c)" by fastforce
  let ?gs = "uint (gen_sum p (s (Suc v)) c)" and ?gc = "uint (gen_carry p (s (Suc v)) c)"
  have "2 ^ Suc v * (?gs + 2 * ?gc) = 2 ^ Suc v * (uint p div 2) + 2 ^ Suc v * uint (s (Suc v)) + 2 ^ Suc v * uint c"
    by (simp only: row_sum distrib_left)
  moreover have "2 ^ v * uint p = of_bool (bit p 0) * 2 ^ v + 2 ^ Suc v * (uint p div 2)"
    by (rule weighted_halves)
  moreover have "2 ^ v * (uint p + 2 * uint c) = 2 ^ v * uint p + 2 ^ Suc v * uint c"
    by (simp add: algebra_simps)
  ultimately show ?case
    using Suc by (simp only: r us_rows.simps prod.case Let_def fst_conv snd_conv sum.lessThan_Suc Suc_eq_plus1 [symmetric])
qed simp

lemma mod_high_part: "(2 ^ m * (x mod 2 ^ n) + y) mod 2 ^ (n + m) = (2 ^ m * x + y) mod (2 ^ (n + m) :: int)"
  by (metis mod_add_left_eq mult.commute mult_mod_right power_add)

lemma us_merge_value:
  assumes "LENGTH('p::len) = LENGTH('n::len) + LENGTH('m::len)"
  shows "uint (us_merge s c0 TYPE('m) sg :: 'p word) =
    ((\<Sum>u<LENGTH('m). 2 ^ u * uint (s u)) + 2 * uint (c0 :: 'n word) + of_bool sg * 2 ^ (LENGTH('n) + LENGTH('m) - 1))
      mod 2 ^ (LENGTH('n) + LENGTH('m))"
proof -
  let ?n = "LENGTH('n)" and ?m = "LENGTH('m)"
  obtain v where m: "?m = Suc v" using len_gt_0 [where 'a = 'm] gr0_implies_Suc by blast
  obtain k where n: "?n = Suc k" using len_gt_0 [where 'a = 'n] gr0_implies_Suc by blast
  obtain p c where r: "us_rows s c0 v = (p, c)" by fastforce
  let ?low = "\<lambda>u. bit (fst (us_rows s c0 u)) 0"
  let ?direct = "word_of_bits ?low :: 'm word"
  let ?top = "word_of_bits (\<lambda>j. if j = ?n - 1 then sg else bit p (j + 1)) :: 'n word"
  have "drop_bit 1 p = word_of_bits (\<lambda>j. j < k \<and> bit p (j + 1))"
    by (rule bit_word_eqI) (auto simp: bit_simps n dest: bit_imp_le_length)
  then have "uint (drop_bit 1 p) = (\<Sum>j<k. of_bool (bit p (j + 1)) * 2 ^ j)"
    by (simp add: uint_word_of_bits n)
  then have "uint ?top = of_bool sg * 2 ^ k + uint p div 2"
    by (simp add: uint_word_of_bits n uint_drop_1)
  then have "uint (?top + c) = (of_bool sg * 2 ^ k + uint p div 2 + uint c) mod 2 ^ ?n"
    by (simp add: uint_word_ariths)
  moreover have "uint ?direct = (\<Sum>u<v. of_bool (?low u) * 2 ^ u) + of_bool (bit p 0) * 2 ^ v"
    by (simp add: uint_word_of_bits m r)
  moreover have "us_merge s c0 TYPE('m) sg = (word_cat (?top + c) ?direct :: 'p word)"
    by (simp add: us_merge_def m r)
  ultimately have "uint (us_merge s c0 TYPE('m) sg :: 'p word) =
     (2 ^ ?m * ((of_bool sg * 2 ^ k + uint p div 2 + uint c) mod 2 ^ ?n) +
      (\<Sum>u<v. of_bool (?low u) * 2 ^ u) + of_bool (bit p 0) * 2 ^ v) mod 2 ^ (?n + ?m)"
    by (simp only: uint_word_cat assms add.assoc)
  also have "\<dots> = (2 ^ ?m * (of_bool sg * 2 ^ k + uint p div 2 + uint c) +
      (\<Sum>u<v. of_bool (?low u) * 2 ^ u) + of_bool (bit p 0) * 2 ^ v) mod 2 ^ (?n + ?m)"
    by (simp only: add.assoc mod_high_part)
  also have "2 ^ ?m * (of_bool sg * 2 ^ k + uint p div 2 + uint c) +
      (\<Sum>u<v. of_bool (?low u) * 2 ^ u) + of_bool (bit p 0) * 2 ^ v =
      (\<Sum>u<v. of_bool (?low u) * 2 ^ u) + 2 ^ v * (uint p + 2 * uint c) + of_bool sg * 2 ^ (?n + ?m - 1)"
  proof -
    define b :: int where "b = of_bool (bit p 0)"
    have "2 ^ v * uint p = b * 2 ^ v + 2 ^ Suc v * (uint p div 2)"
      unfolding b_def by (rule weighted_halves)
    then show ?thesis unfolding b_def [symmetric] by (simp add: m n algebra_simps power_add)
  qed
  finally show ?thesis using us_rows_sum [of s c0 v] by (simp only: r fst_conv snd_conv m)
qed

subsection \<open>The partial products\<close>

text \<open>A word as its top bit and the rest.\<close>

definition low_part :: "'a::len word \<Rightarrow> int" where
  "low_part w = (\<Sum>i<LENGTH('a) - 1. of_bool (bit w i) * 2 ^ i)"

definition top_bit :: "'a::len word \<Rightarrow> int" where
  "top_bit w = of_bool (bit w (LENGTH('a) - 1))"

lemma uint_top: "uint w = low_part w + top_bit w * 2 ^ (LENGTH('a) - 1)" for w :: "'a::len word"
proof -
  obtain k where "LENGTH('a) = Suc k" using len_gt_0 [where 'a = 'a] gr0_implies_Suc by blast
  then show ?thesis by (simp add: uint_sum_bits low_part_def top_bit_def)
qed

lemma sint_top: "sint w = low_part w - top_bit w * 2 ^ (LENGTH('a) - 1)" for w :: "'a::len word"
proof -
  have "sint w = uint w - of_bool (bit w (LENGTH('a) - 1)) * 2 ^ LENGTH('a)"
    unfolding sint_uint signed_take_bit_eq_take_bit_minus by (simp add: bit_uint_iff take_bit_int_eq_self)
  moreover have "(2 :: int) ^ LENGTH('a) = 2 * 2 ^ (LENGTH('a) - 1)"
    by (simp add: power_Suc [symmetric] del: power_Suc)
  ultimately show ?thesis by (simp add: uint_top top_bit_def)
qed

lemma sum_pow2: "(\<Sum>j<k. 2 ^ j) = (2 ^ k - 1 :: int)"
  by (induction k) simp_all

lemma us_partial_rows:
  fixes a :: "'n::len word" and b :: "'m::len word"
  shows "i < LENGTH('m) - 1 \<Longrightarrow> uint (us_partial a b sg i) =
      of_bool (bit b i) * low_part a +
      2 ^ (LENGTH('n) - 1) * (if sg then 1 - top_bit a * of_bool (bit b i) else top_bit a * of_bool (bit b i))"
    and "uint (us_partial a b sg (LENGTH('m) - 1)) =
      (if sg then 2 ^ (LENGTH('n) - 1) - 1 - top_bit b * low_part a else top_bit b * low_part a) +
      2 ^ (LENGTH('n) - 1) * (top_bit a * top_bit b)"
proof -
  obtain k where n: "LENGTH('n) = Suc k" using len_gt_0 [where 'a = 'n] gr0_implies_Suc by blast
  show "i < LENGTH('m) - 1 \<Longrightarrow> uint (us_partial a b sg i) =
      of_bool (bit b i) * low_part a +
      2 ^ (LENGTH('n) - 1) * (if sg then 1 - top_bit a * of_bool (bit b i) else top_bit a * of_bool (bit b i))"
    by (simp add: us_partial_def uint_word_of_bits low_part_def top_bit_def n)
  have "(\<Sum>j<k. of_bool ((bit a j \<and> x) \<noteq> sg) * 2 ^ j) =
      (if sg then 2 ^ k - 1 - of_bool x * low_part a else of_bool x * low_part a)" for x
  proof -
    have "(\<Sum>j<k. of_bool ((bit a j \<and> x) \<noteq> True) * 2 ^ j) =
        (\<Sum>j<k. 2 ^ j - of_bool x * (of_bool (bit a j) * 2 ^ j) :: int)"
      by (rule sum.cong) auto
    also have "\<dots> = 2 ^ k - 1 - of_bool x * low_part a"
      by (simp add: sum_subtractf sum_distrib_left low_part_def n sum_pow2)
    finally show ?thesis by (cases sg) (auto simp: low_part_def n)
  qed
  from this [of "bit b (LENGTH('m) - 1)"]
  show "uint (us_partial a b sg (LENGTH('m) - 1)) =
      (if sg then 2 ^ (LENGTH('n) - 1) - 1 - top_bit b * low_part a else top_bit b * low_part a) +
      2 ^ (LENGTH('n) - 1) * (top_bit a * top_bit b)"
    by (simp add: us_partial_def uint_word_of_bits top_bit_def n)
qed

lemma us_partial_sum:
  fixes a :: "'n::len word" and b :: "'m::len word"
  shows "(\<Sum>i<LENGTH('m). 2 ^ i * uint (us_partial a b sg i)) =
    (if sg then sint a * sint b + 2 ^ (LENGTH('n) + LENGTH('m) - 1) - 2 ^ (LENGTH('n) - 1) - 2 ^ (LENGTH('m) - 1)
     else uint a * uint b)"
proof -
  obtain k where n: "LENGTH('n) = Suc k" using len_gt_0 [where 'a = 'n] gr0_implies_Suc by blast
  obtain v where m: "LENGTH('m) = Suc v" using len_gt_0 [where 'a = 'm] gr0_implies_Suc by blast
  let ?t = "\<lambda>i. of_bool (bit b i) * 2 ^ i :: int"
  have "(\<Sum>i<v. 2 ^ i * uint (us_partial a b sg i)) =
      (\<Sum>i<v. low_part a * ?t i + 2 ^ k * (if sg then 2 ^ i - top_bit a * ?t i else top_bit a * ?t i))"
    using us_partial_rows(1) [of _ a b sg] by (intro sum.cong refl) (simp add: n m algebra_simps)
  also have "\<dots> = low_part a * low_part b +
      2 ^ k * (if sg then 2 ^ v - 1 - top_bit a * low_part b else top_bit a * low_part b)"
    by (simp add: sum.distrib sum_subtractf sum_distrib_left [symmetric] sum_pow2 low_part_def m)
  finally have rows: "(\<Sum>i<v. 2 ^ i * uint (us_partial a b sg i)) = low_part a * low_part b +
      2 ^ k * (if sg then 2 ^ v - 1 - top_bit a * low_part b else top_bit a * low_part b)" .
  have last: "uint (us_partial a b sg v) =
      (if sg then 2 ^ k - 1 - top_bit b * low_part a else top_bit b * low_part a) + 2 ^ k * (top_bit a * top_bit b)"
    using us_partial_rows(2) [of a b sg] by (simp only: n m diff_Suc_1)
  have ab: "uint a = low_part a + top_bit a * 2 ^ k" "sint a = low_part a - top_bit a * 2 ^ k"
    "uint b = low_part b + top_bit b * 2 ^ v" "sint b = low_part b - top_bit b * 2 ^ v"
    using uint_top [of a] sint_top [of a] uint_top [of b] sint_top [of b] by (simp_all only: n m diff_Suc_1)
  show ?thesis
    unfolding n m sum.lessThan_Suc rows last ab by (cases sg) (simp_all add: algebra_simps power_add)
qed

lemma us_carry0_value:
  assumes "LENGTH('n::len) = LENGTH('m::len) \<or> 2 \<le> LENGTH('m) \<and> LENGTH('m) < LENGTH('n)"
  shows "2 * uint (us_carry0 TYPE('m) sg :: 'n word) = of_bool sg * (2 ^ (LENGTH('n) - 1) + 2 ^ (LENGTH('m) - 1))"
proof (cases "LENGTH('n) = LENGTH('m)")
  case True
  obtain k where n: "LENGTH('m) = Suc k" using len_gt_0 [where 'a = 'm] gr0_implies_Suc by blast
  with True show ?thesis by (simp add: us_carry0_def uint_word_of_bits)
next
  case False
  with assms have m: "2 \<le> LENGTH('m)" "LENGTH('m) < LENGTH('n)" by simp_all
  define k v where "k = LENGTH('n) - 2" and "v = LENGTH('m) - 2"
  with m have "LENGTH('n) = Suc (Suc k)" "LENGTH('m) = Suc (Suc v)" "v < k" by simp_all
  moreover from this have "(\<Sum>i<Suc (Suc k). of_bool ((i = k \<or> i = v) \<and> sg) * 2 ^ i :: int) =
      (\<Sum>i<Suc (Suc k). (if i = k then of_bool sg * 2 ^ i else 0) + (if i = v then of_bool sg * 2 ^ i else 0))"
    by (intro sum.cong) auto
  ultimately show ?thesis
    by (simp add: us_carry0_def uint_word_of_bits sum.distrib algebra_simps del: sum.lessThan_Suc)
qed

text \<open>The product, for both kinds of operands.\<close>

lemma usMult_value:
  fixes a :: "'n::len word" and b :: "'m::len word"
  assumes "LENGTH('p::len) = LENGTH('n) + LENGTH('m)"
    and "LENGTH('n) = LENGTH('m) \<or> 2 \<le> LENGTH('m) \<and> LENGTH('m) < LENGTH('n)"
  shows "(usMult a b sg :: 'p word) = word_of_int (if sg then sint a * sint b else uint a * uint b)"
proof -
  let ?N = "LENGTH('n) + LENGTH('m)"
  have "2 ^ ?N = 2 * (2 :: int) ^ (?N - 1)" by (simp add: power_Suc [symmetric] del: power_Suc)
  then have "uint (usMult a b sg :: 'p word) =
      (of_bool sg * 2 ^ ?N + (if sg then sint a * sint b else uint a * uint b)) mod 2 ^ ?N"
    unfolding usMult_def us_merge_value [OF assms(1)] us_partial_sum us_carry0_value [OF assms(2)]
    by (simp add: algebra_simps)
  also have "\<dots> = (if sg then sint a * sint b else uint a * uint b) mod 2 ^ ?N" by simp
  finally show ?thesis by (simp add: uint_word_of_int assms(1) word_uint_eq_iff)
qed

lemma abs_mult_less:
  assumes "\<bar>x\<bar> \<le> (2 :: int) ^ k" "\<bar>y\<bar> \<le> 2 ^ v"
  shows "- (2 ^ (k + v + 1)) \<le> x * y" "x * y < 2 ^ (k + v + 1)"
proof -
  have "\<bar>x * y\<bar> \<le> 2 ^ k * 2 ^ v"
    unfolding abs_mult using assms by (intro mult_mono) simp_all
  also have "\<dots> < 2 ^ (k + v + 1)" by (simp add: power_add)
  finally have "\<bar>x * y\<bar> < 2 ^ (k + v + 1)" .
  then show "- (2 ^ (k + v + 1)) \<le> x * y" "x * y < 2 ^ (k + v + 1)" by arith+
qed

text \<open>A product of the operands' widths fits.\<close>

lemma sint_product:
  fixes a :: "'n::len word" and b :: "'m::len word"
  assumes "LENGTH('p::len) = LENGTH('n) + LENGTH('m)"
  shows "sint (word_of_int (sint a * sint b) :: 'p word) = sint a * sint b"
proof -
  have "LENGTH('p) - 1 = (LENGTH('n) - 1) + (LENGTH('m) - 1) + 1"
    using assms(1) len_gt_0 [where 'a = 'n] len_gt_0 [where 'a = 'm] by arith
  moreover have "\<bar>sint a\<bar> \<le> 2 ^ (LENGTH('n) - 1)" "\<bar>sint b\<bar> \<le> 2 ^ (LENGTH('m) - 1)"
    using sint_bounds [of a] sint_bounds [of b] by auto
  ultimately have "- (2 ^ (LENGTH('p) - 1)) \<le> sint a * sint b" "sint a * sint b < 2 ^ (LENGTH('p) - 1)"
    using abs_mult_less [of "sint a" "LENGTH('n) - 1" "sint b" "LENGTH('m) - 1"] by simp_all
  then show ?thesis by (rule sint_of_int)
qed

lemma uint_product:
  fixes a :: "'n::len word" and b :: "'m::len word"
  assumes "LENGTH('p::len) = LENGTH('n) + LENGTH('m)"
  shows "uint (word_of_int (uint a * uint b) :: 'p word) = uint a * uint b"
proof -
  have "uint a * uint b < 2 ^ LENGTH('n) * 2 ^ LENGTH('m)"
    by (intro mult_strict_mono') simp_all
  then show ?thesis unfolding uint_word_of_int assms power_add by simp
qed

subsection \<open>Property\<close>

text \<open>
  C5 (usMult). The array of usmultiplier.bsv multiplies: with \<open>sgn = 1\<close> the result, read as a
  signed number, is the product of the signed operands, with \<open>sgn = 0\<close> the product of the
  unsigned ones. The operands may have different widths, if the first is the wider.
\<close>

theorem usMult_correct:
  fixes a :: "'n::len word" and b :: "'m::len word"
  assumes "LENGTH('p::len) = LENGTH('n) + LENGTH('m)"
    and "LENGTH('n) = LENGTH('m) \<or> 2 \<le> LENGTH('m) \<and> LENGTH('m) < LENGTH('n)"
  shows "sint (usMult a b True :: 'p word) = sint a * sint b \<and>
    uint (usMult a b False :: 'p word) = uint a * uint b"
  by (simp only: usMult_value [OF assms] if_True if_False sint_product [OF assms(1)] uint_product [OF assms(1)])

theorem usMult_correct_witness:
  "sint (usMult (0xFFF9 :: 16 word) (0x0006 :: 16 word) True :: 32 word) = - 42 \<and>
   uint (usMult (0xFFF9 :: 16 word) (0x06 :: 8 word) False :: 24 word) = 0xFFF9 * 6"
  using usMult_correct [where 'p = 32, of "0xFFF9 :: 16 word" "0x0006 :: 16 word"]
    usMult_correct [where 'p = 24, of "0xFFF9 :: 16 word" "0x06 :: 8 word"] by simp

end
