(* ===== verification/PBox_By4.thy ===== *)
theory PBox_By4
  imports PBox_Mult
begin

section \<open>The multiplier that also multiplies bytes\<close>

text \<open>
  \<open>src/pbox/multiplier_by4.bsv\<close>: the \<open>usMult\<close> that the P-box uses. It is the array of
  \<open>usmultiplier.bsv\<close> for operands of one width \<open>n\<close>, with a second sign \<open>sgn4\<close>: with
  \<open>sgn = 0\<close> the same array multiplies two pairs of numbers of \<open>n/4\<close> bits, held in the lowest and
  in the third quarter of its operands, as signed numbers when \<open>sgn4 = 1\<close>. The proviso
  \<open>Add#(e__, 16, TAdd#(n, n))\<close> of the source asks for at least 8 bits; the P-box has 32, the
  quarters of any other width are rounded up, by \<open>TDiv\<close>.
\<close>

text \<open>Bluespec's numeric type \<open>TDiv\<close>: division rounded up.\<close>

definition TDiv :: "nat \<Rightarrow> nat \<Rightarrow> nat" where
  "TDiv a b = (a + b - 1) div b"

definition by4_partial :: "'n::len word \<Rightarrow> 'n word \<Rightarrow> bool \<Rightarrow> bool \<Rightarrow> nat \<Rightarrow> 'n word" where
  "by4_partial a b sg sg4 i =
     (let n = LENGTH('n); t = TDiv (n * 3) 4; h = TDiv n 2; q = TDiv n 4 in
      word_of_bits (\<lambda>j.
        if (j = n - 1 \<or> i = n - 1) \<and> \<not> (j = n - 1 \<and> i = n - 1)
        then (bit a j \<and> bit b i) \<noteq> sg
        else if (j = t - 1 \<or> i = t - 1) \<and> \<not> (j = t - 1 \<and> i = t - 1) \<and> h \<le> i \<and> h \<le> j
        then (bit a j \<and> bit b i) \<noteq> sg4
        else if (j = q - 1 \<or> i = q - 1) \<and> \<not> (j = q - 1 \<and> i = q - 1) \<and> i < q \<and> j < q
        then (bit a j \<and> bit b i) \<noteq> sg4
        else if i < q \<and> q \<le> j \<or> q \<le> i \<and> j < q
        then (bit a j \<and> bit b i) \<and> (\<not> sg4 \<and> sg)
        else bit a j \<and> bit b i))"

text \<open>\<open>sgn_by_4\<close> is \<open>sgn4\<close> as a word of \<open>2n\<close> bits.\<close>

definition usMult4 :: "'n::len word \<Rightarrow> 'n word \<Rightarrow> bool \<Rightarrow> bool \<Rightarrow> 'p::len word" where
  "usMult4 a b sg sg4 =
     (let n = LENGTH('n);
          sg_by_4 = of_bool sg4 :: 'p word;
          p = us_merge (by4_partial a b sg sg4) (word_of_bits (\<lambda>j. j = n - 1 \<and> sg)) TYPE('n) sg
      in p + push_bit (TDiv (n * 3) 2 - 1) sg_by_4 + push_bit (TDiv n 2 - 1) sg_by_4 +
         push_bit (TDiv (n * 5) 4) sg_by_4 + push_bit (TDiv n 4) sg_by_4)"

subsection \<open>Signed operands\<close>

lemma by4_signed: "by4_partial a b True False = us_partial a b True"
  by (rule ext) (simp only: by4_partial_def us_partial_def Let_def simp_thms not_False_eq_True if_cancel)

lemma usMult4_signed: "usMult4 a b True False = usMult a b True" for a b :: "'n::len word"
  by (simp add: usMult4_def usMult_def by4_signed us_carry0_def Let_def)

lemma usMult4_value:
  fixes a b :: "'n::len word"
  assumes "LENGTH('p::len) = LENGTH('n) + LENGTH('n)"
  shows "(usMult4 a b False sg4 :: 'p word) =
    word_of_int ((\<Sum>i<LENGTH('n). 2 ^ i * uint (by4_partial a b False sg4 i)) +
      of_bool sg4 * (2 ^ (TDiv (LENGTH('n) * 3) 2 - 1) + 2 ^ (TDiv LENGTH('n) 2 - 1) +
        2 ^ TDiv (LENGTH('n) * 5) 4 + 2 ^ TDiv LENGTH('n) 4))"
proof -
  let ?p = "us_merge (by4_partial a b False sg4) (word_of_bits (\<lambda>j. False)) TYPE('n) False :: 'p word"
  have "uint (word_of_bits (\<lambda>j. False) :: 'n word) = 0" by (simp add: uint_word_of_bits)
  then have "?p = word_of_int (\<Sum>i<LENGTH('n). 2 ^ i * uint (by4_partial a b False sg4 i))"
    by (simp only: word_uint_eq_iff us_merge_value [OF assms] uint_word_of_int assms) simp
  then show ?thesis by (cases sg4) (simp_all add: usMult4_def Let_def push_bit_eq_mult)
qed

subsection \<open>Bytes\<close>

text \<open>\<open>{8'b0, x1, 8'b0, x0}\<close>\<close>

definition byte_pair :: "byte \<Rightarrow> byte \<Rightarrow> 32 word" where
  "byte_pair x1 x0 = word_cat (word_cat (0 :: byte) x1 :: 16 word) (word_cat (0 :: byte) x0 :: 16 word)"

lemma bit_byte_pair:
  "bit (byte_pair x1 x0) j \<longleftrightarrow> j < 8 \<and> bit x0 j \<or> 16 \<le> j \<and> j < 24 \<and> bit x1 (j - 16)"
  by (auto simp: byte_pair_def bit_word_cat_iff bit_ucast_iff dest: bit_imp_le_length)

abbreviation signed_row :: "byte \<Rightarrow> byte \<Rightarrow> byte \<Rightarrow> byte \<Rightarrow> nat \<Rightarrow> 32 word" where
  "signed_row a1 a0 b1 b0 i \<equiv> by4_partial (byte_pair a1 a0) (byte_pair b1 b0) False True i"

lemmas row_bits = by4_partial_def TDiv_def us_partial_def Let_def bit_byte_pair bit_ucast_iff bit_push_bit_iff
  bit_or_iff bit_mask_iff bit_1_iff

lemma signed_row_low: "i < 8 \<Longrightarrow> signed_row a1 a0 b1 b0 i = ucast (us_partial a0 b0 True i)"
  by (rule bit_word_eqI) (auto simp: row_bits dest: bit_imp_le_length)

lemma signed_row_gap: "8 \<le> i \<Longrightarrow> i < 16 \<Longrightarrow> signed_row a1 a0 b1 b0 i = 0"
  by (rule bit_word_eqI) (auto simp: row_bits)

lemma signed_row_high:
  "i < 7 \<Longrightarrow> signed_row a1 a0 b1 b0 (16 + i) = push_bit 16 (ucast (us_partial a1 b1 True i))"
  by (rule bit_word_eqI) (auto simp: row_bits dest: bit_imp_le_length)

lemma signed_row_23:
  "signed_row a1 a0 b1 b0 23 = push_bit 16 (ucast (us_partial a1 b1 True 7)) OR push_bit 24 (mask 7)"
  by (rule bit_word_eqI) (auto simp: row_bits dest: bit_imp_le_length)

lemma signed_row_top: "24 \<le> i \<Longrightarrow> i < 31 \<Longrightarrow> signed_row a1 a0 b1 b0 i = word_of_bits (\<lambda>j. j = 23)"
  by (rule bit_word_eqI) (auto simp: row_bits dest: bit_imp_le_length)

lemma signed_row_31: "signed_row a1 a0 b1 b0 31 = 0"
  by (rule bit_word_eqI) (auto simp: row_bits dest: bit_imp_le_length)

lemma uint_ucast_byte: "uint (ucast w :: 32 word) = uint w" for w :: byte
  using uint_lt2p [of w] by (simp add: unsigned_ucast_eq take_bit_int_eq_self)

lemma uint_push_byte: "uint (push_bit 16 (ucast w) :: 32 word) = 2 ^ 16 * uint w" for w :: byte
proof -
  have "uint w < 2 ^ 8" using uint_lt2p [of w] by simp
  then show ?thesis
    unfolding unsigned_push_bit_eq by (simp add: push_bit_eq_mult take_bit_int_eq_self uint_ucast_byte)
qed

lemma uint_push_byte_or:
  "uint (push_bit 16 (ucast w) OR push_bit 24 (mask 7) :: 32 word) = 2 ^ 16 * uint w + (2 ^ 31 - 2 ^ 24)"
  for w :: byte
proof -
  have "push_bit 16 (ucast w) AND push_bit 24 (mask 7) = (0 :: 32 word)"
    by (rule bit_word_eqI) (auto simp: bit_push_bit_iff bit_and_iff bit_ucast_iff dest: bit_imp_le_length)
  then have "push_bit 16 (ucast w) OR push_bit 24 (mask 7) = push_bit 16 (ucast w) + (push_bit 24 (mask 7) :: 32 word)"
    by (rule disjunctive_add_eq_or [symmetric])
  moreover have "uint (push_bit 24 (mask 7) :: 32 word) = 2 ^ 31 - 2 ^ 24"
    by (simp add: mask_eq_exp_minus_1 push_bit_eq_mult)
  moreover have "uint w < 2 ^ 8" using uint_lt2p [of w] by simp
  ultimately show ?thesis by (simp only: uint_word_ariths uint_push_byte) simp
qed

lemma sum_32: "(\<Sum>i<32. f i) = (\<Sum>i<8. f i) + (\<Sum>i=8..<16. f i) + (\<Sum>i=16..<23. f i) + f 23 +
    (\<Sum>i=24..<31. f i) + f 31" for f :: "nat \<Rightarrow> int"
proof -
  have "{23..<24} = {23::nat}" "{31..<32} = {31::nat}" by auto
  then show ?thesis
    using sum.atLeastLessThan_concat [of 0 8 32 f] sum.atLeastLessThan_concat [of 8 16 32 f]
      sum.atLeastLessThan_concat [of 16 23 32 f] sum.atLeastLessThan_concat [of 23 24 32 f]
      sum.atLeastLessThan_concat [of 24 31 32 f]
    by (simp add: atLeast0LessThan)
qed

lemma signed_rows_sum:
  "(\<Sum>i<32. 2 ^ i * uint (signed_row a1 a0 b1 b0 i)) =
    (\<Sum>i<8. 2 ^ i * uint (us_partial a0 b0 True i)) +
    2 ^ 32 * (\<Sum>i<8. 2 ^ i * uint (us_partial a1 b1 True i)) + 2 ^ 55 - 2 ^ 48"
proof -
  let ?r = "\<lambda>i. 2 ^ i * uint (signed_row a1 a0 b1 b0 i)"
   have "(\<Sum>i<8. ?r i) = (\<Sum>i<8. 2 ^ i * uint (us_partial a0 b0 True i))"
    by (rule sum.cong) (simp_all add: signed_row_low uint_ucast_byte)
  moreover have "(\<Sum>i=8..<16. ?r i) = 0"
    by (rule sum.neutral) (simp add: signed_row_gap)
  moreover have "(\<Sum>i=16..<23. ?r i) = 2 ^ 32 * (\<Sum>i<7. 2 ^ i * uint (us_partial a1 b1 True i))"
  proof -
    have "(\<Sum>i=16..<23. ?r i) = (\<Sum>i<7. ?r (16 + i))"
      using sum.shift_bounds_nat_ivl [of ?r 0 16 7] by (simp add: atLeast0LessThan add.commute)
    also have "\<dots> = (\<Sum>i<7. 2 ^ 32 * (2 ^ i * uint (us_partial a1 b1 True i)))"
      by (rule sum.cong) (simp_all add: signed_row_high uint_push_byte power_add)
    finally show ?thesis by (simp add: sum_distrib_left)
  qed
  moreover have "?r 23 = 2 ^ 32 * (2 ^ 7 * uint (us_partial a1 b1 True 7)) + 2 ^ 23 * (2 ^ 31 - 2 ^ 24)"
    unfolding signed_row_23 uint_push_byte_or by simp
  moreover have "(\<Sum>i=24..<31. ?r i) = 2 ^ 23 * (2 ^ 31 - 2 ^ 24)"
  proof -
    have "(\<Sum>i=24..<31. ?r i) = (\<Sum>i=24..<31. 2 ^ i * 2 ^ 23)"
      by (rule sum.cong) (simp_all add: signed_row_top uint_word_of_bits)
    then show ?thesis by (simp add: eval_nat_numeral)
  qed
  moreover have "?r 31 = 0" by (simp add: signed_row_31)
  moreover have "(\<Sum>i<8. 2 ^ i * uint (us_partial a1 b1 True i)) =
      (\<Sum>i<7. 2 ^ i * uint (us_partial a1 b1 True i)) + 2 ^ 7 * uint (us_partial a1 b1 True 7)"
    using sum.lessThan_Suc [of _ 7] by (simp add: eval_nat_numeral)
  ultimately show ?thesis unfolding sum_32 by simp
qed

subsection \<open>Unsigned numbers in two quarters\<close>

lemma uint_mod_bits: "uint w mod 2 ^ q = (\<Sum>i<q. of_bool (bit w i) * 2 ^ i)" for w :: "'a::len word"
proof -
  have "uint w mod 2 ^ q = horner_sum of_bool 2 (map (bit (uint w)) [0..<q])"
    by (simp only: horner_sum_bit_eq_take_bit take_bit_eq_mod)
  moreover have "bit (uint w) = bit w" by (auto simp: fun_eq_iff bit_uint_iff dest: bit_imp_le_length)
  ultimately show ?thesis by (simp add: horner_sum_eq_sum atLeast0LessThan)
qed

lemma sum_quarter:
  "q < n \<Longrightarrow> (\<Sum>j<n. f j) = (\<Sum>j<q. f j) + (\<Sum>j=q..<n - 1. f j) + f (n - 1)" for f :: "nat \<Rightarrow> int"
  using sum.atLeastLessThan_concat [of 0 q "n - 1" f] sum.lessThan_Suc [of f "n - 1"]
  by (simp add: atLeast0LessThan)

lemma uint_quarters:
  fixes w :: "'a::len word"
  assumes "q < LENGTH('a)"
  shows "uint w div 2 ^ q * 2 ^ q = (\<Sum>j=q..<LENGTH('a) - 1. of_bool (bit w j) * 2 ^ j) + top_bit w * 2 ^ (LENGTH('a) - 1)"
  using div_mult_mod_eq [of "uint w" "2 ^ q"] sum_quarter [OF assms, of "\<lambda>j. of_bool (bit w j) * 2 ^ j"]
    uint_mod_bits [of w q] uint_sum_bits [of w]
  unfolding top_bit_def by linarith

lemma bit_by4_unsigned:
  fixes a b :: "'n::len word"
  shows "bit (by4_partial a b False False i) j \<longleftrightarrow> j < LENGTH('n) \<and> bit a j \<and> bit b i \<and>
    (j = LENGTH('n) - 1 \<or> i = LENGTH('n) - 1 \<or> (i < TDiv LENGTH('n) 4 \<longleftrightarrow> j < TDiv LENGTH('n) 4))"
proof -
  have cases: "(if (j = n \<or> i = n) \<and> \<not> (j = n \<and> i = n) then p \<noteq> False
      else if (j = t \<or> i = t) \<and> \<not> (j = t \<and> i = t) \<and> h \<le> i \<and> h \<le> j then p \<noteq> False
      else if (j = q' \<or> i = q') \<and> \<not> (j = q' \<and> i = q') \<and> i < q \<and> j < q then p \<noteq> False
      else if i < q \<and> q \<le> j \<or> q \<le> i \<and> j < q then p \<and> (\<not> False \<and> False) else p) \<longleftrightarrow>
      p \<and> (j = n \<or> i = n \<or> (i < q \<longleftrightarrow> j < q))" if "q \<le> h" for p n t h q q' by auto (use that in auto)
  have le: "TDiv LENGTH('n) 4 \<le> TDiv LENGTH('n) 2" by (simp add: TDiv_def)
  show ?thesis unfolding by4_partial_def Let_def bit_word_of_bits cases [OF le] by blast
qed

lemma by4_unsigned_row:
  fixes a b :: "'n::len word"
  assumes "q = TDiv LENGTH('n) 4" and "8 \<le> LENGTH('n)"
  shows "uint (by4_partial a b False False i) = of_bool (bit b i) *
    (if i = LENGTH('n) - 1 then uint a
     else if i < q then uint a mod 2 ^ q + top_bit a * 2 ^ (LENGTH('n) - 1)
     else uint a div 2 ^ q * 2 ^ q)"
proof -
  have q: "q < LENGTH('n)" using assms by (simp add: TDiv_def)
  let ?row = "by4_partial a b False False i"
  let ?f = "\<lambda>w j. of_bool (bit (w :: 'n word) j) * 2 ^ j :: int"
  have row: "uint ?row = (\<Sum>j<q. ?f ?row j) + (\<Sum>j=q..<LENGTH('n) - 1. ?f ?row j) + ?f ?row (LENGTH('n) - 1)"
    unfolding uint_sum_bits by (rule sum_quarter [OF q])
  have bits: "bit ?row j \<longleftrightarrow> bit a j \<and> bit b i \<and> (j = LENGTH('n) - 1 \<or> i = LENGTH('n) - 1 \<or> (i < q \<longleftrightarrow> j < q))"
    if "j < LENGTH('n)" for j
    using that by (simp add: bit_by4_unsigned assms(1))
  consider (zero) "\<not> bit b i" | (last) "bit b i" "i = LENGTH('n) - 1" | (low) "bit b i" "i \<noteq> LENGTH('n) - 1" "i < q"
    | (high) "bit b i" "i \<noteq> LENGTH('n) - 1" "\<not> i < q" by blast
  then show ?thesis
  proof cases
    case zero
    then show ?thesis by (simp add: uint_sum_bits [of ?row] bits)
  next
    case last
    have "uint ?row = (\<Sum>j<LENGTH('n). ?f a j)"
    proof -
      have "bit ?row j \<longleftrightarrow> bit a j" if "j < LENGTH('n)" for j using bits [OF that] last by blast
      then show ?thesis unfolding uint_sum_bits by (intro sum.cong) simp_all
    qed
    then show ?thesis using last by (simp add: uint_sum_bits)
  next
    case low
    have "(\<Sum>j<q. ?f ?row j) = uint a mod 2 ^ q"
      unfolding uint_mod_bits using q low by (intro sum.cong) (simp_all add: bits)
    moreover have "(\<Sum>j=q..<LENGTH('n) - 1. ?f ?row j) = 0"
      using low by (intro sum.neutral) (auto simp: bits)
    ultimately show ?thesis unfolding row using low by (simp add: bits top_bit_def)
  next
    case high
    have "(\<Sum>j<q. ?f ?row j) = 0"
      using q high by (intro sum.neutral) (auto simp: bits)
    moreover have "(\<Sum>j=q..<LENGTH('n) - 1. ?f ?row j) = (\<Sum>j=q..<LENGTH('n) - 1. ?f a j)"
      using high by (intro sum.cong) (auto simp: bits)
    ultimately show ?thesis unfolding row uint_quarters [OF q] using high by (simp add: bits top_bit_def)
  qed
qed

text \<open>
  With both signs 0 the products within the quarters count, and of the cross products only those
  with a top bit.
\<close>

lemma usMult4_unsigned:
  fixes a b :: "'n::len word"
  assumes "LENGTH('p::len) = LENGTH('n) + LENGTH('n)" and "8 \<le> LENGTH('n)"
    and "Q = 2 ^ TDiv LENGTH('n) 4"
  shows "(usMult4 a b False False :: 'p word) = word_of_int
    ((uint a mod Q) * (uint b mod Q) + (uint a div Q * Q) * (uint b div Q * Q) +
     2 ^ (LENGTH('n) - 1) * (top_bit a * (uint b mod Q) + top_bit b * (uint a mod Q)))"
proof -
  define q where "q = TDiv LENGTH('n) 4"
  have q: "q < LENGTH('n)" using assms(2) by (simp add: q_def TDiv_def)
  let ?t = "\<lambda>i. of_bool (bit b i) * 2 ^ i :: int"
  have "(\<Sum>i<LENGTH('n). 2 ^ i * uint (by4_partial a b False False i)) =
      (\<Sum>i<q. (uint a mod 2 ^ q + top_bit a * 2 ^ (LENGTH('n) - 1)) * ?t i) +
      (\<Sum>i=q..<LENGTH('n) - 1. uint a div 2 ^ q * 2 ^ q * ?t i) + uint a * ?t (LENGTH('n) - 1)"
  proof -
    have "i \<noteq> LENGTH('n) - 1" if "i < q" for i using that q by simp
    then show ?thesis
      unfolding sum_quarter [OF q] by4_unsigned_row [OF q_def assms(2)]
      by (intro arg_cong2 [of _ _ _ _ "(+)"] sum.cong refl) (simp_all add: ac_simps)
  qed
  also have "\<dots> = (uint a mod 2 ^ q + top_bit a * 2 ^ (LENGTH('n) - 1)) * (uint b mod 2 ^ q) +
      uint a div 2 ^ q * 2 ^ q * (uint b div 2 ^ q * 2 ^ q - top_bit b * 2 ^ (LENGTH('n) - 1)) +
      uint a * (top_bit b * 2 ^ (LENGTH('n) - 1))"
    unfolding uint_quarters [OF q, of b] uint_mod_bits [of b] sum_distrib_left [symmetric] top_bit_def
    by simp
  also have "\<dots> = (uint a mod 2 ^ q) * (uint b mod 2 ^ q) + (uint a div 2 ^ q * 2 ^ q) * (uint b div 2 ^ q * 2 ^ q) +
     2 ^ (LENGTH('n) - 1) * (top_bit a * (uint b mod 2 ^ q) + top_bit b * (uint a mod 2 ^ q))"
  proof -
    define A B where "A = uint a mod 2 ^ q" and "B = uint a div 2 ^ q * 2 ^ q"
    have "uint a = A + B" unfolding A_def B_def by (rule mod_div_mult_eq [symmetric])
    then show ?thesis unfolding A_def [symmetric] B_def [symmetric] by (simp only: algebra_simps)
  qed
  finally show ?thesis by (simp only: usMult4_value [OF assms(1)] assms(3) q_def) simp
qed

subsection \<open>Pairs of bytes\<close>

lemma uint_byte_pair: "uint (byte_pair x1 x0) = uint x0 + 2 ^ 16 * uint x1"
proof -
  have "uint x0 < 2 ^ 8" "uint x1 < 2 ^ 8" using uint_lt2p [of x0] uint_lt2p [of x1] by simp_all
  moreover have "uint (word_cat (0 :: byte) x :: 16 word) = uint x" for x :: byte
    using uint_lt2p [of x] by (simp add: unsigned_ucast_eq take_bit_int_eq_self)
  ultimately show ?thesis by (simp add: byte_pair_def uint_word_cat)
qed

lemma usMult4_bytes_unsigned:
  "(usMult4 (byte_pair a1 a0) (byte_pair b1 b0) False False :: 64 word) =
    word_of_int (uint a0 * uint b0 + 2 ^ 32 * (uint a1 * uint b1))"
proof -
  have "uint (byte_pair x1 x0) mod 2 ^ 8 = uint x0 \<and> uint (byte_pair x1 x0) div 2 ^ 8 * 2 ^ 8 = 2 ^ 16 * uint x1" for x1 x0
  proof -
    have "(uint x0 + 2 ^ 8 * (2 ^ 8 * uint x1)) mod 2 ^ 8 = uint x0"
      "(uint x0 + 2 ^ 8 * (2 ^ 8 * uint x1)) div 2 ^ 8 = 2 ^ 8 * uint x1"
      using uint_lt2p [of x0] div_mult_self2 [of "2 ^ 8" "uint x0" "2 ^ 8 * uint x1"]
        mod_mult_self2 [of "uint x0" "2 ^ 8" "2 ^ 8 * uint x1"]
      by simp_all
    then show ?thesis unfolding uint_byte_pair by simp
  qed
  moreover have "top_bit (byte_pair x1 x0) = 0" for x1 x0
    by (simp add: top_bit_def bit_byte_pair)
  ultimately show ?thesis
    using usMult4_unsigned [where 'p = 64, of "2 ^ 8" "byte_pair a1 a0" "byte_pair b1 b0"] by (simp add: TDiv_def)
qed

lemma usMult4_bytes_signed:
  "(usMult4 (byte_pair a1 a0) (byte_pair b1 b0) False True :: 64 word) =
    word_of_int (sint a0 * sint b0 + 2 ^ 16 + 2 ^ 32 * (sint a1 * sint b1 + 2 ^ 23))"
proof -
  have len: "LENGTH(64) = LENGTH(32) + LENGTH(32)" by simp
  have "(\<Sum>i<LENGTH(32). 2 ^ i * uint (signed_row a1 a0 b1 b0 i)) =
      sint a0 * sint b0 + 2 ^ 15 - 2 ^ 8 + 2 ^ 32 * (sint a1 * sint b1 + 2 ^ 15 - 2 ^ 8) + 2 ^ 55 - 2 ^ 48"
    using signed_rows_sum [of a1 a0 b1 b0] us_partial_sum [of a0 b0 True] us_partial_sum [of a1 b1 True]
    by (simp del: lessThan_nat_numeral)
  then show ?thesis
    unfolding usMult4_value [OF len] by (intro arg_cong [of _ _ word_of_int]) (simp add: TDiv_def del: lessThan_nat_numeral)
qed

text \<open>Reading two 16-bit products off the 64 bits.\<close>

lemma two_products:
  assumes "0 \<le> x" "x < 2 ^ 32"
  shows "(ucast (word_of_int (x + 2 ^ 32 * y) :: u64) :: 16 word) = word_of_int x"
    and "(ucast (drop_bit 32 (word_of_int (x + 2 ^ 32 * y) :: u64)) :: 16 word) = word_of_int y"
proof -
  let ?w = "word_of_int (x + 2 ^ 32 * y) :: u64"
  have c: "x + push_bit 32 y = concat_bit 32 x y"
    using assms by (simp add: concat_bit_eq take_bit_int_eq_self)
  show "(ucast ?w :: 16 word) = word_of_int x"
  proof (rule bit_word_eqI)
    fix n assume n: "n < LENGTH(16)"
    then have "bit (x + push_bit 32 y) n = bit x n" by (simp add: c bit_concat_bit_iff)
    then show "bit (ucast ?w :: 16 word) n = bit (word_of_int x :: 16 word) n"
      using n by (simp add: bit_ucast_iff bit_of_int_iff push_bit_eq_mult mult.commute del: of_int_add of_int_mult)
  qed
  show "(ucast (drop_bit 32 ?w) :: 16 word) = word_of_int y"
  proof (rule bit_word_eqI)
    fix n assume n: "n < LENGTH(16)"
    have "bit (x + push_bit 32 y) (32 + n) = bit y n" by (simp add: c bit_concat_bit_iff)
    then show "bit (ucast (drop_bit 32 ?w) :: 16 word) n = bit (word_of_int y :: 16 word) n"
      using n by (simp add: bit_ucast_iff bit_drop_bit_eq bit_of_int_iff push_bit_eq_mult mult.commute del: of_int_add of_int_mult)
  qed
qed

lemma bytes_product_unsigned:
  fixes x1 x0 y1 y0 :: byte
  defines "u \<equiv> usMult4 (byte_pair x1 x0) (byte_pair y1 y0) False False :: u64"
  shows "ucast u = (word_of_int (uint x0 * uint y0) :: 16 word) \<and>
    ucast (drop_bit 32 u) = (word_of_int (uint x1 * uint y1) :: 16 word)"
proof -
  have "uint x0 * uint y0 < 2 ^ 8 * 2 ^ 8"
    using uint_lt2p [of x0] uint_lt2p [of y0] by (intro mult_strict_mono') simp_all
  then show ?thesis
    unfolding u_def usMult4_bytes_unsigned using two_products [of "uint x0 * uint y0" "uint x1 * uint y1"] by simp
qed

lemma bytes_product_signed:
  fixes x1 x0 y1 y0 :: byte
  defines "u \<equiv> usMult4 (byte_pair x1 x0) (byte_pair y1 y0) False True :: u64"
  shows "ucast u = (word_of_int (sint x0 * sint y0) :: 16 word) \<and>
    ucast (drop_bit 32 u) = (word_of_int (sint x1 * sint y1) :: 16 word)"
proof -
  have "\<bar>sint x0\<bar> \<le> 2 ^ 7" "\<bar>sint y0\<bar> \<le> 2 ^ 7"
    using sint_bounds [of x0] sint_bounds [of y0] by auto
  then have "- (2 ^ 15) \<le> sint x0 * sint y0" "sint x0 * sint y0 < 2 ^ 15"
    using abs_mult_less [of "sint x0" 7 "sint y0" 7] by simp_all
  then show ?thesis
    unfolding u_def usMult4_bytes_signed
    using two_products [of "sint x0 * sint y0 + 2 ^ 16" "sint x1 * sint y1 + 2 ^ 23"] by simp
qed

subsection \<open>Property\<close>

text \<open>
  C6 (the three uses of the array). On any width of at least 8 bits, as the provisos ask, with
  \<open>sgn = 1\<close>, \<open>sgn4 = 0\<close> the result is the product of the signed operands. With \<open>sgn = 0\<close> and a pair of bytes in each operand, the low 16 bits and the
  16 bits from bit 32 on are the two byte products, unsigned or (\<open>sgn4 = 1\<close>) signed. But
  with both signs 0 it is no unsigned multiplier: the cross products of the lowest quarter
  of the bits (rounded up, \<open>TDiv n 4\<close> of them, \<open>Q\<close> being 2 to that power) with the rest are
  missing, save those with a top bit.
\<close>

theorem usMult4_uses:
  fixes a b :: "'n::len word"
  assumes "LENGTH('p::len) = LENGTH('n) + LENGTH('n)" and "8 \<le> LENGTH('n)"
    and "Q = 2 ^ TDiv LENGTH('n) 4"
  shows "sint (usMult4 a b True False :: 'p word) = sint a * sint b \<and>
    (usMult4 a b False False :: 'p word) = word_of_int
      ((uint a mod Q) * (uint b mod Q) + (uint a div Q * Q) * (uint b div Q * Q) +
       2 ^ (LENGTH('n) - 1) * (top_bit a * (uint b mod Q) + top_bit b * (uint a mod Q))) \<and>
    (let u = usMult4 (byte_pair x1 x0) (byte_pair y1 y0) False False :: u64;
         v = usMult4 (byte_pair x1 x0) (byte_pair y1 y0) False True :: u64 in
     uint (ucast u :: 16 word) = uint x0 * uint y0 \<and> uint (ucast (drop_bit 32 u) :: 16 word) = uint x1 * uint y1 \<and>
     sint (ucast v :: 16 word) = sint x0 * sint y0 \<and> sint (ucast (drop_bit 32 v) :: 16 word) = sint x1 * sint y1)"
proof -
  have b: "LENGTH(16) = LENGTH(8) + LENGTH(8)" by simp
  show ?thesis
    using usMult4_unsigned [OF assms, of a b]
      bytes_product_unsigned [of x1 x0 y1 y0] bytes_product_signed [of x1 x0 y1 y0]
    by (simp only: usMult4_signed usMult_value [OF assms(1) disjI1 [OF refl]] if_True Let_def
        sint_product [OF assms(1)] sint_product [OF b] uint_product [OF b] simp_thms)
qed

theorem usMult4_uses_witness:
  "(usMult4 (0x0010 :: 16 word) 0x0001 False False :: 32 word) = 0 \<and>
   sint (usMult4 (0x0010 :: 16 word) 0xFFFF True False :: 32 word) = - 16"
  using usMult4_uses [where 'p = 32, of "2 ^ 4" "0x0010 :: 16 word" "0x0001"]
    usMult4_uses [where 'p = 32, of "2 ^ 4" "0x0010 :: 16 word" "0xFFFF"]
  by (simp add: top_bit_def TDiv_def)

end
