(* ===== verification/PBox_Compute.thy ===== *)
theory PBox_Compute
  imports PBox_By4
begin

section \<open>The P-box: decoding and execution\<close>

text \<open>
  \<open>src/pbox/compute.bsv\<close>, the combinational function \<open>fn_compute\<close> of the packed-SIMD unit
  for RV64: an instruction is decoded from its fields \<open>funct7\<close> and \<open>funct3\<close> by equations on
  single bits, and one of five units computes the result from \<open>rs1\<close>, \<open>rs2\<close> and the old
  \<open>rd\<close>. A bit of the source is a truth value, \<open>f7 k\<close> is \<open>f7[k]\<close>. The overflow flag \<open>ov\<close> is
  computed by the source but not returned, so it is left out here.
\<close>

record PBoxIn =
  instr :: u32
  rs1 :: u64
  rs2 :: u64
  rd :: u64

record PBoxOut =
  valid :: bool
  data :: u64

subsection \<open>Saturating addition and rounding\<close>

definition qnadd :: "'n::len word \<Rightarrow> 'n word \<Rightarrow> bool \<times> 'n word" where
  "qnadd a b =
     (let s = a + b; top = LENGTH('n) - 1 in
      if bit a top = bit b top \<and> bit s top \<noteq> bit a top
      then (True, if bit a top then word_of_bits (\<lambda>i. i = top) else word_of_bits (\<lambda>i. i \<noteq> top))
      else (False, s))"

text \<open>\<open>Bit#(TAdd#(m,1))\<close> is the type \<open>'r\<close>.\<close>

definition round_r :: "'n::len word \<Rightarrow> 'r::len word" where
  "round_r a = ucast (drop_bit (LENGTH('n) - LENGTH('r)) a) + 1"

definition round :: "'r::len itself \<Rightarrow> 'n::len word \<Rightarrow> 'm::len word" where
  "round _ a = ucast (drop_bit 1 (round_r a :: 'r word))"

subsection \<open>Decoding\<close>

record flags =
  is8BitMul :: bool
  isMul16 :: bool
  is16bitMulAcc :: bool
  isMul16A32 :: bool
  isMul16A64 :: bool
  is32BitMulAcc :: bool
  isMul32A64 :: bool
  isMSW32Mul :: bool
  is32BitAddSub :: bool
  is32BitShift :: bool

definition no_flags :: flags where
  "no_flags = \<lparr>is8BitMul = False, isMul16 = False, is16bitMulAcc = False, isMul16A32 = False,
     isMul16A64 = False, is32BitMulAcc = False, isMul32A64 = False, isMSW32Mul = False,
     is32BitAddSub = False, is32BitShift = False\<rparr>"

definition decode :: "3 word \<Rightarrow> (nat \<Rightarrow> bool) \<Rightarrow> flags" where
  "decode f3 f7 =
     (if f3 = 0 then no_flags\<lparr>
        isMul16 := f7 6 \<and> \<not> f7 5 \<and> f7 4 \<and> \<not> f7 2 \<or> f7 6 \<and> \<not> f7 5 \<and> \<not> f7 2 \<and> f7 1 \<and> f7 0,
        is8BitMul := f7 6 \<and> \<not> f7 5 \<and> \<not> f7 4 \<and> f7 2 \<and> f7 1 \<and> f7 0 \<or>
          f7 6 \<and> \<not> f7 5 \<and> f7 4 \<and> f7 2 \<and> \<not> f7 1\<rparr>
      else if f3 = 1 then no_flags\<lparr>
        is16bitMulAcc := \<not> f7 6 \<and> f7 4 \<and> f7 3 \<and> f7 2 \<and> \<not> f7 1 \<or> \<not> f7 6 \<and> f7 5 \<and> \<not> f7 4 \<and> f7 2 \<or>
          \<not> f7 6 \<and> f7 5 \<and> f7 2 \<and> \<not> f7 1 \<or> \<not> f7 6 \<and> f7 5 \<and> f7 2 \<and> \<not> f7 0 \<or>
          f7 6 \<and> \<not> f7 5 \<and> \<not> f7 4 \<and> f7 2 \<and> \<not> f7 1 \<or> f7 6 \<and> \<not> f7 5 \<and> \<not> f7 3 \<and> f7 2 \<and> \<not> f7 1 \<or>
          f7 6 \<and> \<not> f7 5 \<and> f7 2 \<and> f7 1 \<and> \<not> f7 0 \<or> \<not> f7 6 \<and> f7 2 \<and> \<not> f7 1 \<and> \<not> f7 0,
        isMul16A32 := \<not> f7 6 \<and> \<not> f7 1 \<or> \<not> f7 6 \<and> \<not> f7 3 \<or> \<not> f7 6 \<and> \<not> f7 0,
        isMul16A64 := f7 3 \<and> f7 1 \<and> f7 0 \<or> f7 6,
        isMul32A64 := \<not> f7 6 \<and> f7 5 \<and> \<not> f7 2 \<and> \<not> f7 1,
        isMSW32Mul := f7 6 \<and> \<not> f7 5 \<and> \<not> f7 2 \<and> f7 1\<rparr>
      else if f3 = 2 then no_flags\<lparr>
        is32BitMulAcc := f7 2 \<and> \<not> f7 1 \<or> f7 5 \<and> f7 2,
        is32BitAddSub := \<not> f7 6 \<and> \<not> f7 5 \<and> \<not> f7 2 \<or> \<not> f7 6 \<and> \<not> f7 4 \<and> \<not> f7 3 \<and> \<not> f7 2,
        is32BitShift := \<not> f7 6 \<and> f7 5 \<and> f7 3 \<and> \<not> f7 2 \<or> \<not> f7 6 \<and> f7 5 \<and> f7 4 \<and> \<not> f7 2 \<or>
          f7 6 \<and> \<not> f7 5 \<and> \<not> f7 4 \<and> \<not> f7 3\<rparr>
      else no_flags)"

subsection \<open>8-bit multiplications\<close>

text \<open>\<open>rv[8k+7:8k]\<close>, \<open>rv[16k+15:16k]\<close>, \<open>rv[32k+31:32k]\<close>\<close>

definition byte_of :: "u64 \<Rightarrow> nat \<Rightarrow> byte" where
  "byte_of rv k = ucast (drop_bit (8 * k) rv)"

definition half_of :: "u64 \<Rightarrow> nat \<Rightarrow> 16 word" where
  "half_of rv k = ucast (drop_bit (16 * k) rv)"

definition word_of :: "u64 \<Rightarrow> nat \<Rightarrow> u32" where
  "word_of rv k = ucast (drop_bit (32 * k) rv)"

text \<open>\<open>{h3, h2, h1, h0}\<close> and \<open>{w1, w0}\<close>\<close>

definition cat16 :: "16 word \<Rightarrow> 16 word \<Rightarrow> 16 word \<Rightarrow> 16 word \<Rightarrow> u64" where
  "cat16 h3 h2 h1 h0 = word_cat (word_cat h3 h2 :: u32) (word_cat h1 h0 :: u32)"

definition cat32 :: "u32 \<Rightarrow> u32 \<Rightarrow> u64" where
  "cat32 w1 w0 = word_cat w1 w0"

text \<open>Crossed operands: each one changes places with its neighbour.\<close>

definition swap_pair :: "nat \<Rightarrow> nat" where
  "swap_pair k = (if even k then k + 1 else k - 1)"

definition mul8 :: "(nat \<Rightarrow> bool) \<Rightarrow> u64 \<Rightarrow> u64 \<Rightarrow> u64" where
  "mul8 f7 rv1 rv2 =
     (let isSign = \<not> (f7 4 \<and> f7 3);
          isCross = f7 0;
          ip2 = (\<lambda>k. byte_of rv2 (if isCross then swap_pair k else k));
          low = usMult4 (byte_pair (byte_of rv1 1) (byte_of rv1 0)) (byte_pair (ip2 1) (ip2 0)) False isSign :: u64;
          high = usMult4 (byte_pair (byte_of rv1 3) (byte_of rv1 2)) (byte_pair (ip2 3) (ip2 2)) False isSign :: u64;
          prod0 = half_of low 0; prod1 = half_of low 2; prod2 = half_of high 0; prod3 = half_of high 2
      in cat16 prod3 prod2 prod1 prod0)"

subsection \<open>16-bit multiplications\<close>

definition mul16_isSMUL :: "flags \<Rightarrow> (nat \<Rightarrow> bool) \<Rightarrow> bool" where
  "mul16_isSMUL fl f7 =
     (if isMul16 fl then \<not> (f7 4 \<and> f7 3) else if isMul16A32 fl \<or> isMul16A64 fl then True else False)"

text \<open>The signals that the unit decodes from \<open>funct7\<close>; \<open>isSingle\<close> is not used.\<close>

definition mul16_isX :: "(nat \<Rightarrow> bool) \<Rightarrow> bool" where
  "mul16_isX f7 = (\<not> f7 6 \<and> \<not> f7 5 \<and> \<not> f7 4 \<and> f7 3 \<or> f7 5 \<and> f7 4 \<and> f7 3 \<and> \<not> f7 0 \<or>
     \<not> f7 5 \<and> f7 4 \<and> f7 0 \<or> \<not> f7 6 \<and> \<not> f7 3 \<and> f7 0 \<or> \<not> f7 5 \<and> f7 3 \<and> f7 1)"

definition mul16_isSingle :: "(nat \<Rightarrow> bool) \<Rightarrow> bool" where
  "mul16_isSingle f7 = (\<not> f7 5 \<and> \<not> f7 4 \<and> \<not> f7 1 \<and> \<not> f7 0 \<or> \<not> f7 5 \<and> \<not> f7 3 \<and> \<not> f7 1 \<and> \<not> f7 0 \<or>
     \<not> f7 6 \<and> \<not> f7 4 \<and> f7 3 \<and> \<not> f7 1 \<and> f7 0 \<or> f7 5 \<and> f7 4 \<and> f7 0)"

definition mul16_isInvStraight :: "(nat \<Rightarrow> bool) \<Rightarrow> bool" where
  "mul16_isInvStraight f7 = (f7 5 \<and> f7 4 \<and> f7 3 \<and> f7 0 \<or>
     \<not> f7 5 \<and> f7 4 \<and> \<not> f7 3 \<and> \<not> f7 1 \<and> \<not> f7 0 \<or> \<not> f7 5 \<and> \<not> f7 4 \<and> \<not> f7 3 \<and> f7 0)"

definition mul16_isSMAL :: "(nat \<Rightarrow> bool) \<Rightarrow> bool" where
  "mul16_isSMAL f7 = (f7 1 \<and> f7 0)"

definition mul16_isAccAdd :: "(nat \<Rightarrow> bool) \<Rightarrow> bool" where
  "mul16_isAccAdd f7 = (f7 5 \<and> \<not> f7 4 \<and> \<not> f7 3 \<and> \<not> f7 1 \<or> f7 3 \<and> f7 1 \<or> f7 4 \<and> f7 1 \<or> f7 5 \<and> \<not> f7 1 \<and> f7 0)"

definition mul16_isAccSub :: "(nat \<Rightarrow> bool) \<Rightarrow> bool" where
  "mul16_isAccSub f7 = (\<not> f7 4 \<and> \<not> f7 3 \<and> f7 1)"

definition mul16_isAcc64 :: "(nat \<Rightarrow> bool) \<Rightarrow> bool" where
  "mul16_isAcc64 f7 = (\<not> f7 5 \<and> f7 0 \<or> \<not> f7 5 \<and> f7 1)"

definition mul16_ism1_neg :: "(nat \<Rightarrow> bool) \<Rightarrow> bool" where
  "mul16_ism1_neg f7 = (f7 4 \<or> f7 3 \<and> \<not> f7 1)"

definition mul16_ism0_neg :: "(nat \<Rightarrow> bool) \<Rightarrow> bool" where
  "mul16_ism0_neg f7 = (f7 4 \<and> \<not> f7 0)"

lemmas mul16_signals = mul16_isX_def mul16_isInvStraight_def mul16_isSMAL_def mul16_isAccAdd_def mul16_isAccSub_def
  mul16_isAcc64_def mul16_ism1_neg_def mul16_ism0_neg_def

text \<open>The operands of the four multipliers, as the decoding steps overwrite them in turn.\<close>

definition mul16_operands ::
    "flags \<Rightarrow> (nat \<Rightarrow> bool) \<Rightarrow> u64 \<Rightarrow> u64 \<Rightarrow> (nat \<Rightarrow> 16 word) \<times> (nat \<Rightarrow> 16 word)" where
  "mul16_operands fl f7 rv1 rv2 =
     (let ip1 = half_of rv1; ip2 = half_of rv2 in
      if isMul16 fl then
        (let isX = f7 4 \<and> f7 0 \<or> \<not> f7 4 \<and> f7 3
         in (ip1, if isX then ip2 \<circ> swap_pair else ip2))
      else if isMul16A32 fl \<or> isMul16A64 fl then
        (let isX = mul16_isX f7;
             isInvStraight = mul16_isInvStraight f7;
             op2 = (if isX \<or> isInvStraight then ip2 \<circ> swap_pair else ip2);
             op1 = (if isInvStraight then ip1 \<circ> swap_pair else ip1);
             isSMAL = mul16_isSMAL f7
         in if isMul16A64 fl \<and> isSMAL
            then (op1(0 := ip2 3, 1 := ip2 1), op2(0 := ip2 2, 1 := ip2 0))
            else (op1, op2))
      else (ip1, ip2))"

text \<open>The 32-bit accumulation. A minus is \<open>~x + 1\<close>.\<close>

definition mul16_acc32 :: "(nat \<Rightarrow> bool) \<Rightarrow> u64 \<Rightarrow> (nat \<Rightarrow> u32) \<Rightarrow> u64" where
  "mul16_acc32 f7 rdv mul =
     (let isAdd = \<not> f7 5 \<and> f7 4 \<and> f7 3 \<or> f7 5 \<and> \<not> f7 4 \<and> \<not> f7 3;
          isSub = f7 5 \<and> f7 3 \<and> \<not> f7 0;
          isiSub = f7 5 \<and> f7 4 \<and> \<not> f7 3 \<and> \<not> f7 0;
          mul0 = (if isSub then NOT (mul 0) + 1 else mul 0);
          mul2 = (if isSub then NOT (mul 2) + 1 else mul 2);
          mul1 = (if isiSub then NOT (mul 1) + 1 else mul 1);
          mul3 = (if isiSub then NOT (mul 3) + 1 else mul 3);
          two = isAdd \<or> isSub \<or> isiSub;
          res0 = (if two then snd (qnadd mul0 mul1) else mul0);
          res1 = (if two then snd (qnadd mul2 mul3) else mul2);
          isAccAdd = mul16_isAccAdd f7;
          isAccSub = mul16_isAccSub f7;
          res0 = (if isAccSub then NOT res0 + 1 else res0);
          res1 = (if isAccSub then NOT res1 + 1 else res1)
      in if isAccAdd \<or> isAccSub
         then cat32 (snd (qnadd (word_of rdv 1) res1)) (snd (qnadd (word_of rdv 0) res0))
         else cat32 res1 res0)"

text \<open>The 64-bit accumulation. The source negates \<open>mul0\<close> twice under \<open>ism0_neg\<close>.\<close>

definition mul16_acc64 :: "(nat \<Rightarrow> bool) \<Rightarrow> u64 \<Rightarrow> (nat \<Rightarrow> u32) \<Rightarrow> u64" where
  "mul16_acc64 f7 rdv mul =
     (let isAcc64 = mul16_isAcc64 f7;
          ism1_neg = mul16_ism1_neg f7;
          ism0_neg = mul16_ism0_neg f7
      in if \<not> isAcc64 then rdv + scast (mul 0) + scast (mul 1)
         else let mul1 = (if ism1_neg then NOT (mul 1) + 1 else mul 1);
                  mul3 = (if ism1_neg then NOT (mul 3) + 1 else mul 3);
                  mul0 = (if ism0_neg then NOT (mul 0) + 1 else mul 0);
                  mul0 = (if ism0_neg then NOT mul0 + 1 else mul0)
              in rdv + scast mul0 + scast mul1 + scast (mul 2) + scast mul3)"

text \<open>None: the flags select no result, \<open>valid\<close> stays False and \<open>result\<close> 0.\<close>

definition mul16 :: "flags \<Rightarrow> (nat \<Rightarrow> bool) \<Rightarrow> u64 \<Rightarrow> u64 \<Rightarrow> u64 \<Rightarrow> PBoxOut" where
  "mul16 fl f7 rv1 rv2 rdv =
     (let (op1, op2) = mul16_operands fl f7 rv1 rv2;
          mul = (\<lambda>k. usMult4 (op1 k) (op2 k) (mul16_isSMUL fl f7) False :: u32);
          high = (\<lambda>k. ucast (drop_bit 15 (mul k)) :: 16 word)
      in if isMul16 fl then
           \<lparr>valid = True, data = if \<not> f7 4 then cat16 (high 3) (high 2) (high 1) (high 0)
              else cat32 (mul 1) (mul 0)\<rparr>
         else if isMul16A32 fl then \<lparr>valid = True, data = mul16_acc32 f7 rdv mul\<rparr>
         else if isMul16A64 fl then \<lparr>valid = True, data = mul16_acc64 f7 rdv mul\<rparr>
         else \<lparr>valid = False, data = 0\<rparr>)"

subsection \<open>32-bit multiplications\<close>

text \<open>
  Only the branch \<open>isDirect\<close> sets \<open>valid\<close>. What the source computes for \<open>isMul32A64\<close> (the
  rounded upper halves) goes to local variables and is dropped, and \<open>isMSW32Mul\<close> has no
  branch of its own: the result stays 0.
\<close>

definition mul32_isSwitchB :: "(nat \<Rightarrow> bool) \<Rightarrow> bool" where
  "mul32_isSwitchB f7 = (\<not> f7 5 \<and> \<not> f7 4 \<or> \<not> f7 5 \<and> \<not> f7 3 \<or> f7 5 \<and> f7 4 \<and> f7 3 \<or> \<not> f7 5 \<and> f7 0 \<or>
     \<not> f7 3 \<and> f7 0)"

definition mul32_isSwitchT :: "(nat \<Rightarrow> bool) \<Rightarrow> bool" where
  "mul32_isSwitchT f7 = (f7 5 \<and> f7 3 \<and> f7 0 \<or> \<not> f7 5 \<and> f7 4 \<and> \<not> f7 0)"

definition mul32_isDirect :: "(nat \<Rightarrow> bool) \<Rightarrow> bool" where
  "mul32_isDirect f7 = (\<not> f7 5 \<and> \<not> f7 4 \<or> \<not> f7 5 \<and> \<not> f7 3)"

definition mul32_isAcc :: "(nat \<Rightarrow> bool) \<Rightarrow> bool" where
  "mul32_isAcc f7 = (f7 1 \<or> f7 5 \<and> f7 0)"

definition mul32_ist0neg :: "(nat \<Rightarrow> bool) \<Rightarrow> bool" where
  "mul32_ist0neg f7 = (f7 5 \<and> f7 3 \<and> \<not> f7 0 \<or> \<not> f7 4 \<and> f7 1)"

definition mul32_ist1neg :: "(nat \<Rightarrow> bool) \<Rightarrow> bool" where
  "mul32_ist1neg f7 = (f7 5 \<and> \<not> f7 3 \<and> \<not> f7 0 \<or> \<not> f7 3 \<and> f7 1)"

text \<open>Signed or unsigned, for \<open>isMSW32Mul\<close>.\<close>

definition msw32_isU :: "(nat \<Rightarrow> bool) \<Rightarrow> bool" where
  "msw32_isU f7 = f7 4"

text \<open>
  The signals of the branch \<open>isMul32A64\<close>. The branch rounds or cuts the two products by
  \<open>isRound\<close> and then drops them; the other three are not read at all.
\<close>

definition mul32A64_isRound :: "(nat \<Rightarrow> bool) \<Rightarrow> bool" where
  "mul32A64_isRound f7 = f7 3"

definition mul32A64_isAcc :: "(nat \<Rightarrow> bool) \<Rightarrow> bool" where
  "mul32A64_isAcc f7 = (\<not> f7 4 \<and> f7 0 \<or> f7 4 \<and> \<not> f7 0)"

definition mul32A64_isDoub :: "(nat \<Rightarrow> bool) \<Rightarrow> bool" where
  "mul32A64_isDoub f7 = (f7 4 \<and> f7 0)"

definition mul32A64_isAcc_isSub :: "(nat \<Rightarrow> bool) \<Rightarrow> bool" where
  "mul32A64_isAcc_isSub f7 = (\<not> f7 4)"

lemmas mul32_signals = mul32_isSwitchB_def mul32_isSwitchT_def mul32_isDirect_def mul32_isAcc_def mul32_ist0neg_def
  mul32_ist1neg_def

definition mul32_products :: "flags \<Rightarrow> (nat \<Rightarrow> bool) \<Rightarrow> u64 \<Rightarrow> u64 \<Rightarrow> u64 \<times> u64" where
  "mul32_products fl f7 rv1 rv2 =
     (let isSwitchB = mul32_isSwitchB f7;
          isSwitchT = mul32_isSwitchT f7;
          isMSW32Mul_isU = msw32_isU f7;
          switchB = is32BitMulAcc fl \<and> isSwitchB;
          switchT = switchB \<and> isSwitchT;
          (t0_ip1, t1_ip1) = (if switchT then (word_of rv1 1, word_of rv1 0) else (word_of rv1 0, word_of rv1 1));
          (t0_ip2, t1_ip2) = (if switchB then (word_of rv2 1, word_of rv2 0) else (word_of rv2 0, word_of rv2 1));
          sg = (\<not> (isMSW32Mul fl \<and> isMSW32Mul_isU))
      in (usMult4 t0_ip1 t0_ip2 sg False, usMult4 t1_ip1 t1_ip2 sg False))"

definition mul32 :: "flags \<Rightarrow> (nat \<Rightarrow> bool) \<Rightarrow> u64 \<Rightarrow> u64 \<Rightarrow> u64 \<Rightarrow> PBoxOut" where
  "mul32 fl f7 rv1 rv2 rdv =
     (let (t0, t1) = mul32_products fl f7 rv1 rv2;
          isDirect = mul32_isDirect f7;
          isAcc = mul32_isAcc f7;
          ist0neg = mul32_ist0neg f7;
          ist1neg = mul32_ist1neg f7
      in if is32BitMulAcc fl then
           if isDirect then \<lparr>valid = True, data = t0\<rparr>
           else let t0 = (if ist0neg then NOT t0 + 1 else t0);
                    t1 = (if ist1neg then NOT t1 + 1 else t1);
                    (ov, res) = qnadd t0 t1;
                    (ov, res) = (if isAcc \<and> \<not> ov then qnadd rdv (t0 + t1) else (ov, res))
                in \<lparr>valid = False, data = res\<rparr>
         else \<lparr>valid = False, data = 0\<rparr>)"

subsection \<open>32-bit additions and subtractions\<close>

text \<open>
  On 33 bits: \<open>Int#(33)\<close> for the signed instructions, \<open>Bit#(33)\<close> for the others. The two
  results are \<open>tempres1\<close> and \<open>tempres0\<close>. In the source's bounds \<open>2^31 - 1\<close>, \<open>-2^31\<close>
  and \<open>2^32 - 1\<close> the operator \<open>^\<close> is exclusive or, which binds weaker than the minus.
\<close>

definition addsub :: "(nat \<Rightarrow> bool) \<Rightarrow> (u32 \<Rightarrow> 33 word) \<Rightarrow> u64 \<Rightarrow> u64 \<Rightarrow> 33 word \<times> 33 word" where
  "addsub f7 ext rv1 rv2 =
     (let isADD = \<not> (f7 1 \<or> f7 0);
          isSUB = \<not> f7 1 \<and> f7 0;
          isCRAS = f7 1 \<and> \<not> f7 0;
          isCRSA = f7 1 \<and> f7 0;
          a0 = ext (word_of rv1 0); a1 = ext (word_of rv1 1);
          b0 = ext (word_of rv2 0); b1 = ext (word_of rv2 1)
      in if isADD then (a1 + b1, a0 + b0)
         else if isSUB then (a1 - b1, a0 - b0)
         else if isCRAS then (a1 + b0, a0 - b1)
         else if isCRSA then (a1 - b0, a0 + b1)
         else (0, 0))"

definition clip_signed :: "'n::len word \<Rightarrow> 'n word" where
  "clip_signed t =
     (let upper = 2 XOR (31 - 1); lower = (- 2) XOR 31
      in if sint t > sint upper then upper else if sint t < sint lower then lower else t)"

definition clip_unsigned :: "33 word \<Rightarrow> 33 word" where
  "clip_unsigned t = (let upper = 2 XOR (32 - 1) in if t > upper then upper else if t < 0 then 0 else t)"

definition addsub32 :: "(nat \<Rightarrow> bool) \<Rightarrow> u64 \<Rightarrow> u64 \<Rightarrow> PBoxOut" where
  "addsub32 f7 rv1 rv2 =
     (let isSIGNED = \<not> (f7 5 \<or> f7 4);
          isUNSIGNED = f7 4;
          isSATURATE = f7 3;
          (tempres1, tempres0) =
            (if isSIGNED then
               let (t1, t0) = addsub f7 scast rv1 rv2
               in if isSATURATE then (clip_signed t1, clip_signed t0)
                  else (signed_drop_bit 1 t1, signed_drop_bit 1 t0)
             else
               let (t1, t0) = addsub f7 ucast rv1 rv2
               in if isUNSIGNED then
                    if isSATURATE then (clip_unsigned t1, clip_unsigned t0)
                    else (drop_bit 1 t1, drop_bit 1 t0)
                  else (t1, t0))
      in \<lparr>valid = True, data = cat32 (ucast tempres1) (ucast tempres0)\<rparr>)"

subsection \<open>32-bit shifts\<close>

text \<open>
  Most of the branch is commented out in the source, so that a right shift by a nonzero amount
  leaves \<open>tempres0\<close>, and mostly \<open>tempres1\<close> too, at 0. \<open>upper_range rv1 sa\<close> stands for
  \<open>signExtend(rv1[63:p])\<close> with \<open>p = conv(sa)\<close>: \<open>conv\<close> counts up from an uninitialised
  number, so the expression has no value that could be translated.
\<close>

definition shift32 :: "(u64 \<Rightarrow> 5 word \<Rightarrow> 33 word) \<Rightarrow> (nat \<Rightarrow> bool) \<Rightarrow> u32 \<Rightarrow> u64 \<Rightarrow> u64 \<Rightarrow> PBoxOut" where
  "shift32 upper_range f7 ins rv1 rv2 =
     (let isSE = \<not> (f7 1 \<or> f7 0);
          isZE = \<not> (f7 1 \<and> \<not> f7 0);
          isLS = \<not> (f7 0 \<and> \<not> f7 1);
          isROUNDING = \<not> (f7 1 \<and> f7 3);
          isIMM = (f7 4 = f7 3);
          sa = (if isIMM then ucast (drop_bit 20 ins) else ucast rv2) :: 5 word;
          left = (\<lambda>k. push_bit (unat sa) (word_of rv1 k))
      in if isSE then
           if sa \<noteq> 0 then
             let tempres1 = (if isROUNDING then upper_range rv1 sa + 1 else 0)
             in \<lparr>valid = True, data = cat32 (ucast tempres1) 0\<rparr>
           else \<lparr>valid = True, data = rv1\<rparr>
         else if isZE then
           if sa \<noteq> 0 then \<lparr>valid = True, data = cat32 0 0\<rparr> else \<lparr>valid = True, data = rv1\<rparr>
         else if isLS then
           if f7 3 then \<lparr>valid = True, data = cat32 (left 1) (left 0)\<rparr>
           else if sa \<noteq> 0 then \<lparr>valid = False, data = cat32 (clip_signed (left 1)) (clip_signed (left 0))\<rparr>
           else \<lparr>valid = False, data = rv1\<rparr>
         else \<lparr>valid = False, data = 0\<rparr>)"

subsection \<open>fn_compute\<close>

text \<open>\<open>undefined_data\<close> is the \<open>?\<close> that an unknown instruction returns.\<close>

definition fn_compute :: "(u64 \<Rightarrow> 5 word \<Rightarrow> 33 word) \<Rightarrow> u64 \<Rightarrow> PBoxIn \<Rightarrow> PBoxOut" where
  "fn_compute upper_range undefined_data inp =
     (let rv1 = rs1 inp; rv2 = rs2 inp; rdv = rd inp;
          f7 = (\<lambda>k. bit (instr inp) (25 + k));
          f3 = ucast (drop_bit 12 (instr inp));
          fl = decode f3 f7;
          is16BitMul = is16bitMulAcc fl \<or> isMul16 fl;
          is32BitMul = is32BitMulAcc fl \<or> isMul32A64 fl \<or> isMSW32Mul fl
      in if is8BitMul fl then \<lparr>valid = True, data = mul8 f7 rv1 rv2\<rparr>
         else if is16BitMul then mul16 fl f7 rv1 rv2 rdv
         else if is32BitMul then mul32 fl f7 rv1 rv2 rdv
         else if is32BitAddSub fl then addsub32 f7 rv1 rv2
         else if is32BitShift fl then shift32 upper_range f7 (instr inp) rv1 rv2
         else \<lparr>valid = False, data = undefined_data\<rparr>)"

subsection \<open>Lanes\<close>

lemma half_of_cat16 [simp]:
  "half_of (cat16 h3 h2 h1 h0) 0 = h0" "half_of (cat16 h3 h2 h1 h0) (Suc 0) = h1"
  "half_of (cat16 h3 h2 h1 h0) 2 = h2" "half_of (cat16 h3 h2 h1 h0) 3 = h3"
  by (auto intro!: bit_word_eqI simp: half_of_def cat16_def bit_ucast_iff bit_drop_bit_eq bit_word_cat_iff)

lemma word_of_cat32 [simp]: "word_of (cat32 w1 w0) 0 = w0" "word_of (cat32 w1 w0) (Suc 0) = w1"
  by (auto intro!: bit_word_eqI simp: word_of_def cat32_def bit_ucast_iff bit_drop_bit_eq bit_word_cat_iff)

lemma half_of_products:
  "half_of u 0 = ucast u" "half_of u 2 = ucast (drop_bit 32 u)"
  by (simp_all add: half_of_def)

lemma sint_add_cases:
  fixes a b :: "'n::len word"
  defines "N \<equiv> 2 ^ (LENGTH('n) - 1)"
  shows "sint (a + b) = (let x = sint a + sint b in if x < - N then x + 2 * N else if N \<le> x then x - 2 * N else x)"
proof -
  let ?x = "sint a + sint b"
  have b: "- N \<le> sint a" "sint a < N" "- N \<le> sint b" "sint b < N"
    using sint_bounds [of a] sint_bounds [of b] by (simp_all add: N_def)
  have N: "2 * N = 2 ^ LENGTH('n)" by (simp add: N_def power_Suc [symmetric] del: power_Suc)
  have "sint (a + b) = (?x + N) mod (2 * N) - N"
    unfolding sint_word_add signed_take_bit_eq_take_bit_shift take_bit_eq_mod
    by (simp add: N_def power_Suc [symmetric] del: power_Suc)
  moreover have "(?x + N) mod (2 * N) = ?x + N + 2 * N" if "?x < - N"
    using mod_add_self2 [of "?x + N" "2 * N"] that b by simp
  moreover have "(?x + N) mod (2 * N) = ?x + N - 2 * N" if "N \<le> ?x"
    using mod_add_self2 [of "?x + N - 2 * N" "2 * N"] that b by (simp add: ac_simps)
  moreover have "(?x + N) mod (2 * N) = ?x + N" if "- N \<le> ?x" "?x < N"
    using that by simp
  ultimately show ?thesis by (auto simp: Let_def not_less)
qed

lemma top_bit_sint: "bit a (LENGTH('n) - 1) \<longleftrightarrow> sint a < 0" for a :: "'n::len word"
  by (simp add: bit_last_iff)

lemma sint_extremes:
  "sint (word_of_bits (\<lambda>i. i = LENGTH('n) - 1) :: 'n::len word) = - (2 ^ (LENGTH('n) - 1))"
  "sint (word_of_bits (\<lambda>i. i \<noteq> LENGTH('n) - 1) :: 'n::len word) = 2 ^ (LENGTH('n) - 1) - 1"
proof -
  have "(\<Sum>i<LENGTH('n) - 1. of_bool (i < LENGTH('n) \<and> i \<noteq> LENGTH('n) - 1) * 2 ^ i) = (\<Sum>i<LENGTH('n) - 1. 2 ^ i :: int)"
    by (rule sum.cong) auto
  then show "sint (word_of_bits (\<lambda>i. i \<noteq> LENGTH('n) - 1) :: 'n word) = 2 ^ (LENGTH('n) - 1) - 1"
    unfolding sint_top low_part_def top_bit_def bit_word_of_bits sum_pow2 by simp
qed (simp add: sint_top low_part_def top_bit_def)

lemma qnadd_value:
  fixes a b :: "'n::len word"
  shows "sint (snd (qnadd a b)) = max (- (2 ^ (LENGTH('n) - 1))) (min (2 ^ (LENGTH('n) - 1) - 1) (sint a + sint b))"
    and "fst (qnadd a b) \<longleftrightarrow> sint (a + b) \<noteq> sint a + sint b"
proof -
  define N :: int where "N = 2 ^ (LENGTH('n) - 1)"
  have N: "0 < N" "- N \<le> sint a" "sint a < N" "- N \<le> sint b" "sint b < N"
    using sint_bounds [of a] sint_bounds [of b] by (simp_all add: N_def)
  note s = sint_add_cases [of a b, folded N_def, unfolded Let_def]
  have q: "qnadd a b = (if (sint a < 0 \<longleftrightarrow> sint b < 0) \<and> \<not> (sint (a + b) < 0 \<longleftrightarrow> sint a < 0)
      then (True, if sint a < 0 then word_of_bits (\<lambda>i. i = LENGTH('n) - 1) else word_of_bits (\<lambda>i. i \<noteq> LENGTH('n) - 1))
      else (False, a + b))"
    unfolding qnadd_def Let_def top_bit_sint by simp
  have ext: "sint (word_of_bits (\<lambda>i. i = LENGTH('n) - 1) :: 'n word) = - N"
    "sint (word_of_bits (\<lambda>i. i \<noteq> LENGTH('n) - 1) :: 'n word) = N - 1"
    unfolding N_def by (rule sint_extremes)+
  show "sint (snd (qnadd a b)) = max (- (2 ^ (LENGTH('n) - 1))) (min (2 ^ (LENGTH('n) - 1) - 1) (sint a + sint b))"
    unfolding q N_def [symmetric] using N s by (auto simp: ext [unfolded One_nat_def] split: if_splits)
  show "fst (qnadd a b) \<longleftrightarrow> sint (a + b) \<noteq> sint a + sint b"
    unfolding q using N s by (auto split: if_splits)
qed

subsection \<open>What the units compute\<close>

lemma mul8_half:
  fixes f7 rv1 rv2
  defines "ip2 \<equiv> \<lambda>k. byte_of rv2 (if f7 0 then swap_pair k else k)"
  assumes "k < 4"
  shows "half_of (mul8 f7 rv1 rv2) k = (if f7 4 \<and> f7 3 then word_of_int (uint (byte_of rv1 k) * uint (ip2 k))
    else word_of_int (sint (byte_of rv1 k) * sint (ip2 k)))"
proof -
  have "k = 0 \<or> k = 1 \<or> k = 2 \<or> k = 3" using assms(2) by arith
  moreover have "half_of (usMult4 (byte_pair x1 x0) (byte_pair y1 y0) False g :: u64) 0 =
      (if g then word_of_int (sint x0 * sint y0) else word_of_int (uint x0 * uint y0))"
    "half_of (usMult4 (byte_pair x1 x0) (byte_pair y1 y0) False g :: u64) 2 =
      (if g then word_of_int (sint x1 * sint y1) else word_of_int (uint x1 * uint y1))" for x1 x0 y1 y0 g
    by (cases g; simp only: half_of_products bytes_product_signed bytes_product_unsigned if_True if_False)+
  ultimately show ?thesis
    by (elim disjE; simp only: mul8_def Let_def half_of_cat16 ip2_def One_nat_def not_not if_not_P; simp)
qed

lemma addsub_lanes:
  "addsub f7 ext rv1 rv2 =
    (let a = \<lambda>k. ext (word_of rv1 k); b = \<lambda>k. ext (word_of rv2 (if f7 1 then swap_pair k else k)) in
     (if f7 0 then a 1 - b 1 else a 1 + b 1, if f7 0 \<noteq> f7 1 then a 0 - b 0 else a 0 + b 0))"
  by (simp add: addsub_def Let_def swap_pair_def)

text \<open>
  The operands of lane \<open>k\<close> as numbers, and the sum or difference that the instruction asks
  for: \<open>f7[1:0]\<close> is ADD, SUB, CRAS (add above, subtract below, crossed) or CRSA.
\<close>

definition lane_value :: "(nat \<Rightarrow> bool) \<Rightarrow> (u32 \<Rightarrow> int) \<Rightarrow> u64 \<Rightarrow> u64 \<Rightarrow> nat \<Rightarrow> int" where
  "lane_value f7 num rv1 rv2 k =
     (let x = num (word_of rv1 k);
          y = num (word_of rv2 (if f7 1 then swap_pair k else k))
      in if (if k = 0 then f7 0 \<noteq> f7 1 else f7 0) then x - y else x + y)"

lemma addsub_value:
  assumes "\<And>x. ext x = word_of_int (num x)"
  shows "addsub f7 ext rv1 rv2 =
    (word_of_int (lane_value f7 num rv1 rv2 1), word_of_int (lane_value f7 num rv1 rv2 0))"
  by (simp add: addsub_lanes lane_value_def Let_def assms)

lemma extend_value:
  "(scast x :: 33 word) = word_of_int (sint x)" "(ucast x :: 33 word) = word_of_int (uint x)" for x :: u32
  by simp_all

lemma lane_parts:
  "(ucast (word_of_int v :: 33 word) :: u32) = word_of_int v"
  "(ucast (drop_bit 1 (word_of_int v :: 33 word)) :: u32) = word_of_int (v div 2)"
  "(ucast (signed_drop_bit 1 (word_of_int v :: 33 word)) :: u32) = word_of_int (v div 2)"
proof -
  have half: "v div 2 = drop_bit 1 v" by (simp add: drop_bit_eq_div)
  show "(ucast (word_of_int v :: 33 word) :: u32) = word_of_int v"
    by (rule bit_word_eqI) (simp add: bit_ucast_iff bit_of_int_iff)
  show "(ucast (drop_bit 1 (word_of_int v :: 33 word)) :: u32) = word_of_int (v div 2)"
    unfolding half by (rule bit_word_eqI) (simp add: bit_ucast_iff bit_of_int_iff bit_drop_bit_eq)
  show "(ucast (signed_drop_bit 1 (word_of_int v :: 33 word)) :: u32) = word_of_int (v div 2)"
    unfolding half by (rule bit_word_eqI) (simp add: bit_ucast_iff bit_of_int_iff bit_signed_drop_bit_iff bit_drop_bit_eq)
qed

lemma clip_signed_value:
  "- (2 ^ 32) \<le> v \<Longrightarrow> v < 2 ^ 32 \<Longrightarrow> clip_signed (word_of_int v :: 33 word) = word_of_int (max (- 31) (min 28 v))"
  using sint_of_int [where 'a = 33, of v] by (auto simp: clip_signed_def Let_def)

lemma clip_unsigned_value:
  "clip_unsigned (word_of_int v) = word_of_int (min 29 (v mod 2 ^ 33))"
proof -
  have "(word_of_int v :: 33 word) = word_of_int (v mod 2 ^ 33)"
    by (simp add: word_uint_eq_iff uint_word_of_int)
  then show ?thesis by (auto simp: clip_unsigned_def Let_def word_less_def uint_word_of_int)
qed

lemma lane_value_bounds:
  "- (2 ^ 32) \<le> lane_value f7 sint rv1 rv2 k" "lane_value f7 sint rv1 rv2 k < 2 ^ 32"
proof -
  have "- (2 ^ 32) \<le> sint x + sint y \<and> sint x + sint y < 2 ^ 32 \<and> - (2 ^ 32) \<le> sint x - sint y \<and> sint x - sint y < 2 ^ 32"
    for x y :: u32 using sint_bounds [of x] sint_bounds [of y] by simp
  then show "- (2 ^ 32) \<le> lane_value f7 sint rv1 rv2 k" "lane_value f7 sint rv1 rv2 k < 2 ^ 32"
    by (auto simp: lane_value_def Let_def)
qed

lemma addsub32_lanes:
  fixes f7 rv1 rv2
  defines "s \<equiv> lane_value f7 sint rv1 rv2" and "u \<equiv> lane_value f7 uint rv1 rv2"
  shows "addsub32 f7 rv1 rv2 = (let lane = (\<lambda>k. word_of_int
      (if \<not> f7 5 \<and> \<not> f7 4 then if f7 3 then max (- 31) (min 28 (s k)) else s k div 2
       else if \<not> f7 4 then u k
       else if f7 3 then min 29 (u k mod 2 ^ 33) else u k div 2))
    in \<lparr>valid = True, data = cat32 (lane 1) (lane 0)\<rparr>)"
proof -
  have s: "addsub f7 scast rv1 rv2 = (word_of_int (s 1), word_of_int (s 0))"
    unfolding s_def by (rule addsub_value) (rule extend_value)
  have u: "addsub f7 ucast rv1 rv2 = (word_of_int (u 1), word_of_int (u 0))"
    unfolding u_def by (rule addsub_value) (rule extend_value)
  have c: "clip_signed (word_of_int (s k) :: 33 word) = word_of_int (max (- 31) (min 28 (s k)))" for k
    unfolding s_def using lane_value_bounds by (intro clip_signed_value) simp_all
  show ?thesis
    by (cases "f7 5"; cases "f7 4"; cases "f7 3")
      (simp_all only: addsub32_def s u c clip_unsigned_value lane_parts Let_def prod.case simp_thms if_True if_False)
qed

subsection \<open>Dispatch\<close>

definition funct7 :: "PBoxIn \<Rightarrow> nat \<Rightarrow> bool" where
  "funct7 inp k = bit (instr inp) (25 + k)"

definition funct3 :: "PBoxIn \<Rightarrow> 3 word" where
  "funct3 inp = ucast (drop_bit 12 (instr inp))"

abbreviation flags_of :: "PBoxIn \<Rightarrow> flags" where
  "flags_of inp \<equiv> decode (funct3 inp) (funct7 inp)"

lemmas decode_simps = decode_def no_flags_def

lemma decode_kind:
  "is8BitMul (decode f3 f7) \<Longrightarrow> f3 = 0" "isMul16 (decode f3 f7) \<Longrightarrow> f3 = 0"
  "is16bitMulAcc (decode f3 f7) \<Longrightarrow> f3 = 1" "isMul32A64 (decode f3 f7) \<Longrightarrow> f3 = 1"
  "isMSW32Mul (decode f3 f7) \<Longrightarrow> f3 = 1" "is32BitMulAcc (decode f3 f7) \<Longrightarrow> f3 = 2"
  "is32BitAddSub (decode f3 f7) \<Longrightarrow> f3 = 2" "isMul16A32 (decode f3 f7) \<Longrightarrow> f3 = 1"
  "isMul16A64 (decode f3 f7) \<Longrightarrow> f3 = 1"
  by (simp_all add: decode_simps split: if_splits)

lemma decode_exclusive:
  "is32BitAddSub (decode f3 f7) \<Longrightarrow> \<not> is32BitMulAcc (decode f3 f7)"
  "isMul16 (decode f3 f7) \<Longrightarrow> \<not> is8BitMul (decode f3 f7)"
  by (cases "f7 2"; simp add: decode_simps split: if_splits)+

lemma decode_other:
  "f3 \<noteq> 0 \<Longrightarrow> \<not> is8BitMul (decode f3 f7)" "f3 \<noteq> 0 \<Longrightarrow> \<not> isMul16 (decode f3 f7)"
  "f3 \<noteq> 1 \<Longrightarrow> \<not> is16bitMulAcc (decode f3 f7)" "f3 \<noteq> 1 \<Longrightarrow> \<not> isMul32A64 (decode f3 f7)"
  "f3 \<noteq> 1 \<Longrightarrow> \<not> isMSW32Mul (decode f3 f7)" "f3 \<noteq> 2 \<Longrightarrow> \<not> is32BitMulAcc (decode f3 f7)"
  "f3 \<noteq> 2 \<Longrightarrow> \<not> is32BitAddSub (decode f3 f7)"
  by (simp_all add: decode_simps)

lemma fn_compute_eq:
  "fn_compute r u inp =
     (if is8BitMul (flags_of inp) then \<lparr>valid = True, data = mul8 (funct7 inp) (rs1 inp) (rs2 inp)\<rparr>
      else if is16bitMulAcc (flags_of inp) \<or> isMul16 (flags_of inp)
      then mul16 (flags_of inp) (funct7 inp) (rs1 inp) (rs2 inp) (rd inp)
      else if is32BitMulAcc (flags_of inp) \<or> isMul32A64 (flags_of inp) \<or> isMSW32Mul (flags_of inp)
      then mul32 (flags_of inp) (funct7 inp) (rs1 inp) (rs2 inp) (rd inp)
      else if is32BitAddSub (flags_of inp) then addsub32 (funct7 inp) (rs1 inp) (rs2 inp)
      else if is32BitShift (flags_of inp) then shift32 r (funct7 inp) (instr inp) (rs1 inp) (rs2 inp)
      else \<lparr>valid = False, data = u\<rparr>)"
proof -
  have "(\<lambda>k. bit (instr inp) (25 + k)) = funct7 inp" by (simp add: funct7_def fun_eq_iff)
  then show ?thesis by (simp only: fn_compute_def Let_def funct3_def)
qed

lemma dispatch_mul8:
  "is8BitMul (flags_of inp) \<Longrightarrow>
    fn_compute r u inp = \<lparr>valid = True, data = mul8 (funct7 inp) (rs1 inp) (rs2 inp)\<rparr>"
  by (simp only: fn_compute_eq if_True)

lemma dispatch_mul16:
  assumes "isMul16 (flags_of inp) \<or> is16bitMulAcc (flags_of inp)"
  shows "fn_compute r u inp = mul16 (flags_of inp) (funct7 inp) (rs1 inp) (rs2 inp) (rd inp)"
proof -
  have "\<not> is8BitMul (flags_of inp)"
    using assms decode_exclusive(2) decode_kind(3) decode_other(1) [of "funct3 inp"] by fastforce
  then show ?thesis using assms by (simp only: fn_compute_eq disj_commute if_True if_False)
qed

lemma dispatch_mul32:
  assumes "is32BitMulAcc (flags_of inp) \<or>
    \<not> is16bitMulAcc (flags_of inp) \<and> (isMul32A64 (flags_of inp) \<or> isMSW32Mul (flags_of inp))"
  shows "fn_compute r u inp = mul32 (flags_of inp) (funct7 inp) (rs1 inp) (rs2 inp) (rd inp)"
proof -
  have f3: "funct3 inp \<noteq> 0"
    using assms decode_kind(4-6) by fastforce
  have "\<not> is16bitMulAcc (flags_of inp)"
    using assms decode_kind(6) decode_other(3) [of "funct3 inp"] by fastforce
  then show ?thesis using assms decode_other(1,2) [OF f3] by (simp only: fn_compute_eq if_True if_False) metis
qed

lemma dispatch_addsub:
  assumes "is32BitAddSub (flags_of inp)"
  shows "fn_compute r u inp = addsub32 (funct7 inp) (rs1 inp) (rs2 inp)"
proof -
  have f3: "funct3 inp \<noteq> 0" "funct3 inp \<noteq> 1"
    using decode_kind(7) [OF assms] by simp_all
  show ?thesis
    using assms decode_other(1,2) [OF f3(1)] decode_other(3-5) [OF f3(2)] decode_exclusive(1) [OF assms]
    by (simp only: fn_compute_eq if_True if_False simp_thms)
qed

subsection \<open>The products of the 16-bit unit\<close>

definition sat :: "nat \<Rightarrow> int \<Rightarrow> int" where
  "sat n v = max (- (2 ^ (n - 1))) (min (2 ^ (n - 1) - 1) v)"

lemma sint_qnadd: "sint (snd (qnadd a b)) = sat LENGTH('n) (sint a + sint b)" for a b :: "'n::len word"
  by (simp add: qnadd_value sat_def)

lemma sint_usMult4: "sint (usMult4 a b True False :: u32) = sint a * sint b" for a b :: "16 word"
proof -
  have len: "LENGTH(32) = LENGTH(16) + LENGTH(16)" by simp
  show ?thesis
    by (simp only: usMult4_signed usMult_value [OF len disjI1 [OF refl]] if_True sint_product [OF len])
qed

lemma product_bounds:
  "- (2 ^ 30) < sint a * sint b \<and> sint a * sint b \<le> 2 ^ 30" for a b :: "16 word"
proof -
  have b: "- 32768 \<le> sint w" "sint w \<le> 32767" for w :: "16 word"
    using sint_bounds [of w] by simp_all
  have "\<bar>sint a\<bar> * \<bar>sint b\<bar> \<le> 32768 * 32768" 
    using b [of a] b [of b] by (intro mult_mono) auto
  moreover have "\<bar>sint a\<bar> * \<bar>sint b\<bar> \<le> 32767 * 32768" if "sint a * sint b < 0"
  proof (cases "sint a < 0")
    case True
    then have "0 < sint b" using that by (simp add: mult_less_0_iff)
    then have "\<bar>sint b\<bar> * \<bar>sint a\<bar> \<le> 32767 * 32768" using b [of a] b [of b] by (intro mult_mono) auto
    then show ?thesis by (simp add: mult.commute)
  next
    case False
    then show ?thesis using b [of a] b [of b] by (intro mult_mono) auto
  qed
  ultimately show ?thesis by (simp add: abs_mult [symmetric] abs_le_iff) linarith
qed

lemma sint_minus: "sint w \<noteq> - (2 ^ (LENGTH('n) - 1)) \<Longrightarrow> sint (NOT w + 1) = - sint w" for w :: "'n::len word"
proof -
  assume "sint w \<noteq> - (2 ^ (LENGTH('n) - 1))"
  then have "sint (of_int (- sint w) :: 'n word) = - sint w"
    using sint_bounds [of w] by (intro sint_of_int) auto
  moreover have "of_int (- sint w) = NOT w + 1"
    by (simp add: minus_eq_not_plus_1 [symmetric])
  ultimately show ?thesis by simp
qed

end
