(* ===== verification/PBox_Decode.thy ===== *)
theory PBox_Decode
  imports PBox_Compute
begin

section \<open>The truth tables behind the decoder\<close>

text \<open>
  The equations that \<open>fn_compute\<close> decodes with were minimised with Karnaugh maps. Their inputs
  are in \<open>src/pbox/decoder_kmaps.ipynb\<close>: for each signal the values of \<open>funct7\<close> (as numbers)
  where it is 1, within a superset outside which its value does not matter. The notebook has no
  tables for \<open>funct3 = 000\<close>; there the values of \<open>funct7\<close> are those that the test bench
  \<open>src/pbox/testing/psimd_test_fns.py\<close> gives its instructions.
\<close>

definition complement :: "nat list \<Rightarrow> nat list \<Rightarrow> nat list" where
  "complement univ_list spec_list = filter (\<lambda>i. i \<notin> set spec_list) univ_list"

text \<open>A map \<open>(super_set_ones, subset_ones)\<close> and the equation that came out of it.\<close>

type_synonym kmap = "nat list \<times> nat list \<times> ((nat \<Rightarrow> bool) \<Rightarrow> bool)"

definition agrees :: "kmap \<Rightarrow> bool" where
  "agrees = (\<lambda>(super_set_ones, subset_ones, signal).
     list_all (\<lambda>n. signal (bit n)) subset_ones \<and>
     list_all (\<lambda>n. \<not> signal (bit n)) (complement super_set_ones subset_ones))"

subsection \<open>8- and 16-bit multiplications, funct3 = 000\<close>

text \<open>
  \<open>smul8\<close>, \<open>smulx8\<close>, \<open>umul8\<close>, \<open>umulx8\<close>, \<open>khm8\<close>, \<open>khmx8\<close>, and \<open>smul16\<close>,
  \<open>smulx16\<close>, \<open>umul16\<close>, \<open>umulx16\<close>, \<open>khm16\<close>, \<open>khmx16\<close>.
\<close>

definition codes_mul8 :: "nat list" where
  "codes_mul8 = [84, 85, 92, 93, 71, 79]"

definition codes_mul16 :: "nat list" where
  "codes_mul16 = [80, 81, 88, 89, 67, 75]"

definition tables_000 :: "kmap list" where
  "tables_000 =
    [(codes_mul8 @ codes_mul16, codes_mul8, \<lambda>f7. is8BitMul (decode 0 f7)),
     (codes_mul8 @ codes_mul16, codes_mul16, \<lambda>f7. isMul16 (decode 0 f7))]"

subsection \<open>16-bit multiply-accumulate, funct3 = 001\<close>

definition total_001 :: "nat list" where
  "total_001 = complement [0..<128] [30, 92, 93, 100, 101, 102, 104, 114, 115, 122, 123]"

definition ones_16bitMul :: "nat list" where
  "ones_16bitMul = [4, 12, 20, 28, 29, 36, 37, 38, 39, 44, 45, 46, 47, 52, 53, 54, 60, 61, 62,
     68, 69, 70, 76, 77, 78, 84, 85, 86, 94]"

definition ones_Mul16A32 :: "nat list" where
  "ones_Mul16A32 = [4, 12, 20, 28, 29, 36, 37, 38, 39, 44, 45, 46, 52, 53, 54, 60, 61, 62]"

definition ones_Mul16A64 :: "nat list" where
  "ones_Mul16A64 = complement ones_16bitMul ones_Mul16A32"

definition ones_Acc64 :: "nat list" where
  "ones_Acc64 = [69, 70, 77, 78, 85, 86, 94]"

definition kmaps_16bit :: "kmap list" where
  "kmaps_16bit =
    [(total_001, ones_16bitMul, \<lambda>f7. is16bitMulAcc (decode 1 f7)),
     (ones_16bitMul, ones_Mul16A32, \<lambda>f7. isMul16A32 (decode 1 f7)),
     (ones_16bitMul, ones_Mul16A64, \<lambda>f7. isMul16A64 (decode 1 f7)),
     (ones_16bitMul, [12, 29, 37, 39, 53, 60, 62, 78, 85, 94], mul16_isX),
     (ones_16bitMul, [4, 12, 20, 45, 53, 61, 68, 76, 84], mul16_isSingle),
     (ones_16bitMul, [20, 61, 84, 69], mul16_isInvStraight),
     (ones_Mul16A64, ones_Acc64, mul16_isAcc64),
     (ones_Acc64, [77, 85, 86, 94], mul16_ism1_neg),
     (ones_Acc64, [86, 94], mul16_ism0_neg),
     (ones_Mul16A32, [36, 37, 45, 46, 53, 54, 61, 62], mul16_isAccAdd),
     (ones_Mul16A32, [38, 39], mul16_isAccSub),
     (ones_Mul16A64, [47], mul16_isSMAL)]"

subsection \<open>32-bit most significant word, funct3 = 001\<close>

definition ones_Mul32A64 :: "nat list" where
  "ones_Mul32A64 = [32, 33, 40, 41, 48, 49, 56, 57]"

definition ones_MSW32Mul :: "nat list" where
  "ones_MSW32Mul = [66, 67, 74, 75, 82, 83, 90, 91]"

definition ones_Acc32 :: "nat list" where
  "ones_Acc32 = [33, 41, 48, 56]"

definition kmaps_msw :: "kmap list" where
  "kmaps_msw =
    [(total_001, ones_Mul32A64, \<lambda>f7. isMul32A64 (decode 1 f7)),
     (total_001, ones_MSW32Mul, \<lambda>f7. isMSW32Mul (decode 1 f7)),
     (ones_Mul32A64, [40, 41, 56, 57], mul32A64_isRound),
     (ones_Mul32A64, ones_Acc32, mul32A64_isAcc),
     (ones_Acc32, [33, 41], mul32A64_isAcc_isSub),
     (ones_Mul32A64, [49, 57], mul32A64_isDoub),
     (ones_MSW32Mul, [82, 83, 90, 91], msw32_isU)]"

subsection \<open>32-bit saturating multiply, funct3 = 010\<close>

definition dcs_010 :: "nat list" where
  "dcs_010 = [4, 5, 6, 7, 13, 14, 21, 22, 23, 30, 36, 47, 55, 59, 63, 67, 74, 75, 82, 83] @
     concat (map (\<lambda>i. [8 * i + 4, 8 * i + 5, 8 * i + 6, 8 * i + 7]) [8..<16])"

definition ones_32BitMulAcc :: "nat list" where
  "ones_32BitMulAcc = [12, 20, 28, 29, 37, 38, 39, 44, 45, 46, 52, 53, 54, 60, 61, 62]"

definition ones_SwitchB :: "nat list" where
  "ones_SwitchB = [12, 20, 29, 37, 39, 53, 60, 61, 62]"

definition kmaps_32bit :: "kmap list" where
  "kmaps_32bit =
    [(complement [0..<128] dcs_010, ones_32BitMulAcc, \<lambda>f7. is32BitMulAcc (decode 2 f7)),
     (ones_32BitMulAcc, ones_SwitchB, mul32_isSwitchB),
     (ones_SwitchB, [20, 61], mul32_isSwitchT),
     (ones_32BitMulAcc, [12, 20], mul32_isDirect),
     (ones_32BitMulAcc, [37, 38, 39, 45, 46, 53, 54, 61, 62], mul32_isAcc),
     (ones_32BitMulAcc, [38, 39, 44, 46, 60, 62], mul32_ist0neg),
     (ones_32BitMulAcc, [38, 39, 52, 54], mul32_ist1neg)]"

text \<open>The tables are finite, so each equation is evaluated on all the numbers they name.\<close>

lemma tables_000_agree: "list_all agrees tables_000"
  by code_simp

lemma kmaps_msw_agree: "list_all agrees kmaps_msw"
  by code_simp

lemma kmaps_32bit_agree: "list_all agrees kmaps_32bit"
  by code_simp

lemma kmaps_16bit_agree: "list_all agrees kmaps_16bit"
  by code_simp

text \<open>
  C9 (equations and truth tables). Every equation of \<open>fn_compute\<close> on bits of \<open>funct7\<close> whose signal
  has a truth table in the notebook (those that recognise the groups under \<open>funct3 = 001\<close> and
  \<open>is32BitMulAcc\<close>, and the signals within those groups, used or not) is 1 on each \<open>funct7\<close> that
  the table lists, and 0 on every other one of the table's superset. \<open>is8BitMul\<close> and
  \<open>isMul16\<close>, which have no table there, tell apart the codes of the twelve instructions of the
  test bench. The equations for which the repository has neither (\<open>is32BitAddSub\<close>,
  \<open>is32BitShift\<close> and the signals local to their branches and to those of \<open>is8BitMul\<close>,
  \<open>isMul16\<close> and the 32-bit sums of \<open>isMul16A32\<close>) are not compared here.
\<close>

theorem decode_equations_match_tables:
  "list_all agrees (tables_000 @ kmaps_16bit @ kmaps_msw @ kmaps_32bit)"
  using tables_000_agree kmaps_16bit_agree kmaps_msw_agree kmaps_32bit_agree by simp

end
