(* ===== verification/PBox_Instr.thy ===== *)
theory PBox_Instr
  imports PBox_Compute
begin

section \<open>The instructions of the P-box\<close>

text \<open>
  What \<open>fn_compute\<close> (PBox_Compute) returns, instruction by instruction. The multiplications are
  compared with the Python functions that the unit's own test bench compares them with
  (\<open>src/pbox/testing/psimd_test_fns.py\<close>); the multiply-and-accumulate instructions are the
  table of \<open>src/pbox/pbox.defines\<close>, each with the arithmetic its name stands for.
\<close>

subsection \<open>The test bench's reference functions\<close>

text \<open>
  Python integers are \<open>int\<close>; the binary strings that the functions return and concatenate are
  the numbers they denote.
\<close>

definition py_signed :: "nat \<Rightarrow> bool \<Rightarrow> int \<Rightarrow> int" where
  "py_signed n isSigned a = (if isSigned then if a < 2 ^ (n - 1) then a else a - 2 ^ n else a)"

definition ref_mul8 :: "int \<Rightarrow> int \<Rightarrow> bool \<Rightarrow> bool \<Rightarrow> int \<times> bool" where
  "ref_mul8 a b isSigned isSaturate =
     (let a = py_signed 8 isSigned (a AND 0xFF);
          b = py_signed 8 isSigned (b AND 0xFF);
          result = a * b
      in if isSaturate then
           let (result, ov) =
             (if result \<ge> 2 ^ 15 then (2 ^ 15 - 1, True)
              else if result < - (2 ^ 15) then (- (2 ^ 15), True) else (result, False))
           in (drop_bit 7 result AND 0xFF, ov)
         else (result AND 0xFFFF, False))"

definition ref_mul16 :: "int \<Rightarrow> int \<Rightarrow> bool \<Rightarrow> bool \<Rightarrow> int \<times> bool" where
  "ref_mul16 a b isSigned isSaturate =
     (let a = py_signed 16 isSigned (a AND 0xFFFF);
          b = py_signed 16 isSigned (b AND 0xFFFF);
          result = a * b
      in if isSaturate then
           let (result, ov) =
             (if result \<ge> 2 ^ 31 then (2 ^ 31 - 1, True)
              else if result < - (2 ^ 32) then (- (2 ^ 32), True) else (result, False))
           in (drop_bit 15 result AND 0xFFFF, ov)
         else (result AND 0xFFFFFFFF, False))"

text \<open>\<open>a8s\<close>, \<open>a16s\<close>: the lanes of an operand\<close>

definition lanes8 :: "int \<Rightarrow> nat \<Rightarrow> int" where
  "lanes8 a j = drop_bit (8 * j) a AND 0xFF"

definition lanes16 :: "int \<Rightarrow> nat \<Rightarrow> int" where
  "lanes16 a j = drop_bit (16 * j) a AND 0xFFFF"

text \<open>\<open>smul8\<close>, \<open>smulx8\<close>, \<open>umul8\<close>, \<open>umulx8\<close>\<close>

definition ref_mul8_instr :: "bool \<Rightarrow> bool \<Rightarrow> int \<Rightarrow> int \<Rightarrow> u64" where
  "ref_mul8_instr isSigned crossed a b =
     (let res = (\<lambda>i j. word_of_int (fst (ref_mul8 (lanes8 a i) (lanes8 b j) isSigned False)))
      in if crossed then cat16 (res 3 2) (res 2 3) (res 1 0) (res 0 1)
         else cat16 (res 3 3) (res 2 2) (res 1 1) (res 0 0))"

definition mul8_funct7 :: "bool \<Rightarrow> bool \<Rightarrow> u32" where
  "mul8_funct7 isSigned crossed =
     (if isSigned then if crossed then 0b1010101 else 0b1010100
      else if crossed then 0b1011101 else 0b1011100)"

text \<open>\<open>smul16\<close>, \<open>smulx16\<close>; \<open>khm16\<close>, \<open>khmx16\<close>\<close>

definition ref_smul16 :: "bool \<Rightarrow> int \<Rightarrow> int \<Rightarrow> u64" where
  "ref_smul16 crossed a b =
     (let res = (\<lambda>i j. word_of_int (fst (ref_mul16 (lanes16 a i) (lanes16 b j) True False)))
      in if crossed then cat32 (res 1 0) (res 0 1) else cat32 (res 1 1) (res 0 0))"

definition ref_khm16 :: "bool \<Rightarrow> int \<Rightarrow> int \<Rightarrow> u64" where
  "ref_khm16 crossed a b =
     (let res = (\<lambda>i j. word_of_int (fst (ref_mul16 (lanes16 a i) (lanes16 b j) True True)))
      in if crossed then cat16 (res 3 2) (res 2 3) (res 1 0) (res 0 1)
         else cat16 (res 3 3) (res 2 2) (res 1 1) (res 0 0))"

definition smul16_funct7 :: "bool \<Rightarrow> u32" where
  "smul16_funct7 crossed = (if crossed then 0b1010001 else 0b1010000)"

definition khm16_funct7 :: "bool \<Rightarrow> u32" where
  "khm16_funct7 crossed = (if crossed then 0b1001011 else 0b1000011)"

lemma masks: "(0xFF :: int) = mask 8" "(0xFFFF :: int) = mask 16" "(0xFFFFFFFF :: int) = mask 32"
  by (simp_all add: mask_eq_exp_minus_1)

lemma lanes_eq:
  "lanes8 (uint w) j = uint (byte_of w j)" "lanes16 (uint w) j = uint (half_of w j)"
  unfolding lanes8_def lanes16_def byte_of_def half_of_def masks
  using bit_imp_le_length [of w]
  by (auto intro!: bit_eqI simp: bit_and_iff bit_mask_iff bit_drop_bit_eq bit_uint_iff bit_ucast_iff)

lemma py_signed_eq:
  "py_signed LENGTH('n) isSigned (uint w AND mask LENGTH('n)) = (if isSigned then sint w else uint w)" for w :: "'n::len word"
proof -
  have u: "uint w AND mask LENGTH('n) = uint w"
    unfolding take_bit_eq_mask [symmetric] using uint_bounded [of w] by (simp add: take_bit_eq_mod)
  define N :: int where "N = 2 ^ (LENGTH('n) - 1)"
  have "0 < N" by (simp add: N_def)
  have N: "2 ^ LENGTH('n) = 2 * N" by (simp add: N_def power_Suc [symmetric] del: power_Suc)
  have b: "0 \<le> uint w" "uint w < 2 * N" using uint_bounded [of w] by (simp_all add: N)
  have s: "sint w = (uint w + N) mod (2 * N) - N"
    unfolding sint_uint signed_take_bit_eq_take_bit_shift take_bit_eq_mod by (simp add: N_def power_Suc [symmetric] del: power_Suc)
  have "(uint w + N) mod (2 * N) = uint w + N" if "uint w < N"
    using that b \<open>0 < N\<close> by (intro mod_pos_pos_trivial) simp_all
  moreover have "(uint w + N) mod (2 * N) = uint w - N" if "\<not> uint w < N"
    using mod_add_self2 [of "uint w - N" "2 * N"] that b by (simp add: ac_simps)
  ultimately show ?thesis unfolding py_signed_def u N s N_def [symmetric] by auto
qed

lemma ref_mul8_value:
  "fst (ref_mul8 (uint a) (uint b) isSigned False) =
    take_bit 16 (if isSigned then sint a * sint b else uint a * uint b)" for a b :: byte
  using py_signed_eq [of isSigned a] py_signed_eq [of isSigned b]
  by (simp add: ref_mul8_def Let_def take_bit_eq_mask masks)

lemma mul8_cat: "mul8 f7 rv1 rv2 = cat16 (half_of (mul8 f7 rv1 rv2) 3) (half_of (mul8 f7 rv1 rv2) 2)
    (half_of (mul8 f7 rv1 rv2) 1) (half_of (mul8 f7 rv1 rv2) 0)"
  by (simp add: mul8_def Let_def)

lemma mul8_reference:
  assumes "\<And>k. f7 k = bit (mul8_funct7 isSigned crossed) k"
  shows "mul8 f7 a b = ref_mul8_instr isSigned crossed (uint a) (uint b)"
proof -
  have f: "f7 0 = crossed" "(f7 4 \<and> f7 3) = (\<not> isSigned)"
    unfolding assms mul8_funct7_def by (cases isSigned; cases crossed; simp)+
  show ?thesis
    by (subst mul8_cat) (simp add: mul8_half f ref_mul8_instr_def Let_def lanes_eq ref_mul8_value word_of_take_bit
      swap_pair_def)
qed

lemma ref_mul16_value:
  "fst (ref_mul16 (uint a) (uint b) True False) = take_bit 32 (sint a * sint b)" for a b :: "16 word"
  using py_signed_eq [of True a] py_signed_eq [of True b]
  by (simp add: ref_mul16_def Let_def take_bit_eq_mask masks)

lemma ref_mul16_saturating:
  fixes a b :: "16 word"
  shows "fst (ref_mul16 (uint a) (uint b) True True) = take_bit 16 (sint a * sint b div 2 ^ 15)"
  using py_signed_eq [of True a] py_signed_eq [of True b] product_bounds [of a b]
  by (simp add: ref_mul16_def Let_def take_bit_eq_mask masks drop_bit_eq_div)

lemma funct7_bits: "drop_bit 25 (instr inp) = c \<Longrightarrow> funct7 inp k = bit c k"
  by (auto simp: funct7_def bit_drop_bit_eq)

lemma mul8_instructions:
  assumes "funct3 inp = 0" and c: "drop_bit 25 (instr inp) = mul8_funct7 isSigned crossed"
  shows "fn_compute upper_range undefined_data inp =
    \<lparr>valid = True, data = ref_mul8_instr isSigned crossed (uint (rs1 inp)) (uint (rs2 inp))\<rparr>"
proof -
  have f: "funct7 inp = bit (mul8_funct7 isSigned crossed)" by (rule ext) (rule funct7_bits [OF c])
  have "is8BitMul (flags_of inp)"
    unfolding f assms(1) by (cases isSigned; cases crossed; simp add: decode_simps mul8_funct7_def)
  then show ?thesis by (simp add: dispatch_mul8 f mul8_reference)
qed

lemma signed_product: "(usMult4 a b True False :: u32) = word_of_int (sint a * sint b)" for a b :: "16 word"
  using arg_cong [OF sint_usMult4 [of a b], of "word_of_int :: int \<Rightarrow> u32"] by (simp only: of_int_sint scast_id)

lemma signed_product_high:
  "(ucast (drop_bit 15 (usMult4 a b True False :: u32)) :: 16 word) = word_of_int (sint a * sint b div 2 ^ 15)"
  for a b :: "16 word"
  unfolding signed_product drop_bit_eq_div [symmetric]
  by (rule bit_word_eqI) (simp add: bit_ucast_iff bit_drop_bit_eq bit_of_int_iff del: of_int_mult)

lemma smul16_reference:
  assumes "funct3 inp = 0" and c: "drop_bit 25 (instr inp) = smul16_funct7 crossed"
  shows "fn_compute upper_range undefined_data inp =
    \<lparr>valid = True, data = ref_smul16 crossed (uint (rs1 inp)) (uint (rs2 inp))\<rparr>"
proof -
  have f: "funct7 inp = bit (smul16_funct7 crossed)" by (rule ext) (rule funct7_bits [OF c])
  have fl: "isMul16 (flags_of inp)"
    unfolding f assms(1) by (cases crossed; simp add: decode_simps smul16_funct7_def)
  have b: "bit (smul16_funct7 crossed) 0 = crossed" "bit (smul16_funct7 crossed) 4" "\<not> bit (smul16_funct7 crossed) 3"
    by (cases crossed; simp add: smul16_funct7_def)+
  show ?thesis
    unfolding dispatch_mul16 [OF disjI1 [OF fl]] mul16_def mul16_operands_def mul16_isSMUL_def
    using fl by (simp add: f b Let_def ref_smul16_def lanes_eq ref_mul16_value word_of_take_bit signed_product swap_pair_def)
qed

lemma khm16_reference:
  assumes "funct3 inp = 0" and c: "drop_bit 25 (instr inp) = khm16_funct7 crossed"
  shows "fn_compute upper_range undefined_data inp =
    \<lparr>valid = True, data = ref_khm16 crossed (uint (rs1 inp)) (uint (rs2 inp))\<rparr>"
proof -
  have f: "funct7 inp = bit (khm16_funct7 crossed)" by (rule ext) (rule funct7_bits [OF c])
  have fl: "isMul16 (flags_of inp)"
    unfolding f assms(1) by (cases crossed; simp add: decode_simps khm16_funct7_def)
  have b: "bit (khm16_funct7 crossed) 3 = crossed" "\<not> bit (khm16_funct7 crossed) 4"
    by (cases crossed; simp add: khm16_funct7_def)+
  show ?thesis
    unfolding dispatch_mul16 [OF disjI1 [OF fl]] mul16_def mul16_operands_def mul16_isSMUL_def
    using fl by (simp add: f b Let_def ref_khm16_def lanes_eq ref_mul16_saturating word_of_take_bit signed_product_high swap_pair_def)
qed

text \<open>The functions of the test bench that the unit implements, with their \<open>funct7\<close>.\<close>

datatype test_fn = smul8 | smulx8 | umul8 | umulx8 | smul16 | smulx16 | khm16 | khmx16

primrec test_funct7 :: "test_fn \<Rightarrow> u32" where
  "test_funct7 smul8 = mul8_funct7 True False" | "test_funct7 smulx8 = mul8_funct7 True True"
| "test_funct7 umul8 = mul8_funct7 False False" | "test_funct7 umulx8 = mul8_funct7 False True"
| "test_funct7 smul16 = smul16_funct7 False" | "test_funct7 smulx16 = smul16_funct7 True"
| "test_funct7 khm16 = khm16_funct7 False" | "test_funct7 khmx16 = khm16_funct7 True"

primrec test_result :: "test_fn \<Rightarrow> int \<Rightarrow> int \<Rightarrow> u64" where
  "test_result smul8 = ref_mul8_instr True False" | "test_result smulx8 = ref_mul8_instr True True"
| "test_result umul8 = ref_mul8_instr False False" | "test_result umulx8 = ref_mul8_instr False True"
| "test_result smul16 = ref_smul16 False" | "test_result smulx16 = ref_smul16 True"
| "test_result khm16 = ref_khm16 False" | "test_result khmx16 = ref_khm16 True"

text \<open>
  C8 (the test bench's functions). For SMUL8, SMULX8, UMUL8, UMULX8, SMUL16, SMULX16, KHM16 and
  KHMX16 the decoding equations of fn_compute select the right unit, and its answer is valid and
  is what the test bench's reference function returns, for every pair of operands. Neither side
  saturates the Q15 product of -1 and -1: the reference compares with 2 to the 31 and the unit
  does not compare at all.
\<close>

theorem fn_compute_matches_test_bench:
  assumes "funct3 inp = 0" and "drop_bit 25 (instr inp) = test_funct7 f"
  shows "fn_compute upper_range undefined_data inp =
    \<lparr>valid = True, data = test_result f (uint (rs1 inp)) (uint (rs2 inp))\<rparr>"
  using assms by (cases f) (simp_all add: mul8_instructions smul16_reference khm16_reference)

text \<open>A value for the parameter \<open>upper_range\<close> in concrete runs.\<close>

abbreviation no_range :: "u64 \<Rightarrow> 5 word \<Rightarrow> 33 word" where
  "no_range rv sa \<equiv> 0"

subsection \<open>Multiplication with 32-bit accumulation\<close>

text \<open>\<open>pbox.defines\<close>: the \<open>funct7\<close> of each instruction (\<open>funct3\<close> is 001).\<close>

datatype mula32 =
    SMBB16 | SMBT16 | SMTT16
  | KMABB | KMABT | KMATT
  | KMDA | KMXDA | KMADA | KMAXDA | KMSDA | KMSXDA
  | SMDS | SMDRS | SMXDS
  | KMADS | KMADRS | KMAXDS

primrec mula32_funct7 :: "mula32 \<Rightarrow> u32" where
  "mula32_funct7 SMBB16 = 0b0000100" | "mula32_funct7 SMBT16 = 0b0001100" | "mula32_funct7 SMTT16 = 0b0010100"
| "mula32_funct7 KMABB = 0b0101101" | "mula32_funct7 KMABT = 0b0110101" | "mula32_funct7 KMATT = 0b0111101"
| "mula32_funct7 KMDA = 0b0011100" | "mula32_funct7 KMXDA = 0b0011101"
| "mula32_funct7 KMADA = 0b0100100" | "mula32_funct7 KMAXDA = 0b0100101"
| "mula32_funct7 KMSDA = 0b0100110" | "mula32_funct7 KMSXDA = 0b0100111"
| "mula32_funct7 SMDS = 0b0101100" | "mula32_funct7 SMDRS = 0b0110100" | "mula32_funct7 SMXDS = 0b0111100"
| "mula32_funct7 KMADS = 0b0101110" | "mula32_funct7 KMADRS = 0b0110110" | "mula32_funct7 KMAXDS = 0b0111110"

text \<open>
  The number that a lane of the result stands for: \<open>d\<close> is the old lane of \<open>rd\<close>, \<open>p i j\<close> the product
  of half \<open>i\<close> of the first operand's lane and half \<open>j\<close> of the second's (0 is the bottom, 1 the
  top). The sum of two products and every accumulation saturate.
\<close>

primrec mula32_result :: "mula32 \<Rightarrow> int \<Rightarrow> (nat \<Rightarrow> nat \<Rightarrow> int) \<Rightarrow> int" where
  "mula32_result SMBB16 d p = p 0 0"
| "mula32_result SMBT16 d p = p 0 1"
| "mula32_result SMTT16 d p = p 1 1"
| "mula32_result KMABB d p = sat 32 (d + p 0 0)"
| "mula32_result KMABT d p = sat 32 (d + p 0 1)"
| "mula32_result KMATT d p = sat 32 (d + p 1 1)"
| "mula32_result KMDA d p = sat 32 (p 1 1 + p 0 0)"
| "mula32_result KMXDA d p = sat 32 (p 1 0 + p 0 1)"
| "mula32_result KMADA d p = sat 32 (d + sat 32 (p 1 1 + p 0 0))"
| "mula32_result KMAXDA d p = sat 32 (d + sat 32 (p 1 0 + p 0 1))"
| "mula32_result KMSDA d p = sat 32 (d - sat 32 (p 1 1 + p 0 0))"
| "mula32_result KMSXDA d p = sat 32 (d - sat 32 (p 1 0 + p 0 1))"
| "mula32_result SMDS d p = p 1 1 - p 0 0"
| "mula32_result SMDRS d p = p 0 0 - p 1 1"
| "mula32_result SMXDS d p = p 1 0 - p 0 1"
| "mula32_result KMADS d p = sat 32 (d + (p 1 1 - p 0 0))"
| "mula32_result KMADRS d p = sat 32 (d + (p 0 0 - p 1 1))"
| "mula32_result KMAXDS d p = sat 32 (d + (p 1 0 - p 0 1))"

definition mula32_lane :: "(nat \<Rightarrow> bool) \<Rightarrow> u32 \<Rightarrow> u32 \<Rightarrow> u32 \<Rightarrow> u32" where
  "mula32_lane f7 d m0 m1 =
     (let isAdd = \<not> f7 5 \<and> f7 4 \<and> f7 3 \<or> f7 5 \<and> \<not> f7 4 \<and> \<not> f7 3;
          isSub = f7 5 \<and> f7 3 \<and> \<not> f7 0;
          isiSub = f7 5 \<and> f7 4 \<and> \<not> f7 3 \<and> \<not> f7 0;
          isAccAdd = f7 5 \<and> \<not> f7 4 \<and> \<not> f7 3 \<and> \<not> f7 1 \<or> f7 3 \<and> f7 1 \<or> f7 4 \<and> f7 1 \<or> f7 5 \<and> \<not> f7 1 \<and> f7 0;
          isAccSub = \<not> f7 4 \<and> \<not> f7 3 \<and> f7 1;
          m0 = (if isSub then NOT m0 + 1 else m0);
          m1 = (if isiSub then NOT m1 + 1 else m1);
          r = (if isAdd \<or> isSub \<or> isiSub then snd (qnadd m0 m1) else m0);
          r = (if isAccSub then NOT r + 1 else r)
      in if isAccAdd \<or> isAccSub then snd (qnadd d r) else r)"

lemma if_cat32: "(if P then cat32 a b else cat32 c d) = cat32 (if P then a else c) (if P then b else d)"
  by simp

lemma acc32_lanes: "mul16_acc32 f7 rdv mul =
    cat32 (mula32_lane f7 (word_of rdv 1) (mul 2) (mul 3)) (mula32_lane f7 (word_of rdv 0) (mul 0) (mul 1))"
  unfolding mul16_acc32_def mula32_lane_def mul16_signals Let_def by (simp only: if_cat32)

abbreviation smult :: "16 word \<Rightarrow> 16 word \<Rightarrow> u32" where
  "smult a b \<equiv> usMult4 a b True False"

lemma smult_minus: "sint (NOT (smult a b) + 1) = - (sint a * sint b)"
  using product_bounds [of a b] sint_minus [of "smult a b"] by (simp add: sint_usMult4)

lemma smult_sum_minus:
  "sint (NOT (snd (qnadd (smult a b) (smult c d))) + 1) = - sat 32 (sint a * sint b + sint c * sint d)"
proof -
  have "sint (snd (qnadd (smult a b) (smult c d))) = sat 32 (sint a * sint b + sint c * sint d)"
    by (simp add: sint_qnadd sint_usMult4)
  moreover from this have "sint (snd (qnadd (smult a b) (smult c d))) \<noteq> - (2 ^ (LENGTH(32) - 1))"
    using product_bounds [of a b] product_bounds [of c d] by (auto simp: sat_def min_def)
  ultimately show ?thesis using sint_minus [of "snd (qnadd (smult a b) (smult c d))"] by simp
qed

lemma sat_difference: "sat 32 (sint a * sint b - sint c * sint d) = sint a * sint b - sint c * sint d"
  for a b c d :: "16 word"
  using product_bounds [of a b] product_bounds [of c d] by (simp add: sat_def)

lemma mula32_flags:
  "is16bitMulAcc (decode 1 (bit (mula32_funct7 op)))" "isMul16A32 (decode 1 (bit (mula32_funct7 op)))"
  "\<not> isMul16 (decode 1 (bit (mula32_funct7 op)))" "\<not> isMul16A64 (decode 1 (bit (mula32_funct7 op)))"
  by (cases op; simp add: decode_simps)+

lemma mula32_operands:
  "mul16_operands (decode 1 (bit (mula32_funct7 op))) (bit (mula32_funct7 op)) a b =
    (if op \<in> {SMTT16, KMATT} then half_of a \<circ> swap_pair else half_of a,
     if op \<in> {SMTT16, KMATT, SMBT16, KMABT, KMXDA, KMAXDA, KMSXDA, SMXDS, KMAXDS}
     then half_of b \<circ> swap_pair else half_of b)"
  by (simp only: mul16_operands_def mul16_signals Let_def mula32_flags) (cases op; simp)

lemma mula32_lane_cases:
  "mula32_lane (bit (mula32_funct7 op)) d x y =
    (case op of SMBB16 \<Rightarrow> x | SMBT16 \<Rightarrow> x | SMTT16 \<Rightarrow> x
     | KMABB \<Rightarrow> snd (qnadd d x) | KMABT \<Rightarrow> snd (qnadd d x) | KMATT \<Rightarrow> snd (qnadd d x)
     | KMDA \<Rightarrow> snd (qnadd x y) | KMXDA \<Rightarrow> snd (qnadd x y)
     | KMADA \<Rightarrow> snd (qnadd d (snd (qnadd x y))) | KMAXDA \<Rightarrow> snd (qnadd d (snd (qnadd x y)))
     | KMSDA \<Rightarrow> snd (qnadd d (NOT (snd (qnadd x y)) + 1)) | KMSXDA \<Rightarrow> snd (qnadd d (NOT (snd (qnadd x y)) + 1))
     | SMDS \<Rightarrow> snd (qnadd (NOT x + 1) y) | SMDRS \<Rightarrow> snd (qnadd x (NOT y + 1))
     | SMXDS \<Rightarrow> snd (qnadd (NOT x + 1) y)
     | KMADS \<Rightarrow> snd (qnadd d (snd (qnadd (NOT x + 1) y)))
     | KMADRS \<Rightarrow> snd (qnadd d (snd (qnadd x (NOT y + 1))))
     | KMAXDS \<Rightarrow> snd (qnadd d (snd (qnadd (NOT x + 1) y))))"
  by (cases op; simp add: mula32_lane_def Let_def)

lemma sint_qnadd32: "sint (snd (qnadd a b)) = sat 32 (sint a + sint b)" for a b :: u32
proof -
  have "LENGTH(32) = 32" by simp
  then show ?thesis using sint_qnadd [of a b] by (simp only:)
qed

definition lane_product :: "u64 \<Rightarrow> u64 \<Rightarrow> nat \<Rightarrow> nat \<Rightarrow> nat \<Rightarrow> int" where
  "lane_product a b k i j = sint (half_of a (2 * k + i)) * sint (half_of b (2 * k + j))"

lemma mula32_lane_value:
  assumes "(op1, op2) = mul16_operands (decode 1 (bit (mula32_funct7 op))) (bit (mula32_funct7 op)) a b"
    and "k = 0 \<or> k = 1"
  shows "sint (mula32_lane (bit (mula32_funct7 op)) d (smult (op1 (2 * k)) (op2 (2 * k)))
      (smult (op1 (2 * k + 1)) (op2 (2 * k + 1)))) = mula32_result op (sint d) (lane_product a b k)"
proof -
  have "swap_pair (2 * k) = 2 * k + 1" "swap_pair (2 * k + 1) = 2 * k" using assms(2) by (auto simp: swap_pair_def)
  then show ?thesis using assms(1) unfolding mula32_operands mula32_lane_cases
    by (cases op; simp add: sint_qnadd32 sint_usMult4 smult_minus smult_sum_minus sat_difference lane_product_def;
      simp add: add.commute)
qed

text \<open>
  C7 (multiply with 32-bit accumulation). For each of the 18 instructions of the table in
  pbox.defines, fn_compute answers with a valid result, and each of its two lanes is the number
  that the instruction's name stands for, with saturation of the sums.
\<close>

theorem fn_compute_mula32:
  assumes "funct3 inp = 1" and c: "drop_bit 25 (instr inp) = mula32_funct7 op" and k: "k = 0 \<or> k = 1"
  shows "valid (fn_compute upper_range undefined_data inp) \<and>
    sint (word_of (data (fn_compute upper_range undefined_data inp)) k) =
      mula32_result op (sint (word_of (rd inp) k)) (lane_product (rs1 inp) (rs2 inp) k)"
proof -
  let ?f7 = "bit (mula32_funct7 op)"
  have f: "funct7 inp = ?f7" by (rule ext) (rule funct7_bits [OF c])
  obtain op1 op2 where ops: "(op1, op2) = mul16_operands (decode 1 ?f7) ?f7 (rs1 inp) (rs2 inp)"
    by (metis surj_pair)
  have fl: "flags_of inp = decode 1 ?f7" by (simp only: f assms(1))
  have "fn_compute upper_range undefined_data inp = mul16 (decode 1 ?f7) ?f7 (rs1 inp) (rs2 inp) (rd inp)"
    using dispatch_mul16 [of inp upper_range undefined_data] unfolding f assms(1) by (simp only: mula32_flags simp_thms)
  then have out: "fn_compute upper_range undefined_data inp =
      \<lparr>valid = True, data = mul16_acc32 ?f7 (rd inp) (\<lambda>k. smult (op1 k) (op2 k))\<rparr>"
    by (simp only: mul16_def ops [symmetric] prod.case Let_def mula32_flags mul16_isSMUL_def if_True if_False simp_thms)
  show ?thesis
    using k mula32_lane_value [OF ops k, of "word_of (rd inp) k"] by (auto simp: out acc32_lanes)
qed

theorem fn_compute_mula32_witness:
  "sint (word_of (data (fn_compute no_range 0 \<lparr>instr = 0x5A001077,
     rs1 = 0x00000002FFFFFFFD, rs2 = 0x0000000300000007, rd = 0x000000017FFFFFFF\<rparr>)) 0) = 0x7FFFFFFF - 21"
proof -
  let ?i = "\<lparr>instr = 0x5A001077, rs1 = 0x00000002FFFFFFFD, rs2 = 0x0000000300000007, rd = 0x000000017FFFFFFF\<rparr>"
  have "funct3 ?i = 1" "drop_bit 25 (instr ?i) = mula32_funct7 KMABB" by (simp_all add: funct3_def)
  then show ?thesis using fn_compute_mula32 [of ?i KMABB 0 no_range 0]
    by (simp add: lane_product_def half_of_def word_of_def sat_def)
qed

subsection \<open>Multiplication with 64-bit accumulation\<close>

text \<open>
  The instructions of the P extension that select \<open>isMul16A64\<close> (in \<open>decoder_kmaps.ipynb\<close> they
  are listed by \<open>funct7\<close>).
\<close>

datatype mula64 =
    SMALBB | SMALBT | SMALTT | SMAL
  | SMALDA | SMALXDA | SMALDS | SMALDRS | SMALXDS
  | SMSLDA | SMSLXDA

primrec mula64_funct7 :: "mula64 \<Rightarrow> u32" where
  "mula64_funct7 SMALBB = 68" | "mula64_funct7 SMALBT = 76" | "mula64_funct7 SMALTT = 84"
| "mula64_funct7 SMAL = 47" | "mula64_funct7 SMALDA = 70" | "mula64_funct7 SMALXDA = 78"
| "mula64_funct7 SMALDS = 69" | "mula64_funct7 SMALDRS = 77" | "mula64_funct7 SMALXDS = 85"
| "mula64_funct7 SMSLDA = 86" | "mula64_funct7 SMSLXDA = 94"

text \<open>
  What is added to \<open>rd\<close>: \<open>p i j\<close> is the product of half \<open>i\<close> of the first operand and half \<open>j\<close>
  of the second, \<open>q i j\<close> of two halves of the second. SMALDA, SMALXDA, SMALDRS and SMAL get the
  products and signs that their names stand for. The first three add the two straight products of
  the low word, whichever halves they ask for, and ignore the high word; SMALDS adds where it
  should subtract; SMALXDS has its signs reversed; the last two subtract the odd products only.
\<close>

primrec mula64_sum :: "mula64 \<Rightarrow> (nat \<Rightarrow> nat \<Rightarrow> int) \<Rightarrow> (nat \<Rightarrow> nat \<Rightarrow> int) \<Rightarrow> int" where
  "mula64_sum SMALBB p q = p 0 0 + p 1 1"
| "mula64_sum SMALBT p q = p 0 0 + p 1 1"
| "mula64_sum SMALTT p q = p 0 0 + p 1 1"
| "mula64_sum SMAL p q = q 3 2 + q 1 0"
| "mula64_sum SMALDA p q = p 0 0 + p 1 1 + p 2 2 + p 3 3"
| "mula64_sum SMALXDA p q = p 0 1 + p 1 0 + p 2 3 + p 3 2"
| "mula64_sum SMALDS p q = p 0 0 + p 1 1 + p 2 2 + p 3 3"
| "mula64_sum SMALDRS p q = p 0 0 - p 1 1 + p 2 2 - p 3 3"
| "mula64_sum SMALXDS p q = p 0 1 - p 1 0 + p 2 3 - p 3 2"
| "mula64_sum SMSLDA p q = p 0 0 - p 1 1 + p 2 2 - p 3 3"
| "mula64_sum SMSLXDA p q = p 0 1 - p 1 0 + p 2 3 - p 3 2"

definition half_product :: "u64 \<Rightarrow> u64 \<Rightarrow> nat \<Rightarrow> nat \<Rightarrow> int" where
  "half_product a b i j = sint (half_of a i) * sint (half_of b j)"

lemma scast_product: "(scast (smult a b) :: u64) = word_of_int (sint a * sint b)"
  using arg_cong [OF sint_usMult4 [of a b], of "word_of_int :: int \<Rightarrow> u64"] by (simp only: of_int_sint)

lemma scast_minus_product: "(scast (NOT (smult a b) + 1) :: u64) = word_of_int (- (sint a * sint b))"
  using arg_cong [OF smult_minus [of a b], of "word_of_int :: int \<Rightarrow> u64"] by (simp only: of_int_sint)

lemma double_negation: "NOT (NOT (x :: u32) + 1) + 1 = x"
  by (simp add: minus_eq_not_plus_1 [symmetric])

lemma swap_pair_values: "swap_pair 0 = Suc 0" "swap_pair (Suc 0) = 0" "swap_pair 2 = 3" "swap_pair 3 = 2"
  by (simp_all add: swap_pair_def)

lemma mula64_flags:
  "is16bitMulAcc (decode 1 (bit (mula64_funct7 op)))" "\<not> isMul16A32 (decode 1 (bit (mula64_funct7 op)))"
  "\<not> isMul16 (decode 1 (bit (mula64_funct7 op)))" "isMul16A64 (decode 1 (bit (mula64_funct7 op)))"
  by (cases op; simp add: decode_simps)+

lemma mula64_operands:
  "mul16_operands (decode 1 (bit (mula64_funct7 op))) (bit (mula64_funct7 op)) a b =
    (if op = SMAL then ((half_of a)(0 := half_of b 3, 1 := half_of b 1), (half_of b)(0 := half_of b 2, 1 := half_of b 0))
     else (if op \<in> {SMALTT, SMALDS} then half_of a \<circ> swap_pair else half_of a,
       if op \<in> {SMALTT, SMALDS, SMALXDA, SMALXDS, SMSLXDA} then half_of b \<circ> swap_pair else half_of b))"
  by (simp only: mul16_operands_def mul16_signals Let_def mula64_flags) (cases op; simp)

lemma mula64_accumulation:
  "mul16_acc64 (bit (mula64_funct7 op)) d m =
    (if op \<in> {SMALBB, SMALBT, SMALTT, SMAL} then d + scast (m 0) + scast (m 1)
     else if op \<in> {SMALDA, SMALXDA, SMALDS} then d + scast (m 0) + scast (m 1) + scast (m 2) + scast (m 3)
     else d + scast (m 0) + scast (NOT (m 1) + 1) + scast (m 2) + scast (NOT (m 3) + 1))"
  by (simp only: mul16_acc64_def mul16_signals Let_def) (cases op; simp add: double_negation)

text \<open>
  C35 (multiply with 64-bit accumulation). For each of the 11 instructions the decoding equations
  select the 64-bit accumulation, and the valid answer is \<open>rd\<close> plus the exact sum of two or four
  signed products, wrapped around once at the end. The table says which products and signs.
\<close>

theorem fn_compute_mula64:
  assumes "funct3 inp = 1" and c: "drop_bit 25 (instr inp) = mula64_funct7 op"
  shows "fn_compute upper_range undefined_data inp = \<lparr>valid = True, data = rd inp +
    word_of_int (mula64_sum op (half_product (rs1 inp) (rs2 inp)) (half_product (rs2 inp) (rs2 inp)))\<rparr>"
proof -
  let ?f7 = "bit (mula64_funct7 op)"
  have f: "funct7 inp = ?f7" by (rule ext) (rule funct7_bits [OF c])
  obtain op1 op2 where ops: "mul16_operands (decode 1 ?f7) ?f7 (rs1 inp) (rs2 inp) = (op1, op2)"
    by (metis surj_pair)
  have "fn_compute upper_range undefined_data inp = mul16 (decode 1 ?f7) ?f7 (rs1 inp) (rs2 inp) (rd inp)"
    using dispatch_mul16 [of inp upper_range undefined_data] unfolding f assms(1) by (simp only: mula64_flags simp_thms)
  then have out: "fn_compute upper_range undefined_data inp =
      \<lparr>valid = True, data = mul16_acc64 ?f7 (rd inp) (\<lambda>k. smult (op1 k) (op2 k))\<rparr>"
    by (simp only: mul16_def ops prod.case Let_def mula64_flags mul16_isSMUL_def if_True if_False simp_thms)
  show ?thesis
    using ops unfolding out mula64_operands mula64_accumulation scast_product scast_minus_product
    by (cases op; auto simp: half_product_def swap_pair_values algebra_simps)
qed

theorem fn_compute_mula64_witness:
  "fn_compute no_range 0 \<lparr>instr = 0xAC001077, rs1 = 0x0004000300020001, rs2 = 0x0008000700060005, rd = 100\<rparr> =
     \<lparr>valid = True, data = 100 + word_of_int (5 - 12 + 21 - 32)\<rparr>"
proof -
  let ?i = "\<lparr>instr = 0xAC001077, rs1 = 0x0004000300020001, rs2 = 0x0008000700060005, rd = 100\<rparr>"
  have "funct3 ?i = 1" "drop_bit 25 (instr ?i) = mula64_funct7 SMSLDA" by (simp_all add: funct3_def)
  then show ?thesis using fn_compute_mula64 [of ?i SMSLDA no_range 0]
    by (simp add: half_product_def half_of_def)
qed

subsection \<open>32-bit additions and subtractions\<close>

text \<open>
  On lane \<open>k\<close> the exact result of the instruction is \<open>lane_value\<close>. The plain form keeps its low 32
  bits, the halving forms divide it by two without an overflow. The saturating forms clip it to
  the bounds that the source writes: they are not the bounds of the lane, since \<open>2^31 - 1\<close> is
  \<open>2 XOR 30\<close>, \<open>-2^31\<close> is \<open>-2 XOR 31\<close> and \<open>2^32 - 1\<close> is \<open>2 XOR 31\<close>.
\<close>

text \<open>
  C36 (32-bit additions and subtractions). Each lane of the answer is the exact sum or difference,
  halved, wrapped or clipped as \<open>f7[5:3]\<close> asks; halving never overflows. The clipping bounds
  are those the source writes, 28, -31 and 29.
\<close>

theorem fn_compute_addsub32:
  assumes "is32BitAddSub (flags_of inp)" and "k = 0 \<or> k = 1"
  defines "f7 \<equiv> funct7 inp"
  defines "v \<equiv> lane_value f7 (if f7 4 \<or> f7 5 then uint else sint) (rs1 inp) (rs2 inp) k"
  shows "valid (fn_compute upper_range undefined_data inp) \<and> word_of (data (fn_compute upper_range undefined_data inp)) k =
    word_of_int
      (if f7 5 \<and> \<not> f7 4 then v
       else if \<not> f7 3 then v div 2
       else if f7 4 then min (2 XOR 31) (v mod 2 ^ 33) else max (- 2 XOR 31) (min (2 XOR 30) v))"
  using assms(2) unfolding dispatch_addsub [OF assms(1)] addsub32_lanes v_def f7_def [symmetric]
  by (cases "f7 4"; cases "f7 5"; cases "f7 3"; auto simp: Let_def)

subsection \<open>32-bit multiplications\<close>

text \<open>
  Of the multiplications of whole words only the direct ones (SMBB32, SMBT32, SMTT32) deliver
  a result; every other instruction of the unit is answered as an invalid one.
\<close>

lemma sint_usMult4_32: "sint (usMult4 a b True False :: u64) = sint a * sint b" for a b :: u32
proof -
  have len: "LENGTH(64) = LENGTH(32) + LENGTH(32)" by simp
  show ?thesis
    by (simp only: usMult4_signed usMult_value [OF len disjI1 [OF refl]] if_True sint_product [OF len])
qed

lemma mul32_direct:
  assumes "is32BitMulAcc fl" and "f3 = 2" and "fl = decode f3 f7"
  shows "mul32 fl f7 a b d = (if \<not> f7 5 \<and> (\<not> f7 4 \<or> \<not> f7 3)
    then \<lparr>valid = True, data = usMult4 (word_of a (if f7 4 \<and> \<not> f7 0 then 1 else 0)) (word_of b 1) True False\<rparr>
    else \<lparr>valid = False, data = data (mul32 fl f7 a b d)\<rparr>)"
proof -
  have "\<not> isMSW32Mul fl" using decode_other(5) [of 2 f7] by (simp add: assms)
  then show ?thesis
    using assms(1) by (cases "f7 5"; cases "f7 4"; cases "f7 3"; cases "f7 0")
      (simp_all add: mul32_def mul32_products_def mul32_signals Let_def split: prod.splits)
qed

text \<open>
  C37 (32-bit multiplications). The answer is valid exactly for the direct instructions, and then
  it is the full signed product of the selected words; all other instructions of the unit
  (accumulating, 32x32 with upper half, word by half) are rejected as invalid.
\<close>

theorem fn_compute_mul32:
  assumes "is32BitMulAcc (flags_of inp) \<or>
    \<not> is16bitMulAcc (flags_of inp) \<and> (isMul32A64 (flags_of inp) \<or> isMSW32Mul (flags_of inp))"
  defines "f7 \<equiv> funct7 inp"
  shows "if is32BitMulAcc (flags_of inp) \<and> \<not> f7 5 \<and> (\<not> f7 4 \<or> \<not> f7 3)
    then valid (fn_compute upper_range undefined_data inp) \<and> sint (data (fn_compute upper_range undefined_data inp)) =
      sint (word_of (rs1 inp) (if f7 4 \<and> \<not> f7 0 then 1 else 0)) * sint (word_of (rs2 inp) 1)
    else \<not> valid (fn_compute upper_range undefined_data inp)"
proof (cases "is32BitMulAcc (flags_of inp)")
  case True
  then have "funct3 inp = 2" by (rule decode_kind)
  note direct = mul32_direct [OF True this refl, of "rs1 inp" "rs2 inp" "rd inp"]
  let ?c = "\<not> funct7 inp 5 \<and> (\<not> funct7 inp 4 \<or> \<not> funct7 inp 3)"
  show ?thesis
  proof (cases ?c)
    case d: True
    show ?thesis
      unfolding dispatch_mul32 [OF assms(1)] f7_def direct [unfolded if_P [OF d]]
      using True d by (simp add: sint_usMult4_32)
  next
    case d: False
    have "\<not> valid (mul32 (flags_of inp) (funct7 inp) (rs1 inp) (rs2 inp) (rd inp))"
      using arg_cong [OF direct [unfolded if_not_P [OF d]], of valid] by simp
    then show ?thesis unfolding dispatch_mul32 [OF assms(1)] f7_def using d by simp
  qed
next
  case False
  then show ?thesis
    unfolding dispatch_mul32 [OF assms(1)] by (simp add: mul32_def split: prod.split)
qed

subsection \<open>32-bit shifts\<close>

text \<open>
  The left shift works. A right shift by a nonzero amount, arithmetic or logical, answers 0 in
  the lower lane whatever it shifts, and says that the answer is valid.
\<close>

definition shift_amount :: "PBoxIn \<Rightarrow> 5 word" where
  "shift_amount inp = (if funct7 inp 4 = funct7 inp 3 then ucast (drop_bit 20 (instr inp)) else ucast (rs2 inp))"

lemma dispatch_shift:
  assumes "is32BitShift (flags_of inp)" and "\<not> is32BitMulAcc (flags_of inp)"
  shows "fn_compute r u inp = shift32 r (funct7 inp) (instr inp) (rs1 inp) (rs2 inp)"
proof -
  have f3: "funct3 inp = 2" using assms(1) by (simp add: decode_simps split: if_splits)
  have "\<not> is32BitAddSub (flags_of inp)"
    using assms(1) unfolding f3 by (cases "funct7 inp 5"; cases "funct7 inp 6"; auto simp: decode_simps)
  then show ?thesis
    using assms decode_other(1,2) [of "funct3 inp"] decode_other(3-5) [of "funct3 inp"] f3
    by (simp add: fn_compute_eq)
qed

text \<open>
  C38 (32-bit shifts). A left shift with \<open>f7[3] = 1\<close> shifts both lanes by the 5-bit amount. A
  right shift by 0 returns its operand, and by any other amount a lower lane of 0, as a valid
  answer.
\<close>

theorem fn_compute_shift32:
  assumes "is32BitShift (flags_of inp)" and "\<not> is32BitMulAcc (flags_of inp)"
  defines "f7 \<equiv> funct7 inp" and "n \<equiv> unat (shift_amount inp)"
  shows "if f7 1 \<and> \<not> f7 0
    then valid (fn_compute upper_range undefined_data inp) = f7 3 \<and>
      (f7 3 \<longrightarrow> data (fn_compute upper_range undefined_data inp) =
        cat32 (word_of (rs1 inp) 1 * 2 ^ n) (word_of (rs1 inp) 0 * 2 ^ n))
    else valid (fn_compute upper_range undefined_data inp) \<and>
      (if n = 0 then data (fn_compute upper_range undefined_data inp) = rs1 inp
       else word_of (data (fn_compute upper_range undefined_data inp)) 0 = 0)"
  unfolding dispatch_shift [OF assms(1,2)] shift32_def shift_amount_def f7_def n_def Let_def
  by (cases "funct7 inp 1"; cases "funct7 inp 0"; cases "funct7 inp 3")
    (auto simp: push_bit_eq_mult unat_eq_zero)

theorem fn_compute_shift32_witness:
  "data (fn_compute no_range 0 \<lparr>instr = 0x54402077, rs1 = 0x0000000300000005, rs2 = 4, rd = 0\<rparr>) =
     cat32 (3 * 2 ^ 4) (5 * 2 ^ 4)"
proof -
  have "word_of 0x0000000300000005 0 = 5" "word_of 0x0000000300000005 1 = 3" by (simp_all add: word_of_def)
  then show ?thesis
    using fn_compute_shift32 [of "\<lparr>instr = 0x54402077, rs1 = 0x0000000300000005, rs2 = 4, rd = 0\<rparr>" no_range 0]
    by (simp add: funct3_def funct7_def decode_simps shift_amount_def)
qed

subsection \<open>Concrete runs\<close>


theorem fn_compute_matches_test_bench_witness:
  "fn_compute no_range 0 \<lparr>instr = 0xA2000077, rs1 = 0x0102FF04, rs2 = 0x05060708, rd = 0\<rparr> =
     \<lparr>valid = True, data = ref_smul16 True 0x0102FF04 0x05060708\<rparr>"
  using fn_compute_matches_test_bench [of "\<lparr>instr = 0xA2000077, rs1 = 0x0102FF04, rs2 = 0x05060708, rd = 0\<rparr>" smulx16
      no_range 0]
  by (simp add: funct3_def smul16_funct7_def)

theorem fn_compute_addsub32_witness:
  "word_of (data (fn_compute no_range 0
     \<lparr>instr = 0x20002077, rs1 = 0xFFFFFFFF, rs2 = 0xFFFFFFFD, rd = 0\<rparr>)) 0 = 0xFFFFFFFE \<and>
   word_of (data (fn_compute no_range 0 \<lparr>instr = 0x10002077, rs1 = 100, rs2 = 200, rd = 0\<rparr>)) 0 = 28"
  using fn_compute_addsub32 [of "\<lparr>instr = 0x20002077, rs1 = 0xFFFFFFFF, rs2 = 0xFFFFFFFD, rd = 0\<rparr>" 0 no_range 0]
    fn_compute_addsub32 [of "\<lparr>instr = 0x10002077, rs1 = 100, rs2 = 200, rd = 0\<rparr>" 0 no_range 0]
  by (simp add: funct3_def funct7_def decode_simps lane_value_def word_of_def)

theorem fn_compute_mul32_witness:
  "sint (data (fn_compute no_range 0
     \<lparr>instr = 0x28002077, rs1 = 0xFFFFFFFD00000000, rs2 = 0x0000000700000000, rd = 0\<rparr>)) = - 21"
  using fn_compute_mul32 [of "\<lparr>instr = 0x28002077, rs1 = 0xFFFFFFFD00000000, rs2 = 0x0000000700000000, rd = 0\<rparr>"
      no_range 0]
  by (simp add: funct3_def funct7_def decode_simps word_of_def)

end
