(* ===== verification/MBox_Contract.thy ===== *)
theory MBox_Contract
  imports Prelude Rule_System
begin

section \<open>The contract of an execution unit\<close>

text \<open>
  The multiplier, the divider and the M-box around them offer the same methods: \<open>ma_inputs\<close>
  accepts a request when \<open>mv_ready\<close> allows it, rules fire on their own, and an output can be
  taken when there is one. \<open>serves\<close> is what an environment that respects the guards can see of
  such a unit: the requests it has given and the results it has taken, in order, under any
  interleaving of rules and method calls.
\<close>

text \<open>A request to either unit: \<open>in1\<close>, \<open>in2\<close>, \<open>funct3\<close>, \<open>wordop\<close>.\<close>

type_synonym m_request = "u64 \<times> u64 \<times> 3 word \<times> bool"

inductive serves ::
    "('q \<Rightarrow> bool) \<Rightarrow> ('q \<Rightarrow> 's \<Rightarrow> bool) \<Rightarrow> ('q \<Rightarrow> 's \<Rightarrow> 's) \<Rightarrow> ('s \<Rightarrow> 's \<Rightarrow> bool) \<Rightarrow>
      ('s \<Rightarrow> ('v \<times> 's) option) \<Rightarrow> 's \<Rightarrow> 's \<Rightarrow> 'q list \<Rightarrow> 'v list \<Rightarrow> bool"
  for legal ready put rule out s0 where
  start: "serves legal ready put rule out s0 s0 [] []"
| fire: "serves legal ready put rule out s0 s qs vs \<Longrightarrow> rule s s' \<Longrightarrow> serves legal ready put rule out s0 s' qs vs"
| give: "serves legal ready put rule out s0 s qs vs \<Longrightarrow> legal q \<Longrightarrow> ready q s \<Longrightarrow>
    serves legal ready put rule out s0 (put q s) (qs @ [q]) vs"
| fetch: "serves legal ready put rule out s0 s qs vs \<Longrightarrow> out s = Some (v, s') \<Longrightarrow>
    serves legal ready put rule out s0 s' qs (vs @ [v])"

lemma serves_relpowp:
  "(rule ^^ n) s t \<Longrightarrow> serves legal ready put rule out s0 s qs vs \<Longrightarrow> serves legal ready put rule out s0 t qs vs"
  by (induction n arbitrary: t) (auto intro: serves.fire)

text \<open>
  The contract: \<open>owes s vs\<close> says that a unit in state \<open>s\<close> is well formed and still has to
  deliver exactly \<open>vs\<close>. No rule changes what is owed, a request adds its result at the end, an
  output is the head of the list, and while something is owed and not available some rule can
  fire; \<open>work\<close> bounds the number of firings.
\<close>

locale execution_unit =
  fixes legal :: "'q \<Rightarrow> bool"
    and ready :: "'q \<Rightarrow> 's \<Rightarrow> bool"
    and put :: "'q \<Rightarrow> 's \<Rightarrow> 's"
    and rule :: "'s \<Rightarrow> 's \<Rightarrow> bool"
    and out :: "'s \<Rightarrow> ('v \<times> 's) option"
    and result :: "'q \<Rightarrow> 'v"
    and owes :: "'s \<Rightarrow> 'v list \<Rightarrow> bool"
    and work :: "'s \<Rightarrow> nat"
  assumes rule_owes: "owes s vs \<Longrightarrow> rule s s' \<Longrightarrow> owes s' vs"
    and put_owes: "owes s vs \<Longrightarrow> legal q \<Longrightarrow> ready q s \<Longrightarrow> owes (put q s) (vs @ [result q])"
    and out_owes: "owes s vs \<Longrightarrow> out s = Some (v, s') \<Longrightarrow> \<exists>rest. vs = v # rest \<and> owes s' rest"
    and can_fire: "owes s (v # vs) \<Longrightarrow> out s = None \<Longrightarrow> \<exists>s'. rule s s'"
    and rule_work: "owes s vs \<Longrightarrow> rule s s' \<Longrightarrow> work s' < work s"
    and out_work: "owes s vs \<Longrightarrow> out s = Some (v, s') \<Longrightarrow> work s' \<le> work s"
begin

lemma serves_owes:
  assumes "serves legal ready put rule out s0 s qs vs" and "owes s0 []"
  shows "\<exists>rest. owes s rest \<and> List.map result qs = vs @ rest"
  using assms
proof (induction rule: serves.induct)
  case (fire s qs vs s')
  then show ?case using rule_owes by blast
next
  case (give s qs vs q)
  then obtain rest where "owes s rest" "List.map result qs = vs @ rest" by auto
  then show ?case using put_owes [of s rest q] give.hyps by auto
next
  case (fetch s qs vs v s')
  then obtain rest where "owes s rest" "List.map result qs = vs @ rest" by auto
  then show ?case using out_owes [of s rest v s'] fetch.hyps by auto
qed simp

end

text \<open>For each list of results, the states that owe it form a rule system.\<close>

sublocale execution_unit \<subseteq> owing: rule_system rule "\<lambda>s. owes s vs" "\<lambda>s. out s \<noteq> None \<or> vs = []" work for vs
proof
  fix s
  assume "owes s vs" "\<not> (out s \<noteq> None \<or> vs = [])"
  then show "\<exists>s'. rule s s'" by (metis can_fire list.exhaust)
qed (rule rule_owes rule_work; assumption)+

context execution_unit
begin

lemma firings_bounded: "(rule ^^ n) s t \<Longrightarrow> owes s vs \<Longrightarrow> owes t vs \<and> n + work t \<le> work s"
  by (rule owing.firings)

lemma delivers:
  assumes "owes s (v # vs)"
  shows "\<exists>n t t'. n \<le> work s \<and> (rule ^^ n) s t \<and> out t = Some (v, t') \<and> owes t' vs"
proof -
  obtain n t where t: "n \<le> work s" "(rule ^^ n) s t" "owes t (v # vs)" "out t \<noteq> None"
    using owing.gets_done [OF assms] by auto
  then obtain w t' where "out t = Some (w, t')" by auto
  with t out_owes [OF t(3)] show ?thesis by fastforce
qed

end

end
