(* ===== verification/PBox_Unit.thy ===== *)
theory PBox_Unit
  imports PBox_Instr MBox_Contract
begin

section \<open>The P-box\<close>

text \<open>
  \<open>src/pbox/pbox.bsv\<close>: the module around \<open>fn_compute\<close>. A request waits in \<open>fifo_input\<close>, an
  \<open>mkLFIFOF\<close> with room for one; the rule \<open>rl_compute\<close> takes it out and puts the answer into the
  output port. The port comes from the package \<open>TxRx\<close>, which is not part of the repository; it is
  a FIFO with room for \<open>out_depth\<close> answers. \<open>upper_range\<close> and \<open>undefined_data\<close> are the
  parameters of \<open>fn_compute\<close>.

  The module declares more than it uses: nothing is ever put into \<open>ff_ordering\<close> and the body of
  \<open>rl_capture_output\<close> is commented out, no method writes the wire \<open>wr_flush\<close>, and
  \<open>rg_multicycle_op\<close>, which \<open>flush_fifo\<close> would clear, is never read. \<open>wr_flush\<close> is a wire, not a
  part of the state: it is the argument of the rules, and False in this module.
\<close>

record pbox =
  ff_ordering :: "bool list"
  rg_multicycle_op :: bool
  fifo_input :: "PBoxIn list"
  tx_pbox_out :: "PBoxOut list"

definition mkpbox :: pbox where
  "mkpbox = \<lparr>ff_ordering = [], rg_multicycle_op = False, fifo_input = [], tx_pbox_out = []\<rparr>"

subsection \<open>Rules and methods\<close>

inductive pbox_rule ::
    "(u64 \<Rightarrow> 5 word \<Rightarrow> 33 word) \<Rightarrow> u64 \<Rightarrow> nat \<Rightarrow> bool \<Rightarrow> pbox \<Rightarrow> pbox \<Rightarrow> bool"
  for upper_range undefined_data out_depth wr_flush where
  rl_capture_output: "ff_ordering s \<noteq> [] \<Longrightarrow> pbox_rule upper_range undefined_data out_depth wr_flush s s"
| rl_compute: "fifo_input s = q # rest \<Longrightarrow> length (tx_pbox_out s) < out_depth \<Longrightarrow>
    pbox_rule upper_range undefined_data out_depth wr_flush s
      (s\<lparr>fifo_input := rest, tx_pbox_out := tx_pbox_out s @ [fn_compute upper_range undefined_data q]\<rparr>)"
| flush_fifo: "wr_flush \<Longrightarrow> pbox_rule upper_range undefined_data out_depth wr_flush s (s\<lparr>rg_multicycle_op := False\<rparr>)"

definition pbox_ma_inputs :: "PBoxIn \<Rightarrow> pbox \<Rightarrow> pbox" where
  "pbox_ma_inputs pbox_inp s = s\<lparr>fifo_input := fifo_input s @ [pbox_inp]\<rparr>"

definition pbox_ready :: "pbox \<Rightarrow> bool" where
  "pbox_ready s \<longleftrightarrow> length (fifo_input s) < 1"

definition pbox_tx_output :: "pbox \<Rightarrow> (PBoxOut \<times> pbox) option" where
  "pbox_tx_output s = (case tx_pbox_out s of [] \<Rightarrow> None | x # xs \<Rightarrow> Some (x, s\<lparr>tx_pbox_out := xs\<rparr>))"

text \<open>The rules of the module itself, whose \<open>wr_flush\<close> keeps its default.\<close>

abbreviation mkpbox_rule :: "(u64 \<Rightarrow> 5 word \<Rightarrow> 33 word) \<Rightarrow> u64 \<Rightarrow> nat \<Rightarrow> pbox \<Rightarrow> pbox \<Rightarrow> bool" where
  "mkpbox_rule upper_range undefined_data out_depth \<equiv> pbox_rule upper_range undefined_data out_depth False"

subsection \<open>The P-box as an execution unit\<close>

text \<open>What the unit still has to answer: the answers in the port, then those to the requests that wait.\<close>

definition pbox_owes :: "(u64 \<Rightarrow> 5 word \<Rightarrow> 33 word) \<Rightarrow> u64 \<Rightarrow> pbox \<Rightarrow> PBoxOut list \<Rightarrow> bool" where
  "pbox_owes upper_range undefined_data s vs \<longleftrightarrow> ff_ordering s = [] \<and> length (fifo_input s) \<le> 1 \<and>
     vs = tx_pbox_out s @ List.map (fn_compute upper_range undefined_data) (fifo_input s)"

definition pbox_work :: "pbox \<Rightarrow> nat" where
  "pbox_work s = length (fifo_input s)"

lemma pbox_initial: "pbox_owes upper_range undefined_data mkpbox []"
  by (simp add: pbox_owes_def mkpbox_def)

interpretation pbox: execution_unit "\<lambda>_. True" "\<lambda>_. pbox_ready" pbox_ma_inputs
    "mkpbox_rule upper_range undefined_data (Suc d)" pbox_tx_output "fn_compute upper_range undefined_data"
    "pbox_owes upper_range undefined_data" pbox_work
  for upper_range undefined_data d
proof
  fix s s' vs q v
  note defs = pbox_owes_def pbox_work_def
  show "pbox_owes upper_range undefined_data s' vs"
    if "pbox_owes upper_range undefined_data s vs" "mkpbox_rule upper_range undefined_data (Suc d) s s'"
    using that(2,1) by cases (simp_all add: defs)
  show "pbox_work s' < pbox_work s"
    if "pbox_owes upper_range undefined_data s vs" "mkpbox_rule upper_range undefined_data (Suc d) s s'"
    using that(2,1) by cases (simp_all add: defs)
  show "pbox_owes upper_range undefined_data (pbox_ma_inputs q s) (vs @ [fn_compute upper_range undefined_data q])"
    if "pbox_owes upper_range undefined_data s vs" "pbox_ready s"
    using that by (simp add: defs pbox_ma_inputs_def pbox_ready_def)
  show "\<exists>s'. mkpbox_rule upper_range undefined_data (Suc d) s s'"
    if "pbox_owes upper_range undefined_data s (v # vs)" "pbox_tx_output s = None"
  proof -
    have tx: "tx_pbox_out s = []" using that(2) by (simp add: pbox_tx_output_def split: list.splits)
    then have "fifo_input s \<noteq> []" using that(1) by (auto simp: defs)
    then obtain q rest where q: "fifo_input s = q # rest" by (auto simp: neq_Nil_conv)
    have "length (tx_pbox_out s) < Suc d" by (simp add: tx)
    from pbox_rule.rl_compute [OF q this] show ?thesis by (rule exI)
  qed
qed (auto simp: pbox_owes_def pbox_work_def pbox_tx_output_def split: list.splits)

subsection \<open>Properties\<close>

text \<open>
  C10 (the P-box answers in order). However the environment's requests, its reading of the output
  port and the rules of mkpbox interleave, the answers read are, in order, those of fn_compute to
  the requests, invalid ones included. If a request is unanswered then one firing of a rule at the
  most makes the next answer available, and no more than one rule can fire before the environment
  acts again.
\<close>

theorem pbox_answers_in_order:
  assumes "serves (\<lambda>_. True) (\<lambda>_. pbox_ready) pbox_ma_inputs (mkpbox_rule upper_range undefined_data (Suc d))
      pbox_tx_output mkpbox s qs vs"
  shows "vs = List.map (fn_compute upper_range undefined_data) (take (length vs) qs) \<and>
    (length vs < length qs \<longrightarrow> (\<exists>n t t'. n \<le> 1 \<and> (mkpbox_rule upper_range undefined_data (Suc d) ^^ n) s t \<and>
      pbox_tx_output t = Some (fn_compute upper_range undefined_data (qs ! length vs), t'))) \<and>
    (\<forall>n t. (mkpbox_rule upper_range undefined_data (Suc d) ^^ n) s t \<longrightarrow> n \<le> 1)"
proof -
  let ?f = "fn_compute upper_range undefined_data"
  obtain rest where rest: "pbox_owes upper_range undefined_data s rest" "List.map ?f qs = vs @ rest"
    using pbox.serves_owes [OF assms pbox_initial] by blast
  have w: "pbox_work s \<le> 1" using rest(1) by (simp add: pbox_owes_def pbox_work_def)
  have "\<exists>n t t'. n \<le> 1 \<and> (mkpbox_rule upper_range undefined_data (Suc d) ^^ n) s t \<and>
      pbox_tx_output t = Some (?f (qs ! length vs), t')" if l: "length vs < length qs"
  proof -
    obtain rest' where "rest = ?f (qs ! length vs) # rest'"
      using arg_cong [OF rest(2), of length] arg_cong [OF rest(2), of "\<lambda>l. l ! length vs"] l by (cases rest) auto
    with rest(1) have "pbox_owes upper_range undefined_data s (?f (qs ! length vs) # rest')" by simp
    from pbox.delivers [OF this, of d] show ?thesis using w by (meson order_trans)
  qed
  moreover have "n \<le> 1" if "(mkpbox_rule upper_range undefined_data (Suc d) ^^ n) s t" for n t
    using pbox.firings_bounded [OF that rest(1)] w by simp
  ultimately show ?thesis using rest(2) by (metis append_eq_conv_conj take_map)
qed

text \<open>A concrete run: SMUL16 of 3 and 5 in the lower lane, asked and computed, its answer still in the port.\<close>

definition smul16_request :: PBoxIn where
  "smul16_request = \<lparr>instr = 0xA0000077, rs1 = 3, rs2 = 5, rd = 0\<rparr>"

theorem pbox_answers_in_order_witness:
  "\<exists>n t t'. n \<le> 1 \<and> (mkpbox_rule no_range 0 1 ^^ n) (pbox_ma_inputs smul16_request mkpbox) t \<and>
    pbox_tx_output t = Some (fn_compute no_range 0 smul16_request, t')"
proof -
  have "serves (\<lambda>_. True) (\<lambda>_. pbox_ready) pbox_ma_inputs (mkpbox_rule no_range 0 (Suc 0)) pbox_tx_output mkpbox
      (pbox_ma_inputs smul16_request mkpbox) ([] @ [smul16_request]) []"
    by (rule serves.give [OF serves.start]) (simp_all add: pbox_ready_def mkpbox_def)
  from conjunct1 [OF conjunct2 [OF pbox_answers_in_order [OF this]]] show ?thesis by simp
qed

end
