(* ===== verification/MBox_Div.thy ===== *)
theory MBox_Div
  imports MBox_Contract "HOL-Library.Signed_Division"
begin

section \<open>The divider of the M-box\<close>

text \<open>
  \<open>src/mbox/restoring_div.bsv\<close> for RV64: a restoring divider that computes the quotient and
  the remainder of 64-bit operands bit by bit, \<open>64 / DIVSTAGES\<close> bits in each cycle, and the
  signs around it. \<open>DIVSTAGES\<close> is the argument \<open>stages\<close>.
\<close>

subsection \<open>The data path\<close>

text \<open>
  One turn of the loop of \<open>fn_single_div\<close>: \<open>x\<close> is the pair shifted left, \<open>remainder\<close> its upper
  65 bits.
\<close>

definition single_div_body :: "u64 \<Rightarrow> 65 word \<times> u64 \<Rightarrow> 65 word \<times> u64" where
  "single_div_body divisor rq =
     (let x = push_bit 1 (word_cat (fst rq) (snd rq) :: 129 word);
          remainder = ucast (drop_bit 64 x) :: 65 word;
          quot = ucast x :: u64;
          sub = remainder + scast (NOT divisor + 1)
      in if ucast remainder \<ge> divisor then (sub, quot OR 1) else (remainder, quot))"

definition fn_single_div :: "nat \<Rightarrow> 65 word \<Rightarrow> u64 \<Rightarrow> u64 \<Rightarrow> 65 word \<times> u64" where
  "fn_single_div stages remainder quot divisor =
     (single_div_body divisor ^^ (64 div stages)) (remainder, quot)"

text \<open>The operands' absolute values, whether the result is to be negated, the first sign.\<close>

definition fn_fix_inputs :: "u64 \<Rightarrow> u64 \<Rightarrow> 3 word \<Rightarrow> bool \<Rightarrow> u64 \<times> u64 \<times> bool \<times> bool" where
  "fn_fix_inputs in1 in2 funct3 wordop =
     (let word_part = (\<lambda>v. if \<not> bit funct3 0 then scast (ucast v :: u32) else ucast (ucast v :: u32)) :: u64 \<Rightarrow> u64;
          in1 = (if wordop then word_part in1 else in1);
          in2 = (if wordop then word_part in2 else in2);
          invert_op1 = bit funct3 2 \<and> \<not> bit funct3 0 \<and> bit in1 63;
          invert_op2 = bit funct3 2 \<and> \<not> bit funct3 0 \<and> bit in2 63;
          t1 = (if invert_op1 then - 1 else 0);
          t2 = (if invert_op2 then - 1 else 0);
          op1 = (t1 XOR in1) + of_bool invert_op1;
          op2 = (t2 XOR in2) + of_bool invert_op2;
          take_complement =
            (if funct3 = 4 then bit in1 63 \<noteq> bit in2 63 else if funct3 = 6 then True else False)
      in (op1, op2, take_complement, bit in1 63))"

subsection \<open>The registers, the rule and the methods\<close>

text \<open>
  \<open>rg_count\<close> has \<open>TLog(DIVSTAGES + 1)\<close> bits, so \<open>log2 DIVSTAGES + 1\<close> of them, since
  \<open>DIVSTAGES\<close> is a power of two; its arithmetic is modulo \<open>2 * stages\<close>.
\<close>

record divider =
  rg_count :: nat
  partial :: "129 word"
  rg_op2 :: u64
  rg_in1 :: u64
  quotient_remainder :: bool
  rg_upperbits :: bool
  rg_complement :: bool
  rg_sign_op1 :: bool
  rg_valid :: bool
  rg_result :: u64
  rg_wordop :: bool

definition mkrestoring_div :: divider where
  "mkrestoring_div = \<lparr>rg_count = 0, partial = 0, rg_op2 = 0, rg_in1 = 0, quotient_remainder = False,
     rg_upperbits = False, rg_complement = False, rg_sign_op1 = False, rg_valid = False, rg_result = 0,
     rg_wordop = False\<rparr>"

definition word_result :: "bool \<Rightarrow> u64 \<Rightarrow> u64" where
  "word_result wordop reslt = (if wordop then scast (ucast reslt :: u32) else reslt)"

text \<open>The rule \<open>single_step_div\<close>; None where it cannot fire.\<close>

definition single_step_div :: "nat \<Rightarrow> divider \<Rightarrow> divider option" where
  "single_step_div stages d =
     (if rg_count d \<noteq> 0 \<and> \<not> rg_valid d then
        (let (upper, lower) = fn_single_div stages (ucast (drop_bit 64 (partial d))) (ucast (partial d)) (rg_op2 d);
             next = d\<lparr>partial := word_cat upper lower\<rparr>
         in Some
           (if rg_op2 d = 0 then
              let reslt = (if quotient_remainder d then rg_in1 d else - 1)
              in next\<lparr>rg_count := 0, rg_valid := True, rg_result := word_result (rg_wordop d) reslt\<rparr>
            else if rg_count d = (stages + 1) mod (2 * stages) then
              let reslt = (if quotient_remainder d then ucast (drop_bit 64 (partial d)) else ucast (partial d));
                  reslt = (if rg_upperbits d \<and> rg_complement d \<and> bit reslt 63 \<noteq> rg_sign_op1 d \<or>
                      rg_complement d \<and> \<not> rg_upperbits d then NOT reslt + 1 else reslt)
              in next\<lparr>rg_count := 0, rg_valid := True, rg_result := word_result (rg_wordop d) reslt\<rparr>
            else next\<lparr>rg_count := (rg_count d + 1) mod (2 * stages)\<rparr>))
      else None)"

definition div_ma_inputs :: "nat \<Rightarrow> u64 \<Rightarrow> u64 \<Rightarrow> 3 word \<Rightarrow> bool \<Rightarrow> divider \<Rightarrow> divider" where
  "div_ma_inputs stages in1 in2 funct3 wordop d =
     (let (op1, op2, complement, sign_op1) = fn_fix_inputs in1 in2 funct3 wordop
      in d\<lparr>partial := ucast op1, rg_op2 := op2, rg_in1 := in1, rg_count := (rg_count d + 1) mod (2 * stages),
           rg_complement := complement, rg_sign_op1 := sign_op1, quotient_remainder := bit funct3 1,
           rg_wordop := wordop, rg_upperbits := bit funct3 1\<rparr>)"

definition div_mv_ready :: "divider \<Rightarrow> bool" where
  "div_mv_ready d \<longleftrightarrow> rg_count d = 0 \<and> \<not> rg_valid d"

definition div_mv_output :: "divider \<Rightarrow> (u64 \<times> divider) option" where
  "div_mv_output d = (if rg_valid d then Some (rg_result d, d\<lparr>rg_valid := False\<rparr>) else None)"

subsection \<open>Long division\<close>

declare push_bit_Suc [simp del]

definition div_inv :: "nat \<Rightarrow> u64 \<Rightarrow> u64 \<Rightarrow> 65 word \<times> u64 \<Rightarrow> bool" where
  "div_inv i a b rq \<longleftrightarrow>
     (let p = uint a div 2 ^ (64 - i) in
      uint (ucast (fst rq) :: u64) = p mod uint b \<and>
      uint (snd rq) = uint a mod 2 ^ (64 - i) * 2 ^ i + p div uint b)"

lemma body_low:
  "snd (single_div_body d (r, q)) = push_bit 1 q OR of_bool (d \<le> push_bit 1 (ucast r) OR drop_bit 63 q)"
  "(ucast (fst (single_div_body d (r, q))) :: u64) =
    (let r' = push_bit 1 (ucast r) OR drop_bit 63 q in if d \<le> r' then r' - d else r')"
proof -
  let ?x = "push_bit 1 (word_cat r q :: 129 word)"
  have r': "(ucast (ucast (drop_bit 64 ?x) :: 65 word) :: u64) = push_bit 1 (ucast r) OR drop_bit 63 q"
    by (rule bit_word_eqI)
      (auto simp: bit_simps bit_word_cat_iff bit_ucast_iff not_less less_diff_conv2 dest: bit_imp_le_length)
  have q': "(ucast ?x :: u64) = push_bit 1 q"
    by (rule bit_word_eqI) (auto simp: bit_simps bit_word_cat_iff bit_ucast_iff)
  have add: "(ucast (v + w) :: u64) = ucast v + ucast w" for v w :: "65 word"
    by (simp add: word_uint_eq_iff uint_word_ariths unsigned_ucast_eq take_bit_eq_mod mod_simps mod_mod_cancel)
  have low: "(ucast (scast v :: 65 word) :: u64) = v" for v :: u64
    by (rule bit_word_eqI) (auto simp: bit_simps bit_signed_iff bit_ucast_iff)
  show "snd (single_div_body d (r, q)) = push_bit 1 q OR of_bool (d \<le> push_bit 1 (ucast r) OR drop_bit 63 q)"
    unfolding single_div_body_def Let_def fst_conv snd_conv r' q' by simp
  show "(ucast (fst (single_div_body d (r, q))) :: u64) =
      (let r' = push_bit 1 (ucast r) OR drop_bit 63 q in if d \<le> r' then r' - d else r')"
    unfolding single_div_body_def Let_def fst_conv snd_conv r' q' by (simp add: add low minus_eq_not_plus_1 [symmetric] r' [simplified])
qed

lemma shift_in:
  fixes x :: u64
  assumes "uint x < 2 ^ 63"
  shows "uint (push_bit 1 x OR drop_bit 63 q) = 2 * uint x + uint q div 2 ^ 63"
proof -
  have "push_bit 1 x OR drop_bit 63 q = push_bit 1 x + drop_bit 63 q"
    by (rule disjunctive_add [symmetric])
      (auto simp: bit_simps dest: bit_imp_le_length)
  moreover have "uint q div 2 ^ 63 < 2" "0 \<le> uint q div 2 ^ 63"
    using uint_bounded [of q] by (simp_all add: pos_imp_zdiv_nonneg_iff)
  then have "(2 * uint x + uint q div 2 ^ 63) mod 2 ^ 64 = 2 * uint x + uint q div 2 ^ 63"
    using assms by (intro mod_pos_pos_trivial) simp_all
  ultimately show ?thesis
    by (simp add: uint_word_ariths uint_div drop_bit_eq_div push_bit_eq_mult mult.commute mod_simps)
qed

lemma set_lowest: "uint (push_bit 1 q OR of_bool c :: u64) = 2 * uint q mod 2 ^ 64 + of_bool c"
proof -
  have "push_bit 1 q OR of_bool c = push_bit 1 q + of_bool c"
    by (rule disjunctive_add [symmetric]) (auto simp: bit_simps)
  moreover have "even (2 * uint q mod 2 ^ 64)" by (intro dvd_mod) simp_all
  then have "2 * uint q mod 2 ^ 64 \<noteq> 2 ^ 64 - 1" by fastforce
  then have "2 * uint q mod 2 ^ 64 + of_bool c < 2 ^ 64"
    using pos_mod_bound [of "2 ^ 64" "2 * uint q"] by (cases c) simp_all
  then have "(2 * uint q mod 2 ^ 64 + of_bool c) mod 2 ^ 64 = 2 * uint q mod 2 ^ 64 + of_bool c"
    by (intro mod_pos_pos_trivial) simp_all
  then have "(2 * uint q + of_bool c) mod 2 ^ 64 = 2 * uint q mod 2 ^ 64 + of_bool c"
    by (simp only: mod_add_left_eq)
  ultimately show ?thesis by (cases c) (simp_all add: uint_word_ariths push_bit_eq_mult mult.commute mod_simps)
qed

lemma div_near:
  fixes x y :: int
  assumes "0 \<le> x" "x < 2 * y"
  shows "x div y = of_bool (y \<le> x)" "x mod y = (if y \<le> x then x - y else x)"
proof -
  have "y \<le> x \<Longrightarrow> x div y = 1 \<and> x mod y = x - y"
    using assms by (intro conjI int_div_pos_eq [of _ _ 1 "x - y"] int_mod_pos_eq [of _ _ 1 "x - y"]) simp_all
  then show "x div y = of_bool (y \<le> x)" "x mod y = (if y \<le> x then x - y else x)"
    using assms by auto
qed

lemma long_division_step:
  fixes a b :: int
  assumes "0 \<le> a" "a < 2 ^ 64" "0 < b" "i < 64"
  defines "p \<equiv> a div 2 ^ (64 - i)" and "m \<equiv> a mod 2 ^ (64 - i)"
  defines "hi \<equiv> m div 2 ^ (63 - i)" and "m' \<equiv> a mod 2 ^ (63 - i)"
  shows "p mod b < 2 ^ 63" and "a div 2 ^ (63 - i) = 2 * p + hi" and "0 \<le> hi" and "hi < 2"
    and "(m * 2 ^ i + p div b) div 2 ^ 63 = hi"
    and "2 * (m * 2 ^ i + p div b) mod 2 ^ 64 = m' * 2 ^ Suc i + 2 * (p div b)"
proof -
  define k where "k = 63 - i"
  have k: "64 - i = Suc k" "63 - i = k" "i + k = 63" using assms(4) by (simp_all add: k_def)
  have pw: "(2 :: int) ^ 63 = 2 ^ i * 2 ^ k" by (simp only: k(3) [symmetric] power_add)
  have a: "a = p * (2 * 2 ^ k) + m" unfolding p_def m_def k power_Suc by (rule div_mult_mod_eq [symmetric])
  have m: "m = hi * 2 ^ k + m'"
  proof -
    have "m' = m mod 2 ^ k" unfolding m'_def m_def k by (simp add: mod_mod_cancel)
    then show ?thesis unfolding hi_def k by (simp only: div_mult_mod_eq)
  qed
  have m0: "0 \<le> m'" "m' < 2 ^ k" "0 \<le> m" "m < 2 * 2 ^ k" by (simp_all add: m'_def m_def k)
  show hi: "0 \<le> hi" "hi < 2"
    using div_near(1) [OF m0(3,4)] by (simp_all add: hi_def k)
  have p0: "0 \<le> p" using assms(1) by (simp add: p_def pos_imp_zdiv_nonneg_iff)
  have p1: "p < 2 ^ i"
  proof (rule ccontr)
    assume "\<not> p < 2 ^ i"
    then have "2 ^ i * (2 * 2 ^ k) \<le> p * (2 * 2 ^ k)" by (intro mult_right_mono) simp_all
    moreover have "2 ^ i * (2 * 2 ^ k) = (2 :: int) ^ 64" using pw by simp
    ultimately show False using assms(2) a m0(3) by linarith
  qed
  have "p mod b \<le> p" using p0 assms(3) by (simp add: zmod_le_nonneg_dividend)
  moreover have "(2 :: int) ^ i \<le> 2 ^ 63" using assms(4) by (intro power_increasing) simp_all
  ultimately show "p mod b < 2 ^ 63" using p1 by linarith
  show "a div 2 ^ (63 - i) = 2 * p + hi"
  proof -
    have "a = m' + 2 ^ k * (2 * p + hi)" unfolding a m by (simp add: algebra_simps)
    then show ?thesis unfolding k using m0(1,2) by simp
  qed
  define r where "r = m' * 2 ^ i + p div b"
  have pd: "0 \<le> p div b" "p div b < 2 ^ i"
    using p0 p1 assms(3) zdiv_mono2 [of p 1 b] by (simp_all add: pos_imp_zdiv_nonneg_iff)
  have r: "0 \<le> r" "r < 2 ^ 63"
  proof -
    have "m' * 2 ^ i \<le> (2 ^ k - 1) * 2 ^ i" using m0(2) by (intro mult_right_mono) simp_all
    then have "r < (2 ^ k - 1) * 2 ^ i + 2 ^ i" unfolding r_def using pd(2) by linarith
    then show "r < 2 ^ 63" unfolding pw by (simp add: algebra_simps)
  qed (use m0(1) pd(1) in \<open>simp add: r_def\<close>)
  have e: "m * 2 ^ i + p div b = r + 2 ^ 63 * hi" unfolding m r_def pw by (simp add: algebra_simps)
  show "(m * 2 ^ i + p div b) div 2 ^ 63 = hi" unfolding e using r by simp
  have "2 * (m * 2 ^ i + p div b) = 2 * r + 2 ^ 64 * hi" unfolding e by simp
  then have "2 * (m * 2 ^ i + p div b) mod 2 ^ 64 = 2 * r" using r by simp
  then show "2 * (m * 2 ^ i + p div b) mod 2 ^ 64 = m' * 2 ^ Suc i + 2 * (p div b)" by (simp add: r_def)
qed

lemma div_inv_step:
  assumes "div_inv i a b rq" and "i < 64" and "b \<noteq> 0"
  shows "div_inv (Suc i) a b (single_div_body b rq)"
proof -
  obtain r q where rq: "rq = (r, q)" by (cases rq)
  define p m hi where "p = uint a div 2 ^ (64 - i)" and "m = uint a mod 2 ^ (64 - i)" and "hi = m div 2 ^ (63 - i)"
  have b0: "0 < uint b" using assms(3) by (simp add: word_neq_0_conv word_less_def)
  note ld = long_division_step [OF _ _ b0 assms(2), of "uint a", folded p_def m_def, folded hi_def, OF unsigned_greater_eq]
  have a64: "uint a < 2 ^ 64" using uint_bounded [of a] by simp
  have R: "uint (ucast r :: u64) = p mod uint b" and Q: "uint q = m * 2 ^ i + p div uint b"
    using assms(1) by (simp_all add: div_inv_def rq p_def m_def Let_def)
  let ?r' = "push_bit 1 (ucast r :: u64) OR drop_bit 63 q"
  have r': "uint ?r' = 2 * (p mod uint b) + hi"
    using shift_in [of "ucast r" q] ld(1,5) [OF a64] by (simp only: R Q)
  have hi: "0 \<le> hi" "hi < 2" using ld(3,4) [OF a64] by simp_all
  define Q M where "Q = p div uint b" and "M = p mod uint b"
  have "p = uint b * Q + M" by (simp only: Q_def M_def mult_div_mod_eq)
  then have "2 * p + hi = uint ?r' + uint b * (2 * (p div uint b))"
    unfolding r' Q_def [symmetric] M_def [symmetric] by (simp add: algebra_simps)
  moreover have "0 \<le> uint ?r'" "uint ?r' < 2 * uint b"
    unfolding r' using pos_mod_bound [OF b0, of p] pos_mod_sign [OF b0, of p] hi by linarith+
  note near = div_near [OF this]
  ultimately have step: "(2 * p + hi) div uint b = 2 * (p div uint b) + of_bool (b \<le> ?r')"
    "(2 * p + hi) mod uint b = (if b \<le> ?r' then uint ?r' - uint b else uint ?r')"
    using b0 by (simp_all only: near word_le_def div_mult_self2 mod_mult_self2)
  have "uint a div 2 ^ (64 - Suc i) = 2 * p + hi" "uint a mod 2 ^ (64 - Suc i) * 2 ^ Suc i + 2 * (p div uint b) =
      2 * uint q mod 2 ^ 64"
    using ld(2,6) [OF a64] by (simp_all only: Q diff_Suc_eq_diff_pred) simp_all
  then show ?thesis
    unfolding div_inv_def Let_def rq body_low set_lowest
    using step uint_minus_simple_alt [of b ?r'] by (auto simp: Let_def)
qed

lemma div_inv_init: "div_inv 0 a b (0, a)"
  using uint_bounded [of a] by (simp add: div_inv_def)

lemma div_inv_funpow:
  "div_inv i a b rq \<Longrightarrow> i + n \<le> 64 \<Longrightarrow> b \<noteq> 0 \<Longrightarrow> div_inv (i + n) a b ((single_div_body b ^^ n) rq)"
proof (induction n)
  case (Suc n)
  then show ?case using div_inv_step [of "i + n" a b "(single_div_body b ^^ n) rq"] by simp
qed simp

lemma div_inv_64:
  assumes "div_inv 64 a b (r, q)"
  shows "q = word_of_int (uint a div uint b)" "(ucast r :: u64) = word_of_int (uint a mod uint b)"
  using assms by (simp_all add: div_inv_def word_uint_eq_iff [of q] word_uint_eq_iff [of "ucast r"] Let_def)
    (metis of_int_uint word_of_int_uint)+

subsection \<open>Signs\<close>

text \<open>The results that the RISC-V M extension asks for, as integers.\<close>

definition div_operand :: "3 word \<Rightarrow> bool \<Rightarrow> u64 \<Rightarrow> int" where
  "div_operand funct3 wordop v =
     (if wordop then if bit funct3 0 then uint (ucast v :: u32) else sint (ucast v :: u32)
      else if bit funct3 0 then uint v else sint v)"

definition div_spec :: "3 word \<Rightarrow> bool \<Rightarrow> u64 \<Rightarrow> u64 \<Rightarrow> u64" where
  "div_spec funct3 wordop in1 in2 =
     (let a = div_operand funct3 wordop in1; b = div_operand funct3 wordop in2;
          v = (if bit funct3 1 then if b = 0 then a else a smod b else if b = 0 then - 1 else a sdiv b)
      in if wordop then scast (word_of_int v :: u32) else word_of_int v)"

lemma fixed_operand:
  fixes v :: u64
  assumes "x = (if wordop then if \<not> bit funct3 0 then scast (ucast v :: u32) else ucast (ucast v :: u32) else v)"
  shows "div_operand funct3 wordop v = (if bit funct3 0 then uint x else sint x)"
  unfolding assms div_operand_def
  using uint_up_ucast [of "ucast v :: u32", where 'b = 64] sint_up_scast [of "ucast v :: u32", where 'b = 64]
  by (auto simp: is_up)

lemma magnitude:
  fixes x :: u64
  shows "uint (if sint x < 0 then (- 1 XOR x) + 1 else x) = \<bar>sint x\<bar>"
proof (cases "sint x < 0")
  case True
  have "(- 1 XOR x) + 1 = NOT x + 1" by simp
  also have "\<dots> = - x" by (simp only: minus_eq_not_plus_1)
  also have "\<dots> = word_of_int (- sint x)" by (simp only: of_int_minus of_int_sint scast_id)
  finally show ?thesis using True sint_bounds [of x] by (simp add: uint_word_of_int del: of_int_minus)
next
  case False
  have "sint x = (uint x + 2 ^ 63) mod 2 ^ 64 - 2 ^ 63"
    unfolding sint_uint signed_take_bit_eq_take_bit_shift take_bit_eq_mod by simp
  moreover have "uint x < 2 ^ 64" using uint_bounded [of x] by simp
  then have "(uint x + 2 ^ 63) mod 2 ^ 64 = (if 2 ^ 63 \<le> uint x then uint x - 2 ^ 63 else uint x + 2 ^ 63)"
    using div_near(2) [of "uint x + 2 ^ 63" "2 ^ 64"] by auto
  ultimately show ?thesis using False \<open>uint x < 2 ^ 64\<close> by (auto split: if_splits)
qed

definition div_finish :: "divider \<Rightarrow> u64" where
  "div_finish d =
     (let reslt = (if quotient_remainder d then ucast (drop_bit 64 (partial d)) else ucast (partial d))
      in word_result (rg_wordop d)
        (if rg_upperbits d \<and> rg_complement d \<and> bit reslt 63 \<noteq> rg_sign_op1 d \<or> rg_complement d \<and> \<not> rg_upperbits d
         then NOT reslt + 1 else reslt))"

lemma word_result_int: "word_result wordop (word_of_int v) = (if wordop then scast (word_of_int v :: u32) else word_of_int v)"
proof -
  have "(ucast (word_of_int v :: u64) :: u32) = word_of_int v"
    by (rule bit_word_eqI) (simp add: bit_ucast_iff bit_of_int_iff)
  then show ?thesis by (simp only: word_result_def)
qed

lemma smod_sdiv_abs:
  "a sdiv b = (if (a < 0) \<noteq> (b < 0) then - (\<bar>a\<bar> div \<bar>b\<bar>) else \<bar>a\<bar> div \<bar>b\<bar>)"
  "a smod b = (if a < 0 then - (\<bar>a\<bar> mod \<bar>b\<bar>) else \<bar>a\<bar> mod \<bar>b\<bar>)" for a b :: int
proof -
  show d: "a sdiv b = (if (a < 0) \<noteq> (b < 0) then - (\<bar>a\<bar> div \<bar>b\<bar>) else \<bar>a\<bar> div \<bar>b\<bar>)"
    by (cases "a = 0"; cases "b = 0") (auto simp: signed_divide_int_def sgn_if)
  show "a smod b = (if a < 0 then - (\<bar>a\<bar> mod \<bar>b\<bar>) else \<bar>a\<bar> mod \<bar>b\<bar>)"
    by (cases "a = 0") (auto simp: signed_modulo_int_def sgn_if)
qed

lemma division_funct3: "bit f 2 \<Longrightarrow> f \<in> {4, 5, 6, 7}" for f :: "3 word"
proof (cases f)
  case (1 n)
  then have "n \<in> set [0..<8]" by simp
  moreover assume "bit f 2"
  ultimately show ?thesis using 1(1) by (auto simp: upt_rec)
qed

lemma fix_inputs_value:
  assumes "bit funct3 2" and "fn_fix_inputs in1 in2 funct3 wordop = (op1, op2, complement, sign1)"
  defines "a \<equiv> div_operand funct3 wordop in1" and "b \<equiv> div_operand funct3 wordop in2"
  shows "uint op1 = \<bar>a\<bar>" "uint op2 = \<bar>b\<bar>" "sign1 \<longleftrightarrow> (if bit funct3 0 then sign1 else a < 0)"
    "complement \<longleftrightarrow> (if bit funct3 0 then False else if bit funct3 1 then True else (a < 0) \<noteq> (b < 0))"
proof -
  define part where "part v = (if wordop then if \<not> bit funct3 0 then scast (ucast v :: u32) else ucast (ucast v :: u32) else v)"
    for v :: u64
  have num: "a = (if bit funct3 0 then uint (part in1) else sint (part in1))"
    "b = (if bit funct3 0 then uint (part in2) else sint (part in2))"
    unfolding a_def b_def by (rule fixed_operand [OF part_def])+
  have top: "bit x 63 \<longleftrightarrow> sint x < 0" for x :: u64 using bit_last_iff [of x] by simp
  define inv1 inv2 where "inv1 = (\<not> bit funct3 0 \<and> sint (part in1) < 0)"
    and "inv2 = (\<not> bit funct3 0 \<and> sint (part in2) < 0)"
  have eq: "op1 = (if inv1 then (- 1 XOR part in1) + 1 else part in1)"
    "op2 = (if inv2 then (- 1 XOR part in2) + 1 else part in2)" "sign1 = (sint (part in1) < 0)"
    "complement = (if funct3 = 4 then (sint (part in1) < 0) \<noteq> (sint (part in2) < 0) else funct3 = 6)"
    using assms(1,2) unfolding fn_fix_inputs_def Let_def part_def [symmetric] top inv1_def inv2_def
    by (auto split: if_splits)
  show "uint op1 = \<bar>a\<bar>" unfolding eq num inv1_def using magnitude [of "part in1"] by (simp split: if_splits)
  show "uint op2 = \<bar>b\<bar>" unfolding eq num inv2_def using magnitude [of "part in2"] by (simp split: if_splits)
  show "sign1 \<longleftrightarrow> (if bit funct3 0 then sign1 else a < 0)" unfolding eq num by simp
  show "complement \<longleftrightarrow> (if bit funct3 0 then False else if bit funct3 1 then True else (a < 0) \<noteq> (b < 0))"
    using division_funct3 [OF assms(1)] unfolding eq num by auto
qed

lemma abs_remainder_bit:
  assumes "uint r = \<bar>a\<bar> mod \<bar>b\<bar>" "- (2 ^ 63) \<le> b" "b < 2 ^ 63" "b \<noteq> 0"
  shows "\<not> bit (r :: u64) 63"
proof -
  have "uint r < 2 ^ 63" using pos_mod_bound [of "\<bar>b\<bar>" "\<bar>a\<bar>"] assms by (auto simp del: pos_mod_bound)
  then have "uint r div 2 ^ 63 = 0" by (intro div_pos_pos_trivial) simp_all
  moreover have "bit r 63 = bit (uint r) 63" by (simp add: bit_uint_iff)
  ultimately show ?thesis by (simp only: bit_iff_odd) simp
qed

lemma div_finish_spec:
  fixes d :: divider
  assumes f3: "bit funct3 2" and fixed: "fn_fix_inputs in1 in2 funct3 wordop = (op1, op2, complement, sign1)"
    and "op2 \<noteq> 0" and inv: "div_inv 64 op1 op2 (ucast (drop_bit 64 (partial d)), ucast (partial d))"
    and d: "rg_complement d = complement" "rg_sign_op1 d = sign1" "quotient_remainder d = bit funct3 1"
      "rg_upperbits d = bit funct3 1" "rg_wordop d = wordop"
  shows "div_finish d = div_spec funct3 wordop in1 in2"
proof -
  define a b where "a = div_operand funct3 wordop in1" and "b = div_operand funct3 wordop in2"
  note v = fix_inputs_value [OF f3 fixed, folded a_def b_def]
  have b0: "b \<noteq> 0" using assms(3) v(2) uint_0_iff [of op2] by auto
  have low: "(ucast (ucast (drop_bit 64 (partial d)) :: 65 word) :: u64) = ucast (drop_bit 64 (partial d))"
    by (rule bit_word_eqI) (simp add: bit_ucast_iff bit_drop_bit_eq)
  note q = div_inv_64(1) [OF inv, unfolded v] and r = div_inv_64(2) [OF inv, unfolded v low]
  have minus: "NOT (word_of_int x :: u64) + 1 = word_of_int (- x)" for x
    by (simp only: minus_eq_not_plus_1 [symmetric] of_int_minus)
  have unsigned: "0 \<le> a" "0 \<le> b" if "bit funct3 0"
    using that by (simp_all add: a_def b_def div_operand_def)
  show ?thesis
  proof (cases "bit funct3 1")
    case True
    have "\<not> bit (word_of_int (\<bar>a\<bar> mod \<bar>b\<bar>) :: u64) 63" if "\<not> bit funct3 0"
    proof (rule abs_remainder_bit)
      show "- (2 ^ 63) \<le> b" "b < 2 ^ 63"
        using that sint_bounds [of in2] sint_bounds [of "ucast in2 :: u32"] by (auto simp: b_def div_operand_def)
      show "uint (word_of_int (\<bar>a\<bar> mod \<bar>b\<bar>) :: u64) = \<bar>a\<bar> mod \<bar>b\<bar>"
        using div_inv_64(2) [OF inv] inv low v by (simp add: div_inv_def Let_def)
    qed (rule b0)
    then have "div_finish d = word_result wordop (word_of_int (a smod b))"
      unfolding div_finish_def d q r Let_def smod_sdiv_abs using unsigned v(3,4) True
      by (cases "bit funct3 0") (auto simp: minus simp del: of_int_minus)
    then show ?thesis using True b0 by (simp add: div_spec_def a_def b_def word_result_int del: of_int_minus)
  next
    case False
    then have "div_finish d = word_result wordop (word_of_int (a sdiv b))"
      unfolding div_finish_def d q r Let_def smod_sdiv_abs using unsigned v(4) by (auto simp: minus simp del: of_int_minus)
    then show ?thesis using False b0 by (simp add: div_spec_def a_def b_def word_result_int del: of_int_minus)
  qed
qed

subsection \<open>Cycles\<close>

text \<open>\<open>n\<close> firings of the rule.\<close>

primrec div_cycles :: "nat \<Rightarrow> nat \<Rightarrow> divider \<Rightarrow> divider option" where
  "div_cycles stages 0 d = Some d"
| "div_cycles stages (Suc n) d = Option.bind (div_cycles stages n d) (single_step_div stages)"

text \<open>
  A divider at work: \<open>op1\<close>, \<open>op2\<close> are the magnitudes, and \<open>c - 1\<close> cycles' worth of bits has
  been divided.
\<close>

definition div_busy :: "nat \<Rightarrow> u64 \<Rightarrow> u64 \<Rightarrow> divider \<Rightarrow> nat \<Rightarrow> divider \<Rightarrow> bool" where
  "div_busy stages op1 op2 d0 c d \<longleftrightarrow> rg_count d = c \<and> \<not> rg_valid d \<and> rg_op2 d = op2 \<and>
     (\<exists>p. d = d0\<lparr>partial := p, rg_count := c\<rparr>) \<and>
     div_inv ((c - 1) * (64 div stages)) op1 op2 (ucast (drop_bit 64 (partial d)), ucast (partial d))"

lemma partial_parts:
  "(ucast (drop_bit 64 (word_cat (upper :: 65 word) (lower :: u64) :: 129 word)) :: 65 word) = upper"
  "(ucast (word_cat (upper :: 65 word) (lower :: u64) :: 129 word) :: u64) = lower"
  by (auto intro!: bit_word_eqI simp: bit_ucast_iff bit_drop_bit_eq bit_word_cat_iff)

lemma single_step_busy:
  assumes "div_busy stages op1 op2 d0 c d" and "op2 \<noteq> 0" and "1 \<le> c" "c \<le> stages" and "stages dvd 64" "2 \<le> stages"
  shows "\<exists>d'. single_step_div stages d = Some d' \<and> div_busy stages op1 op2 d0 (c + 1) d'"
proof -
  let ?w = "64 div stages" and ?rq = "(ucast (drop_bit 64 (partial d)), ucast (partial d)) :: 65 word \<times> u64"
  obtain p where d: "d = d0\<lparr>partial := p, rg_count := c\<rparr>" using assms(1) by (auto simp: div_busy_def)
  obtain u l where ul: "fn_single_div stages (fst ?rq) (snd ?rq) op2 = (u, l)" by (cases "fn_single_div stages (fst ?rq) (snd ?rq) op2")
  have w: "stages * ?w = 64" using assms(5) by simp
  have "c * ?w \<le> 64" using mult_le_mono1 [OF assms(4), of ?w] w by simp
  moreover have c: "(c - 1) * ?w + ?w = c * ?w" using assms(3) by (cases c) simp_all
  ultimately have "div_inv (c * ?w) op1 op2 (u, l)"
    using div_inv_funpow [of "(c - 1) * ?w" op1 op2 ?rq ?w] assms(1,2) ul
    by (simp add: div_busy_def fn_single_div_def)
  moreover have "single_step_div stages d = Some (d\<lparr>partial := word_cat u l, rg_count := c + 1\<rparr>)"
    using assms ul by (simp add: single_step_div_def div_busy_def)
  ultimately show ?thesis using assms(1) by (auto simp: div_busy_def partial_parts d)
qed

lemma single_step_finish:
  assumes "div_busy stages op1 op2 d0 (stages + 1) d" and "op2 \<noteq> 0" and "2 \<le> stages"
  shows "\<exists>d'. single_step_div stages d = Some d' \<and> rg_count d' = 0 \<and> rg_valid d' \<and> rg_result d' = div_finish d"
  using assms by (auto simp: single_step_div_def div_busy_def div_finish_def Let_def split: prod.split)

lemma busy_cycles:
  assumes "div_busy stages op1 op2 d0 1 d" and "op2 \<noteq> 0" and "stages dvd 64" "2 \<le> stages"
  shows "n \<le> stages \<Longrightarrow> \<exists>d'. div_cycles stages n d = Some d' \<and> div_busy stages op1 op2 d0 (n + 1) d'"
proof (induction n)
  case (Suc n)
  then obtain d' where "div_cycles stages n d = Some d'" "div_busy stages op1 op2 d0 (n + 1) d'" by auto
  then show ?case using single_step_busy [of stages op1 op2 d0 "n + 1" d'] assms(2-4) Suc.prems by simp
qed (use assms(1) in simp)

lemma ma_inputs_busy:
  assumes "fn_fix_inputs in1 in2 funct3 wordop = (op1, op2, complement, sign1)" and "div_mv_ready d" and "2 \<le> stages"
  shows "div_busy stages op1 op2 (div_ma_inputs stages in1 in2 funct3 wordop d) 1 (div_ma_inputs stages in1 in2 funct3 wordop d)"
proof -
  let ?d = "div_ma_inputs stages in1 in2 funct3 wordop d"
  have "(ucast (drop_bit 64 (ucast op1 :: 129 word)) :: 65 word) = 0" "(ucast (ucast op1 :: 129 word) :: u64) = op1"
    by (auto intro!: bit_word_eqI simp: bit_ucast_iff bit_drop_bit_eq)
      (use bit_imp_le_length [of op1] in fastforce)+
  moreover have "?d = ?d\<lparr>partial := ucast op1, rg_count := 1\<rparr>"
    using assms by (simp add: div_ma_inputs_def div_mv_ready_def)
  then have "\<exists>p. ?d = ?d\<lparr>partial := p, rg_count := 1\<rparr>" ..
  ultimately show ?thesis
    using assms div_inv_init [of op1 op2] unfolding div_busy_def by (simp add: div_ma_inputs_def div_mv_ready_def)
qed

lemma zero_divisor_spec:
  assumes "div_operand funct3 wordop in2 = 0"
  shows "div_spec funct3 wordop in1 in2 = word_result wordop (if bit funct3 1 then in1 else - 1)"
proof -
  have "word_result wordop in1 = (let a = div_operand funct3 wordop in1 in
      if wordop then scast (word_of_int a :: u32) else word_of_int a)"
    by (simp add: word_result_def div_operand_def)
  then show ?thesis using assms word_result_int [of wordop "- 1"]
    by (cases wordop) (simp_all add: div_spec_def Let_def)
qed

text \<open>The last firing delivers the result.\<close>

definition div_done :: "u64 \<Rightarrow> divider \<Rightarrow> bool" where
  "div_done v d \<longleftrightarrow> rg_count d = 0 \<and> rg_valid d \<and> rg_result d = v"

lemma last_firing:
  fixes stages in1 in2 funct3 wordop d
  defines "d0 \<equiv> div_ma_inputs stages in1 in2 funct3 wordop d"
  assumes "bit funct3 2" and fixed: "fn_fix_inputs in1 in2 funct3 wordop = (op1, op2, complement, sign1)"
    and "div_mv_ready d" and "stages dvd 64" "2 \<le> stages"
    and "div_busy stages op1 op2 d0 (if op2 = 0 then 1 else stages + 1) e"
  shows "\<exists>e'. single_step_div stages e = Some e' \<and> div_done (div_spec funct3 wordop in1 in2) e'"
proof (cases "op2 = 0")
  case True
  then have "div_operand funct3 wordop in2 = 0"
    using fix_inputs_value(2) [OF assms(2) fixed] by simp
  then show ?thesis
    using assms(7) unfolding zero_divisor_spec [OF \<open>div_operand funct3 wordop in2 = 0\<close>] d0_def
    by (auto simp: single_step_div_def div_busy_def True div_ma_inputs_def fixed div_done_def split: prod.split)
next
  case False
  then have busy: "div_busy stages op1 op2 d0 (stages + 1) e" using assms(7) by simp
  obtain p where p: "e = d0\<lparr>partial := p, rg_count := stages + 1\<rparr>"
    using busy by (auto simp: div_busy_def)
  have "div_finish e = div_spec funct3 wordop in1 in2"
  proof (rule div_finish_spec [OF assms(2) fixed False])
    show "div_inv 64 op1 op2 (ucast (drop_bit 64 (partial e)), ucast (partial e))"
      using busy assms(5) by (simp add: div_busy_def)
  qed (simp_all add: p d0_def div_ma_inputs_def fixed)
  then show ?thesis using single_step_finish [OF busy False assms(6)] by (auto simp: div_done_def)
qed

text \<open>
  C19 (the divider). With \<open>DIVSTAGES\<close> a power of two from 2 to 64 and a division instruction
  given to a ready divider, the rule \<open>single_step_div\<close> fires once for a zero divisor and
  \<open>DIVSTAGES + 1\<close> times otherwise, one more than \<open>configure/schema.yaml\<close> says;
  meanwhile the divider is not ready and has no output. Then the
  output is the quotient or remainder that the M extension defines, signed or unsigned, of 64 or
  32 bits, division by zero and overflow included, and the divider is ready again.
\<close>

theorem divider_correct:
  fixes in1 in2 :: u64 and wordop :: bool
  assumes "stages = 2 ^ k" and "1 \<le> k" "k \<le> 6" and "bit funct3 2" and "div_mv_ready d"
  defines "n \<equiv> if div_operand funct3 wordop in2 = 0 then 1 else stages + 1"
  shows "(\<exists>d' d''. div_cycles stages n (div_ma_inputs stages in1 in2 funct3 wordop d) = Some d' \<and>
      div_mv_output d' = Some (div_spec funct3 wordop in1 in2, d'') \<and> div_mv_ready d'') \<and>
    (\<forall>m<n. \<exists>d'. div_cycles stages m (div_ma_inputs stages in1 in2 funct3 wordop d) = Some d' \<and>
      \<not> div_mv_ready d' \<and> div_mv_output d' = None)"
proof -
  obtain op1 op2 complement sign1 where fixed: "fn_fix_inputs in1 in2 funct3 wordop = (op1, op2, complement, sign1)"
    by (metis prod_cases4)
  let ?d = "div_ma_inputs stages in1 in2 funct3 wordop d"
  have "(2 :: nat) ^ k dvd 2 ^ 6" using assms(3) by (rule le_imp_power_dvd)
  then have s: "stages dvd 64" "2 \<le> stages"
    using assms(1) self_le_power [of 2 k] assms(2) by simp_all
  have zero: "div_operand funct3 wordop in2 = 0 \<longleftrightarrow> op2 = 0"
    using fix_inputs_value(2) [OF assms(4) fixed] uint_0_iff [of op2] by auto
  note busy = ma_inputs_busy [OF fixed assms(5) s(2)]
  have idle: "\<not> div_mv_ready e \<and> div_mv_output e = None" if "div_busy stages op1 op2 ?d c e" "1 \<le> c" for c e
    using that by (simp add: div_busy_def div_mv_ready_def div_mv_output_def)
  have run: "\<exists>e. div_cycles stages m ?d = Some e \<and> div_busy stages op1 op2 ?d (m + 1) e" if "m < n" for m
    using that busy busy_cycles [OF busy _ s] by (cases "op2 = 0") (simp_all add: n_def zero)
  obtain m where m: "n = Suc m" "m + 1 = (if op2 = 0 then 1 else stages + 1)"
    by (rule that [of "if op2 = 0 then 0 else stages"]) (simp_all add: n_def zero)
  obtain e where e: "div_cycles stages m ?d = Some e" "div_busy stages op1 op2 ?d (m + 1) e" using run m(1) by blast
  obtain e' where "single_step_div stages e = Some e'" "div_done (div_spec funct3 wordop in1 in2) e'"
    using last_firing [OF assms(4) fixed assms(5) s e(2) [unfolded m(2)]] by auto
  then have "div_cycles stages n ?d = Some e'" "div_done (div_spec funct3 wordop in1 in2) e'"
    using e(1) m(1) by simp_all
  then show ?thesis using run idle by (fastforce simp: div_done_def div_mv_output_def div_mv_ready_def)
qed

theorem divider_correct_witness:
  "\<exists>d' d''. div_cycles 32 33 (div_ma_inputs 32 (- 7) 2 4 False mkrestoring_div) = Some d' \<and>
    div_mv_output d' = Some (- 3, d'') \<and> div_mv_ready d''"
proof -
  have "div_spec 4 False (- 7) 2 = - 3" "div_operand 4 False 2 \<noteq> 0"
    by (simp_all add: div_spec_def div_operand_def signed_divide_int_def)
  moreover have "div_mv_ready mkrestoring_div" by (simp add: div_mv_ready_def mkrestoring_div_def)
  ultimately show ?thesis
    using divider_correct [of 32 5 4 mkrestoring_div False 2 "- 7"] by simp
qed

text \<open>
  \<open>DIVSTAGES = 1\<close> passes the source's two assertions, but leaves \<open>rg_count\<close> one bit: it wraps
  to 0 after one cycle, so a division by a nonzero number is forgotten.
\<close>

lemma one_stage_divider_stops:
  fixes in1 in2 :: u64 and wordop :: bool
  assumes "bit funct3 2" and "div_mv_ready d" and "div_operand funct3 wordop in2 \<noteq> 0"
  shows "\<exists>d'. div_cycles 1 1 (div_ma_inputs 1 in1 in2 funct3 wordop d) = Some d' \<and>
    div_mv_ready d' \<and> div_mv_output d' = None"
proof -
  let ?d = "div_ma_inputs 1 in1 in2 funct3 wordop d"
  obtain op1 op2 complement sign1 where fixed: "fn_fix_inputs in1 in2 funct3 wordop = (op1, op2, complement, sign1)"
    by (metis prod_cases4)
  have "op2 \<noteq> 0" using fix_inputs_value(2) [OF assms(1) fixed] assms(3) by auto
  moreover obtain x y where "fn_single_div 1 (ucast (drop_bit 64 (partial ?d))) (ucast (partial ?d)) (rg_op2 ?d) = (x, y)"
    by fastforce
  ultimately obtain u where u: "single_step_div 1 ?d = Some (?d\<lparr>partial := u, rg_count := 0\<rparr>)"
    using assms(2) that [of "word_cat x y"]
    by (simp add: single_step_div_def div_ma_inputs_def fixed div_mv_ready_def)
  then have "div_cycles 1 1 ?d = Some (?d\<lparr>partial := u, rg_count := 0\<rparr>)" by simp
  moreover have "div_mv_ready (?d\<lparr>partial := u, rg_count := 0\<rparr>)" "div_mv_output (?d\<lparr>partial := u, rg_count := 0\<rparr>) = None"
    using assms(2) by (simp_all add: div_ma_inputs_def fixed div_mv_ready_def div_mv_output_def)
  ultimately show ?thesis by blast
qed

subsection \<open>The divider as an execution unit\<close>

definition div_legal :: "m_request \<Rightarrow> bool" where
  "div_legal = (\<lambda>(in1, in2, funct3, wordop). bit funct3 2)"

definition div_put :: "nat \<Rightarrow> m_request \<Rightarrow> divider \<Rightarrow> divider" where
  "div_put stages = (\<lambda>(in1, in2, funct3, wordop). div_ma_inputs stages in1 in2 funct3 wordop)"

definition div_result :: "m_request \<Rightarrow> u64" where
  "div_result = (\<lambda>(in1, in2, funct3, wordop). div_spec funct3 wordop in1 in2)"

definition div_working :: "nat \<Rightarrow> u64 \<Rightarrow> divider \<Rightarrow> bool" where
  "div_working stages v d \<longleftrightarrow> (\<exists>in1 in2 funct3 wordop e op1 op2 complement sign1 c.
     bit funct3 2 \<and> div_mv_ready e \<and> fn_fix_inputs in1 in2 funct3 wordop = (op1, op2, complement, sign1) \<and>
     div_busy stages op1 op2 (div_ma_inputs stages in1 in2 funct3 wordop e) c d \<and>
     1 \<le> c \<and> c \<le> (if op2 = 0 then 1 else stages + 1) \<and> v = div_spec funct3 wordop in1 in2)"

definition div_owes :: "nat \<Rightarrow> divider \<Rightarrow> u64 list \<Rightarrow> bool" where
  "div_owes stages d vs \<longleftrightarrow>
     vs = [] \<and> div_mv_ready d \<or> (\<exists>v. vs = [v] \<and> (div_done v d \<or> div_working stages v d))"

definition div_work :: "nat \<Rightarrow> divider \<Rightarrow> nat" where
  "div_work stages d = (if rg_count d = 0 then 0 else stages + 2 - rg_count d)"

lemma div_workingI:
  "bit funct3 2 \<Longrightarrow> div_mv_ready e \<Longrightarrow> fn_fix_inputs in1 in2 funct3 wordop = (op1, op2, complement, sign1) \<Longrightarrow>
   div_busy stages op1 op2 (div_ma_inputs stages in1 in2 funct3 wordop e) c d \<Longrightarrow> 1 \<le> c \<Longrightarrow>
   c \<le> (if op2 = 0 then 1 else stages + 1) \<Longrightarrow> div_working stages (div_spec funct3 wordop in1 in2) d"
  unfolding div_working_def by blast

lemma working_fires:
  assumes "div_working stages v d" and "stages dvd 64" "2 \<le> stages"
  shows "\<exists>d'. single_step_div stages d = Some d' \<and> (div_done v d' \<or> div_working stages v d') \<and>
    div_work stages d' < div_work stages d"
proof -
  obtain in1 in2 funct3 wordop e op1 op2 complement sign1 c where
    w: "bit funct3 2" "div_mv_ready e" "fn_fix_inputs in1 in2 funct3 wordop = (op1, op2, complement, sign1)"
      "div_busy stages op1 op2 (div_ma_inputs stages in1 in2 funct3 wordop e) c d" "1 \<le> c"
      "c \<le> (if op2 = 0 then 1 else stages + 1)" "v = div_spec funct3 wordop in1 in2"
    using assms(1) unfolding div_working_def by blast
  have c: "rg_count d = c" using w(4) by (simp add: div_busy_def)
  show ?thesis
  proof (cases "c = (if op2 = 0 then 1 else stages + 1)")
    case True
    have "0 < div_work stages d" using w(5,6) by (auto simp: div_work_def c split: if_splits)
    then show ?thesis using last_firing [OF w(1,3,2) assms(2,3) w(4) [unfolded True]] w(5,7) c
      by (auto simp: div_done_def div_work_def)
  next
    case False
    then have "op2 \<noteq> 0" "c \<le> stages" using w(5,6) by (auto split: if_splits)
    from single_step_busy [OF w(4) this(1) w(5) this(2) assms(2,3)] obtain d' where
      d': "single_step_div stages d = Some d'"
        "div_busy stages op1 op2 (div_ma_inputs stages in1 in2 funct3 wordop e) (c + 1) d'" by auto
    have "div_working stages v d'"
      unfolding w(7) by (rule div_workingI [OF w(1-3) d'(2)]) (use \<open>op2 \<noteq> 0\<close> \<open>c \<le> stages\<close> in simp_all)
    moreover have "rg_count d' = c + 1" using d'(2) by (simp add: div_busy_def)
    ultimately show ?thesis using d'(1) w(5) \<open>c \<le> stages\<close> by (auto simp: div_work_def c)
  qed
qed

lemma idle_or_done_stuck:
  "div_mv_ready d \<Longrightarrow> single_step_div stages d = None" "div_done v d \<Longrightarrow> single_step_div stages d = None"
  by (simp_all add: single_step_div_def div_mv_ready_def div_done_def)

lemma working_no_output: "div_working stages v d \<Longrightarrow> div_mv_output d = None"
  by (auto simp: div_working_def div_busy_def div_mv_output_def)

lemma divider_unit:
  assumes "stages dvd 64" "2 \<le> stages"
  shows "execution_unit div_legal (\<lambda>_. div_mv_ready) (div_put stages) (\<lambda>d d'. single_step_div stages d = Some d')
    div_mv_output div_result (div_owes stages) (div_work stages)"
proof
  fix d d' v vs and q :: m_request
  assume o: "div_owes stages d vs"
  show "div_owes stages d' vs" "div_work stages d' < div_work stages d" if "single_step_div stages d = Some d'"
    using o that working_fires [of stages _ d, OF _ assms] idle_or_done_stuck(1) [of d] idle_or_done_stuck(2) [of _ d]
    by (fastforce simp: div_owes_def)+
  show "div_owes stages (div_put stages q d) (vs @ [div_result q])" if "div_legal q" "div_mv_ready d"
  proof -
    obtain in1 in2 funct3 wordop where q: "q = (in1, in2, funct3, wordop)" by (metis prod_cases4)
    obtain op1 op2 complement sign1 where fixed: "fn_fix_inputs in1 in2 funct3 wordop = (op1, op2, complement, sign1)"
      by (metis prod_cases4)
    have "div_working stages (div_result q) (div_put stages q d)"
      unfolding q div_put_def div_result_def prod.case
      by (rule div_workingI [OF _ that(2) fixed ma_inputs_busy [OF fixed that(2) assms(2)]])
        (use that(1) in \<open>simp_all add: q div_legal_def\<close>)
    moreover have "vs = []" using o that(2) working_fires [of stages _ d, OF _ assms] idle_or_done_stuck(1) [of d] idle_or_done_stuck(2) [of _ d]
      by (fastforce simp: div_owes_def div_done_def div_mv_ready_def)
    ultimately show ?thesis by (simp add: div_owes_def)
  qed
  show "\<exists>rest. vs = v # rest \<and> div_owes stages d' rest" "div_work stages d' \<le> div_work stages d"
    if "div_mv_output d = Some (v, d')"
    using o that working_no_output [of stages _ d]
    by (auto simp: div_owes_def div_mv_output_def div_done_def div_mv_ready_def div_work_def split: if_splits)
next
  fix d v vs
  assume "div_owes stages d (v # vs)" "div_mv_output d = None"
  then show "\<exists>d'. single_step_div stages d = Some d'"
    using working_fires [of stages v d, OF _ assms] by (auto simp: div_owes_def div_done_def div_mv_output_def)
qed

text \<open>The test programs are built with \<open>DIVSTAGES=32\<close>.\<close>

interpretation divider32: execution_unit div_legal "\<lambda>_. div_mv_ready" "div_put 32" "\<lambda>d d'. single_step_div 32 d = Some d'"
    div_mv_output div_result "div_owes 32" "div_work 32"
  by (rule divider_unit) simp_all

end
