(* ===== verification/MBox_Mul.thy ===== *)
theory MBox_Mul
  imports MBox_Contract
begin

section \<open>The multiplier of the M-box\<close>

text \<open>
  \<open>src/mbox/combo.bsv\<close> for RV64 with at least one register stage before and one behind the
  multiplication (\<open>MULSTAGES_IN\<close>, \<open>MULSTAGES_OUT\<close> positive). The multiplication itself,
  \<open>mksignedmul\<close>, is a package that is not part of the repository: a function \<open>smul\<close> from two
  65-bit words to a 130-bit word, whose documented behaviour is the signed product.

  A register stage with its one-place FIFO of valid bits is an \<open>option\<close>: None when the FIFO is
  empty. The FIFOs let a stage be emptied and filled in one cycle, which as a sequence of rules
  is the later stage's rule first.
\<close>

subsection \<open>State\<close>

record mul_stage =
  rg_op1 :: "65 word"
  rg_op2 :: "65 word"
  rg_fn3 :: "3 word"
  rg_wordop :: bool

record combo =
  inputs :: "mul_stage option list"
  outputs :: "u64 option list"

definition mkcombo_mul :: "nat \<Rightarrow> nat \<Rightarrow> combo" where
  "mkcombo_mul n_in n_out = \<lparr>inputs = replicate n_in None, outputs = replicate n_out None\<rparr>"

subsection \<open>Rules and methods\<close>

definition combo_product :: "(65 word \<Rightarrow> 65 word \<Rightarrow> 130 word) \<Rightarrow> mul_stage \<Rightarrow> u64" where
  "combo_product smul st =
     (let lv_upperbits = bit (rg_fn3 st) 1 \<or> bit (rg_fn3 st) 0;
          out = smul (rg_op1 st) (rg_op2 st);
          default_out = (if lv_upperbits then ucast (drop_bit 64 out) else ucast out) :: u64
      in if rg_wordop st then scast (ucast default_out :: u32) else default_out)"

text \<open>\<open>rl_move_inputs\<close> and \<open>rl_move_outputs\<close> for the stage \<open>i\<close>; None where the rule cannot fire\<close>

definition move_stage :: "nat \<Rightarrow> 'a option list \<Rightarrow> 'a option list option" where
  "move_stage i xs =
     (if 0 < i \<and> i < length xs \<and> xs ! i = None \<and> xs ! (i - 1) \<noteq> None
      then Some (xs[i := xs ! (i - 1), i - 1 := None]) else None)"

inductive combo_rule :: "(65 word \<Rightarrow> 65 word \<Rightarrow> 130 word) \<Rightarrow> combo \<Rightarrow> combo \<Rightarrow> bool" for smul where
  rl_move_inputs: "move_stage i (inputs c) = Some xs \<Longrightarrow> combo_rule smul c (c\<lparr>inputs := xs\<rparr>)"
| rl_perform_mul_0: "inputs c \<noteq> [] \<Longrightarrow> outputs c \<noteq> [] \<Longrightarrow> last (inputs c) = Some st \<Longrightarrow> outputs c ! 0 = None \<Longrightarrow>
    combo_rule smul c (c\<lparr>inputs := (inputs c)[length (inputs c) - 1 := None],
      outputs := (outputs c)[0 := Some (combo_product smul st)]\<rparr>)"
| rl_move_outputs: "move_stage i (outputs c) = Some xs \<Longrightarrow> combo_rule smul c (c\<lparr>outputs := xs\<rparr>)"

definition combo_ma_inputs :: "u64 \<Rightarrow> u64 \<Rightarrow> 3 word \<Rightarrow> bool \<Rightarrow> combo \<Rightarrow> combo" where
  "combo_ma_inputs in1 in2 funct3 wordop c =
     (let sign1 = (bit funct3 1 \<noteq> bit funct3 0);
          sign2 = (bit funct3 0 \<and> \<not> bit funct3 1);
          st = \<lparr>rg_op1 = word_cat (of_bool (sign1 \<and> bit in1 63) :: 1 word) in1,
                rg_op2 = word_cat (of_bool (sign2 \<and> bit in2 63) :: 1 word) in2,
                rg_fn3 = funct3, rg_wordop = wordop\<rparr>
      in c\<lparr>inputs := (inputs c)[0 := Some st]\<rparr>)"

definition combo_mv_ready :: "combo \<Rightarrow> bool" where
  "combo_mv_ready c \<longleftrightarrow> inputs c ! 0 = None"

definition combo_mv_output :: "combo \<Rightarrow> (u64 \<times> combo) option" where
  "combo_mv_output c =
     (case last (outputs c) of None \<Rightarrow> None
      | Some v \<Rightarrow> Some (v, c\<lparr>outputs := (outputs c)[length (outputs c) - 1 := None]\<rparr>))"

subsection \<open>The product\<close>

text \<open>MUL, MULH, MULHSU, MULHU and MULW of the M extension\<close>

definition mul_spec :: "3 word \<Rightarrow> bool \<Rightarrow> u64 \<Rightarrow> u64 \<Rightarrow> u64" where
  "mul_spec funct3 wordop in1 in2 =
     (if wordop then scast (word_of_int (sint (ucast in1 :: u32) * sint (ucast in2 :: u32)) :: u32)
      else if funct3 = 0 then word_of_int (sint in1 * sint in2)
      else if funct3 = 1 then word_of_int (sint in1 * sint in2 div 2 ^ 64)
      else if funct3 = 2 then word_of_int (sint in1 * uint in2 div 2 ^ 64)
      else word_of_int (uint in1 * uint in2 div 2 ^ 64))"

definition signed_product :: "(65 word \<Rightarrow> 65 word \<Rightarrow> 130 word) \<Rightarrow> bool" where
  "signed_product smul \<longleftrightarrow> (\<forall>a b. sint (smul a b) = sint a * sint b)"

lemma product_parts:
  "(ucast (word_of_int p :: 130 word) :: u64) = word_of_int p"
  "(ucast (drop_bit 64 (word_of_int p :: 130 word)) :: u64) = word_of_int (p div 2 ^ 64)"
  "(ucast (word_of_int p :: u64) :: u32) = word_of_int p"
  unfolding drop_bit_eq_div [symmetric]
  by (auto intro!: bit_word_eqI simp: bit_ucast_iff bit_of_int_iff bit_drop_bit_eq)

lemma combo_product_spec:
  assumes "signed_product smul" and "funct3 \<in> {0, 1, 2, 3}" and "wordop \<Longrightarrow> funct3 = 0"
    and "inputs c \<noteq> []" and st: "inputs (combo_ma_inputs in1 in2 funct3 wordop c) ! 0 = Some st"
  shows "combo_product smul st = mul_spec funct3 wordop in1 in2"
proof -
  let ?num1 = "if bit funct3 1 \<noteq> bit funct3 0 then sint in1 else uint in1"
  let ?num2 = "if bit funct3 0 \<and> \<not> bit funct3 1 then sint in2 else uint in2"
  have r: "sint (rg_op1 st) = ?num1" "sint (rg_op2 st) = ?num2" "rg_fn3 st = funct3" "rg_wordop st = wordop"
  proof -
    have "inputs (combo_ma_inputs in1 in2 funct3 wordop c) ! 0 = Some
        \<lparr>rg_op1 = word_cat (of_bool (bit funct3 1 \<noteq> bit funct3 0 \<and> bit in1 63) :: 1 word) in1,
         rg_op2 = word_cat (of_bool ((bit funct3 0 \<and> \<not> bit funct3 1) \<and> bit in2 63) :: 1 word) in2,
         rg_fn3 = funct3, rg_wordop = wordop\<rparr>"
      using assms(4) unfolding combo_ma_inputs_def Let_def by simp
    then have "st = \<lparr>rg_op1 = word_cat (of_bool (bit funct3 1 \<noteq> bit funct3 0 \<and> bit in1 63) :: 1 word) in1,
         rg_op2 = word_cat (of_bool ((bit funct3 0 \<and> \<not> bit funct3 1) \<and> bit in2 63) :: 1 word) in2,
         rg_fn3 = funct3, rg_wordop = wordop\<rparr>"
      unfolding st by (simp only: option.inject)
    then show "sint (rg_op1 st) = ?num1" "sint (rg_op2 st) = ?num2" "rg_fn3 st = funct3" "rg_wordop st = wordop"
      by (simp_all only: mul_stage.simps extended_operand)
  qed
  have out: "smul (rg_op1 st) (rg_op2 st) = word_of_int (?num1 * ?num2)"
    using arg_cong [OF assms(1) [unfolded signed_product_def, rule_format, of "rg_op1 st" "rg_op2 st"],
        of "word_of_int :: int \<Rightarrow> 130 word"]
    by (simp only: of_int_sint scast_id r(1,2))
  have low: "(word_of_int (uint in1 * uint in2) :: u64) = word_of_int (sint in1 * sint in2)"
    "(word_of_int (uint in1 * uint in2) :: u32) = word_of_int (sint (ucast in1 :: u32) * sint (ucast in2 :: u32))"
    "(word_of_int (sint in1 * sint in2) :: u32) = word_of_int (sint (ucast in1 :: u32) * sint (ucast in2 :: u32))"
  proof -
    have "(word_of_int (sint x) :: u32) = ucast x" for x :: u64
      by (rule bit_word_eqI) (simp add: bit_of_int_iff bit_sint_iff bit_ucast_iff del: of_int_sint)
    then show "(word_of_int (sint in1 * sint in2) :: u32) = word_of_int (sint (ucast in1 :: u32) * sint (ucast in2 :: u32))"
      by (simp only: of_int_mult) simp
  qed simp_all
  show ?thesis
    unfolding combo_product_def mul_spec_def Let_def out r
    using assms(2,3) by (auto simp: product_parts low simp del: of_int_mult)
qed

subsection \<open>Pipelines of options\<close>

text \<open>What the stages hold, the first stage first; the stages' distances to the end.\<close>

fun contents :: "'a option list \<Rightarrow> 'a list" where
  "contents [] = []"
| "contents (None # xs) = contents xs"
| "contents (Some x # xs) = x # contents xs"

fun distance :: "'a option list \<Rightarrow> nat" where
  "distance [] = 0"
| "distance (x # xs) = (if x = None then 0 else Suc (length xs)) + distance xs"

lemma contents_append [simp]: "contents (xs @ ys) = contents xs @ contents ys"
  by (induction xs rule: contents.induct) simp_all

lemma contents_replicate [simp]: "contents (replicate n None) = []"
  by (induction n) simp_all

lemma contents_empty: "contents xs = [] \<longleftrightarrow> (\<forall>x\<in>set xs. x = None)"
  by (induction xs rule: contents.induct) simp_all

lemma distance_append: "distance (xs @ ys) = distance xs + length (contents xs) * length ys + distance ys"
  by (induction xs rule: contents.induct) (simp_all add: algebra_simps)

lemma move_stage_split:
  assumes "move_stage i xs = Some ys"
  obtains as x bs where "xs = as @ Some x # None # bs" "ys = as @ None # Some x # bs"
proof -
  have i: "0 < i" "i < length xs" "xs ! i = None" "xs ! (i - 1) \<noteq> None" "ys = xs[i := xs ! (i - 1), i - 1 := None]"
    using assms by (auto simp: move_stage_def split: if_splits)
  obtain x where x: "xs ! (i - 1) = Some x" using i(4) by auto
  have split: "xs = take (i - 1) xs @ xs ! (i - 1) # xs ! i # drop (i + 1) xs"
    using i(1,2) id_take_nth_drop [of "i - 1" xs] Cons_nth_drop_Suc [of i xs] by simp
  have len: "length (take (i - 1) xs) = i - 1" using i(2) by simp
  have "\<not> i < i - 1" by simp
  have "ys = take (i - 1) xs @ None # Some x # drop (i + 1) xs"
    unfolding i(5) by (subst (1) split) (use i(1) len \<open>\<not> i < i - 1\<close> in \<open>simp add: x [simplified] list_update_append nth_append\<close>)
  then show thesis using that split i(3) x by metis
qed

lemma move_stage_contents:
  assumes "move_stage i xs = Some ys"
  shows "contents (rev ys) = contents (rev xs)" "contents ys = contents xs" "length ys = length xs" "distance ys < distance xs"
    "ys \<noteq> []"
  using assms by (auto elim!: move_stage_split simp: distance_append)

lemma can_move:
  assumes "contents xs \<noteq> []" and "last xs = None"
  shows "\<exists>i ys. move_stage i xs = Some ys"
proof -
  have "\<exists>i. 0 < i \<and> i < length xs \<and> xs ! i = None \<and> xs ! (i - 1) \<noteq> None"
    using assms
  proof (induction xs)
    case (Cons x xs)
    show ?case
    proof (cases "contents xs = []")
      case True
      then obtain v where "x = Some v" using Cons.prems(1) by (cases x) auto
      moreover have "xs \<noteq> []" using Cons.prems(2) calculation by (cases xs) auto
      moreover have "hd xs = None" using True \<open>xs \<noteq> []\<close> by (cases xs; cases "hd xs") auto
      ultimately show ?thesis by (intro exI [of _ 1]) (simp add: hd_conv_nth)
    next
      case False
      then have "last xs = None" using Cons.prems(2) by (cases xs) auto
      then obtain i where "0 < i" "i < length xs" "xs ! i = None" "xs ! (i - 1) \<noteq> None"
        using Cons.IH False by blast
      then show ?thesis by (intro exI [of _ "Suc i"]) (simp add: nth_Cons')
    qed
  qed simp
  then show ?thesis by (auto simp: move_stage_def)
qed

subsection \<open>The multiplier as an execution unit\<close>

definition mul_legal :: "m_request \<Rightarrow> bool" where
  "mul_legal = (\<lambda>(in1, in2, funct3, wordop). \<not> bit funct3 2 \<and> (wordop \<longrightarrow> funct3 = 0))"

definition mul_put :: "m_request \<Rightarrow> combo \<Rightarrow> combo" where
  "mul_put = (\<lambda>(in1, in2, funct3, wordop). combo_ma_inputs in1 in2 funct3 wordop)"

definition mul_result :: "m_request \<Rightarrow> u64" where
  "mul_result = (\<lambda>(in1, in2, funct3, wordop). mul_spec funct3 wordop in1 in2)"

definition combo_owes :: "(65 word \<Rightarrow> 65 word \<Rightarrow> 130 word) \<Rightarrow> combo \<Rightarrow> u64 list \<Rightarrow> bool" where
  "combo_owes smul c vs \<longleftrightarrow> inputs c \<noteq> [] \<and> outputs c \<noteq> [] \<and>
     vs = contents (rev (outputs c)) @ List.map (combo_product smul) (contents (rev (inputs c)))"

definition combo_work :: "combo \<Rightarrow> nat" where
  "combo_work c = distance (inputs c) + length (contents (inputs c)) * length (outputs c) + distance (outputs c)"

lemma multiplication_funct3: "\<not> bit f 2 \<Longrightarrow> f \<in> {0, 1, 2, 3}" for f :: "3 word"
proof (cases f)
  case (1 n)
  then have "n \<in> set [0..<8]" by simp
  moreover assume "\<not> bit f 2"
  ultimately show ?thesis using 1(1) by (auto simp: upt_rec)
qed

lemma at_last: "xs \<noteq> [] \<Longrightarrow> last xs = x \<Longrightarrow> \<exists>as. xs = as @ [x] \<and> (\<forall>y. xs[length xs - 1 := y] = as @ [y])"
  by (metis append_butlast_last_id length_append_singleton diff_Suc_1 list_update_length)

lemma at_first: "xs \<noteq> [] \<Longrightarrow> xs ! 0 = x \<Longrightarrow> \<exists>bs. xs = x # bs \<and> (\<forall>y. xs[0 := y] = y # bs)"
  by (cases xs) simp_all

lemma combo_rule_owes:
  assumes "combo_owes smul c vs" and "combo_rule smul c c'"
  shows "combo_owes smul c' vs \<and> combo_work c' < combo_work c"
  using assms(2,1)
proof cases
  case (rl_perform_mul_0 st)
  obtain as where as: "inputs c = as @ [Some st]" "(inputs c)[length (inputs c) - 1 := None] = as @ [None]"
    using at_last [OF rl_perform_mul_0(2,4)] by auto
  obtain bs where bs: "outputs c = None # bs"
      "(outputs c)[0 := Some (combo_product smul st)] = Some (combo_product smul st) # bs"
    using at_first [OF rl_perform_mul_0(3,5)] by auto
  show ?thesis
    using assms(1) unfolding rl_perform_mul_0(1) combo_owes_def combo_work_def
    by (simp add: as bs distance_append)
next
  case (rl_move_inputs i xs)
  then show ?thesis using assms(1) move_stage_contents [OF rl_move_inputs(2)]
    by (simp add: combo_owes_def combo_work_def)
next
  case (rl_move_outputs i xs)
  then show ?thesis using assms(1) move_stage_contents [OF rl_move_outputs(2)]
    by (simp add: combo_owes_def combo_work_def)
qed

lemma combo_put_owes:
  assumes "signed_product smul" and "combo_owes smul c vs" and "mul_legal q" and "combo_mv_ready c"
  shows "combo_owes smul (mul_put q c) (vs @ [mul_result q])"
proof -
  obtain in1 in2 funct3 wordop where q: "q = (in1, in2, funct3, wordop)" by (metis prod_cases4)
  have c: "inputs c \<noteq> []" "inputs c ! 0 = None" using assms(2,4) by (auto simp: combo_owes_def combo_mv_ready_def)
  then obtain bs where bs: "inputs c = None # bs" using at_first [OF c] by auto
  obtain st where st: "mul_put q c = c\<lparr>inputs := Some st # bs\<rparr>"
    by (simp add: q mul_put_def combo_ma_inputs_def Let_def bs)
  have "combo_product smul st = mul_result q"
    unfolding q mul_result_def prod.case
  proof (rule combo_product_spec [OF assms(1) _ _ c(1)])
    show "funct3 \<in> {0, 1, 2, 3}" "wordop \<Longrightarrow> funct3 = 0"
      using assms(3) multiplication_funct3 by (auto simp: q mul_legal_def)
    show "inputs (combo_ma_inputs in1 in2 funct3 wordop c) ! 0 = Some st"
      using st by (simp add: q mul_put_def)
  qed
  then show ?thesis using assms(2) by (simp add: combo_owes_def st bs)
qed

lemma combo_out_owes:
  assumes "combo_owes smul c vs" and "combo_mv_output c = Some (v, c')"
  shows "\<exists>rest. vs = v # rest \<and> combo_owes smul c' rest" and "combo_work c' \<le> combo_work c"
proof -
  have l: "outputs c \<noteq> []" "last (outputs c) = Some v"
    "c' = c\<lparr>outputs := (outputs c)[length (outputs c) - 1 := None]\<rparr>"
    using assms by (auto simp: combo_owes_def combo_mv_output_def split: option.splits)
  obtain as where "outputs c = as @ [Some v]" "c' = c\<lparr>outputs := as @ [None]\<rparr>"
    using at_last [OF l(1,2)] l(3) by auto
  then show "\<exists>rest. vs = v # rest \<and> combo_owes smul c' rest" "combo_work c' \<le> combo_work c"
    using assms(1) by (simp_all add: combo_owes_def combo_work_def distance_append)
qed

lemma combo_can_fire:
  assumes "combo_owes smul c (v # vs)" and "combo_mv_output c = None"
  shows "\<exists>c'. combo_rule smul c c'"
proof -
  have l: "inputs c \<noteq> []" "outputs c \<noteq> []" "last (outputs c) = None"
    using assms by (auto simp: combo_owes_def combo_mv_output_def split: option.splits)
  show ?thesis
  proof (cases "contents (outputs c) = []")
    case False
    then show ?thesis using can_move [OF _ l(3)] combo_rule.rl_move_outputs by blast
  next
    case True
    then have "contents (rev (outputs c)) = []" by (simp add: contents_empty)
    then have "contents (rev (inputs c)) \<noteq> []" using assms(1) by (auto simp: combo_owes_def)
    then have i: "contents (inputs c) \<noteq> []" by (simp add: contents_empty)
    show ?thesis
    proof (cases "last (inputs c)")
      case None
      then show ?thesis using can_move [OF i] combo_rule.rl_move_inputs by blast
    next
      case (Some st)
      have "outputs c ! 0 = None" using True l(2) by (simp add: contents_empty)
      then show ?thesis using combo_rule.rl_perform_mul_0 [OF l(1,2) Some] by blast
    qed
  qed
qed

lemma multiplier_unit:
  assumes "signed_product smul"
  shows "execution_unit mul_legal (\<lambda>_. combo_mv_ready) mul_put (combo_rule smul) combo_mv_output mul_result
    (combo_owes smul) combo_work"
  by unfold_locales
    (rule combo_put_owes [OF assms] combo_rule_owes [THEN conjunct1] combo_rule_owes [THEN conjunct2]
      combo_out_owes combo_can_fire; assumption)+

text \<open>The test programs are built with \<open>MULSTAGES=2\<close>; the product is the ideal one.\<close>

definition ideal_product :: "65 word \<Rightarrow> 65 word \<Rightarrow> 130 word" where
  "ideal_product a b = word_of_int (sint a * sint b)"

lemma ideal_product_signed: "signed_product ideal_product"
proof -
  have "sint (word_of_int (sint a * sint b) :: 130 word) = sint a * sint b" for a b :: "65 word"
  proof (rule sint_of_int)
    have "\<bar>sint a * sint b\<bar> \<le> 2 ^ 64 * 2 ^ 64"
      unfolding abs_mult using sint_bounds [of a] sint_bounds [of b] by (intro mult_mono) auto
    then show "- (2 ^ (LENGTH(130) - 1)) \<le> sint a * sint b" "sint a * sint b < 2 ^ (LENGTH(130) - 1)"
      by (simp_all add: abs_le_iff)
  qed
  then show ?thesis by (simp only: signed_product_def ideal_product_def) simp
qed

interpretation multiplier: execution_unit mul_legal "\<lambda>_. combo_mv_ready" mul_put "combo_rule ideal_product"
    combo_mv_output mul_result "combo_owes ideal_product" combo_work
  by (rule multiplier_unit) (rule ideal_product_signed)

end
