(* ===== verification/MBox.thy ===== *)
theory MBox
  imports MBox_Div MBox_Mul
begin

section \<open>The M-box\<close>

text \<open>
  \<open>src/mbox/mbox.bsv\<close>: the multiplier and the divider work at the same time, a FIFO
  \<open>ff_ordering\<close> remembers which unit got each request (True is the multiplier), and the rule
  \<open>rl_capture_output\<close> moves the results to the output FIFO in that order. The output port
  comes from the package \<open>TxRx\<close>, which is not part of the repository; it is taken to be a guarded
  FIFO with room for \<open>out_depth\<close> results. The rule \<open>rl_fifo_full\<close> holds two \<open>dynamicAssert\<close>s
  and changes no state; it has no counterpart here.
\<close>

record MBoxIn =
  wordop :: bool
  in1 :: u64
  in2 :: u64
  funct3 :: "3 word"

record mbox =
  mul_unit :: combo
  div_unit :: divider
  ff_ordering :: "bool list"
  tx_mbox_out :: "u64 list"

definition mkmbox :: "nat \<Rightarrow> nat \<Rightarrow> mbox" where
  "mkmbox n_in n_out =
     \<lparr>mul_unit = mkcombo_mul n_in n_out, div_unit = mkrestoring_div, ff_ordering = [], tx_mbox_out = []\<rparr>"

subsection \<open>Rules and methods\<close>

inductive mbox_rule :: "(65 word \<Rightarrow> 65 word \<Rightarrow> 130 word) \<Rightarrow> nat \<Rightarrow> nat \<Rightarrow> mbox \<Rightarrow> mbox \<Rightarrow> bool"
  for smul stages out_depth where
  mul_rule: "combo_rule smul (mul_unit s) m \<Longrightarrow> mbox_rule smul stages out_depth s (s\<lparr>mul_unit := m\<rparr>)"
| div_rule: "single_step_div stages (div_unit s) = Some d \<Longrightarrow> mbox_rule smul stages out_depth s (s\<lparr>div_unit := d\<rparr>)"
| capture_mul: "ff_ordering s = True # rest \<Longrightarrow> combo_mv_output (mul_unit s) = Some (x, m) \<Longrightarrow>
    length (tx_mbox_out s) < out_depth \<Longrightarrow> mbox_rule smul stages out_depth s
      (s\<lparr>mul_unit := m, tx_mbox_out := tx_mbox_out s @ [x], ff_ordering := rest\<rparr>)"
| capture_div: "ff_ordering s = False # rest \<Longrightarrow> div_mv_output (div_unit s) = Some (x, d) \<Longrightarrow>
    length (tx_mbox_out s) < out_depth \<Longrightarrow> mbox_rule smul stages out_depth s
      (s\<lparr>div_unit := d, tx_mbox_out := tx_mbox_out s @ [x], ff_ordering := rest\<rparr>)"

definition mbox_ma_inputs :: "nat \<Rightarrow> MBoxIn \<Rightarrow> mbox \<Rightarrow> mbox" where
  "mbox_ma_inputs stages q s =
     (if \<not> bit (funct3 q) 2
      then s\<lparr>mul_unit := combo_ma_inputs (in1 q) (in2 q) (funct3 q) (wordop q) (mul_unit s),
             ff_ordering := ff_ordering s @ [True]\<rparr>
      else s\<lparr>ff_ordering := ff_ordering s @ [False],
             div_unit := div_ma_inputs stages (in1 q) (in2 q) (funct3 q) (wordop q) (div_unit s)\<rparr>)"

text \<open>\<open>mv_ready\<close> has one flag for each kind of request; \<open>depth\<close> is the size of \<open>ff_ordering\<close>.\<close>

definition mbox_mv_ready :: "nat \<Rightarrow> MBoxIn \<Rightarrow> mbox \<Rightarrow> bool" where
  "mbox_mv_ready depth q s \<longleftrightarrow>
     (if \<not> bit (funct3 q) 2 then combo_mv_ready (mul_unit s) else div_mv_ready (div_unit s)) \<and>
     length (ff_ordering s) < depth"

definition mbox_output :: "mbox \<Rightarrow> (u64 \<times> mbox) option" where
  "mbox_output s = (case tx_mbox_out s of [] \<Rightarrow> None | x # xs \<Rightarrow> Some (x, s\<lparr>tx_mbox_out := xs\<rparr>))"

subsection \<open>What it promises\<close>

definition mbox_legal :: "MBoxIn \<Rightarrow> bool" where
  "mbox_legal q \<longleftrightarrow> (wordop q \<and> \<not> bit (funct3 q) 2 \<longrightarrow> funct3 q = 0)"

definition mbox_result :: "MBoxIn \<Rightarrow> u64" where
  "mbox_result q = (if bit (funct3 q) 2 then div_spec (funct3 q) (wordop q) (in1 q) (in2 q)
     else mul_spec (funct3 q) (wordop q) (in1 q) (in2 q))"

fun interleaved :: "bool list \<Rightarrow> 'a list \<Rightarrow> 'a list \<Rightarrow> 'a list \<Rightarrow> bool" where
  "interleaved [] ms ds vs \<longleftrightarrow> ms = [] \<and> ds = [] \<and> vs = []"
| "interleaved (True # os) ms ds vs \<longleftrightarrow> (\<exists>m ms' vs'. ms = m # ms' \<and> vs = m # vs' \<and> interleaved os ms' ds vs')"
| "interleaved (False # os) ms ds vs \<longleftrightarrow> (\<exists>d ds' vs'. ds = d # ds' \<and> vs = d # vs' \<and> interleaved os ms ds' vs')"

lemma interleaved_snoc:
  "interleaved os ms ds vs \<Longrightarrow> interleaved (os @ [True]) (ms @ [v]) ds (vs @ [v])"
  "interleaved os ms ds vs \<Longrightarrow> interleaved (os @ [False]) ms (ds @ [v]) (vs @ [v])"
  by (induction os ms ds vs rule: interleaved.induct) auto

definition mbox_owes :: "(65 word \<Rightarrow> 65 word \<Rightarrow> 130 word) \<Rightarrow> nat \<Rightarrow> mbox \<Rightarrow> u64 list \<Rightarrow> bool" where
  "mbox_owes smul stages s vs \<longleftrightarrow> (\<exists>ms ds rest. combo_owes smul (mul_unit s) ms \<and> div_owes stages (div_unit s) ds \<and>
     interleaved (ff_ordering s) ms ds rest \<and> vs = tx_mbox_out s @ rest)"

definition mbox_work :: "nat \<Rightarrow> mbox \<Rightarrow> nat" where
  "mbox_work stages s = combo_work (mul_unit s) + div_work stages (div_unit s) + length (ff_ordering s)"

lemma mbox_owesE:
  assumes "mbox_owes smul stages s vs"
  obtains ms ds rest where "combo_owes smul (mul_unit s) ms" "div_owes stages (div_unit s) ds"
    "interleaved (ff_ordering s) ms ds rest" "vs = tx_mbox_out s @ rest"
  using assms unfolding mbox_owes_def by blast

text \<open>The M-box keeps its promise because its two units keep theirs.\<close>

lemma mbox_rule_owes:
  assumes "signed_product smul" and "stages dvd 64" "2 \<le> stages"
    and "mbox_owes smul stages s vs" and "mbox_rule smul stages out_depth s s'"
  shows "mbox_owes smul stages s' vs \<and> mbox_work stages s' < mbox_work stages s"
proof -
  note M = multiplier_unit [OF assms(1)] and D = divider_unit [OF assms(2,3)]
  obtain ms ds rest where o: "combo_owes smul (mul_unit s) ms" "div_owes stages (div_unit s) ds"
    "interleaved (ff_ordering s) ms ds rest" "vs = tx_mbox_out s @ rest"
    using assms(4) by (rule mbox_owesE)
  from assms(5) show ?thesis
  proof cases
    case (mul_rule m)
    then show ?thesis
      using o execution_unit.rule_owes [OF M o(1) mul_rule(2)] execution_unit.rule_work [OF M o(1) mul_rule(2)]
      by (auto simp: mbox_owes_def mbox_work_def)
  next
    case (div_rule d)
    then show ?thesis
      using o execution_unit.rule_owes [OF D o(2) div_rule(2)] execution_unit.rule_work [OF D o(2) div_rule(2)]
      by (auto simp: mbox_owes_def mbox_work_def)
  next
    case (capture_mul os x m)
    then obtain ms' rest' where "ms = x # ms'" "combo_owes smul m ms'" "rest = x # rest'" "interleaved os ms' ds rest'"
      using execution_unit.out_owes [OF M o(1) capture_mul(3)] o(3) by auto
    then show ?thesis using o capture_mul execution_unit.out_work [OF M o(1) capture_mul(3)]
      by (auto simp: mbox_owes_def mbox_work_def)
  next
    case (capture_div os x d)
    then obtain ds' rest' where "ds = x # ds'" "div_owes stages d ds'" "rest = x # rest'" "interleaved os ms ds' rest'"
      using execution_unit.out_owes [OF D o(2) capture_div(3)] o(3) by auto
    then show ?thesis using o capture_div execution_unit.out_work [OF D o(2) capture_div(3)]
      by (auto simp: mbox_owes_def mbox_work_def)
  qed
qed

lemma mbox_put_owes:
  assumes "signed_product smul" and "stages dvd 64" "2 \<le> stages"
    and "mbox_owes smul stages s vs" and "mbox_legal q" and "mbox_mv_ready depth q s"
  shows "mbox_owes smul stages (mbox_ma_inputs stages q s) (vs @ [mbox_result q])"
proof -
  note M = multiplier_unit [OF assms(1)] and D = divider_unit [OF assms(2,3)]
  obtain ms ds rest where o: "combo_owes smul (mul_unit s) ms" "div_owes stages (div_unit s) ds"
    "interleaved (ff_ordering s) ms ds rest" "vs = tx_mbox_out s @ rest"
    using assms(4) by (rule mbox_owesE)
  let ?r = "(in1 q, in2 q, funct3 q, wordop q)"
  show ?thesis
  proof (cases "bit (funct3 q) 2")
    case True
    have "div_owes stages (div_put stages ?r (div_unit s)) (ds @ [div_result ?r])"
      using assms(5,6) True by (intro execution_unit.put_owes [OF D o(2)]) (simp_all add: div_legal_def mbox_mv_ready_def)
    then show ?thesis using o(1,4) interleaved_snoc(2) [OF o(3), of "mbox_result q"] True
      by (auto simp: mbox_owes_def mbox_ma_inputs_def div_put_def div_result_def mbox_result_def)
  next
    case False
    have "combo_owes smul (mul_put ?r (mul_unit s)) (ms @ [mul_result ?r])"
      using assms(5,6) False
      by (intro execution_unit.put_owes [OF M o(1)]) (simp_all add: mul_legal_def mbox_mv_ready_def mbox_legal_def)
    then show ?thesis using o(2,4) interleaved_snoc(1) [OF o(3), of "mbox_result q"] False
      by (auto simp: mbox_owes_def mbox_ma_inputs_def mul_put_def mul_result_def mbox_result_def)
  qed
qed

lemma mbox_can_fire:
  assumes "signed_product smul" and "stages dvd 64" "2 \<le> stages" and "0 < out_depth"
    and "mbox_owes smul stages s (v # vs)" and "mbox_output s = None"
  shows "\<exists>s'. mbox_rule smul stages out_depth s s'"
proof -
  note M = multiplier_unit [OF assms(1)] and D = divider_unit [OF assms(2,3)]
  obtain ms ds rest where o: "combo_owes smul (mul_unit s) ms" "div_owes stages (div_unit s) ds"
    "interleaved (ff_ordering s) ms ds rest" "v # vs = tx_mbox_out s @ rest"
    using assms(5) by (rule mbox_owesE)
  have tx: "tx_mbox_out s = []" using assms(6) by (simp add: mbox_output_def split: list.splits)
  then have rest: "rest = v # vs" using o(4) by simp
  then obtain b os where order: "ff_ordering s = b # os" using o(3) by (cases "ff_ordering s") auto
  show ?thesis
  proof (cases b)
    case True
    then obtain ms' where ms: "ms = v # ms'" using o(3) order rest by auto
    show ?thesis
    proof (cases "combo_mv_output (mul_unit s)")
      case None
      then show ?thesis using execution_unit.can_fire [OF M o(1) [unfolded ms]] mbox_rule.mul_rule by blast
    next
      case (Some p)
      then show ?thesis using order True tx assms(4) mbox_rule.capture_mul [of s os "fst p" "snd p"] by auto
    qed
  next
    case False
    then obtain ds' where ds: "ds = v # ds'" using o(3) order rest by auto
    show ?thesis
    proof (cases "div_mv_output (div_unit s)")
      case None
      then show ?thesis using execution_unit.can_fire [OF D o(2) [unfolded ds]] mbox_rule.div_rule by blast
    next
      case (Some p)
      then show ?thesis using order False tx assms(4) mbox_rule.capture_div [of s os "fst p" "snd p"] by auto
    qed
  qed
qed

lemma mbox_out_owes:
  assumes "mbox_owes smul stages s vs" and "mbox_output s = Some (v, s')"
  shows "\<exists>rest. vs = v # rest \<and> mbox_owes smul stages s' rest" "mbox_work stages s' \<le> mbox_work stages s"
  using assms by (fastforce simp: mbox_owes_def mbox_output_def mbox_work_def split: list.splits)+

lemma mbox_unit:
  assumes "signed_product smul" and "stages dvd 64" "2 \<le> stages" and "0 < out_depth"
  shows "execution_unit mbox_legal (mbox_mv_ready depth) (mbox_ma_inputs stages) (mbox_rule smul stages out_depth)
    mbox_output mbox_result (mbox_owes smul stages) (mbox_work stages)"
  by unfold_locales
    (rule mbox_put_owes [OF assms(1-3)] mbox_rule_owes [OF assms(1-3), THEN conjunct1]
      mbox_rule_owes [OF assms(1-3), THEN conjunct2] mbox_out_owes mbox_can_fire [OF assms]; assumption)+

lemma mbox_initial:
  assumes "0 < n_in" "0 < n_out"
  shows "mbox_owes smul stages (mkmbox n_in n_out) []"
  using assms by (simp add: mbox_owes_def mkmbox_def combo_owes_def mkcombo_mul_def div_owes_def
      div_mv_ready_def mkrestoring_div_def)

text \<open>
  The configuration that the tests are built for (\<open>MULSTAGES=2\<close>, \<open>DIVSTAGES=32\<close>).
\<close>

interpretation mbox_default: execution_unit mbox_legal "mbox_mv_ready 2" "mbox_ma_inputs 32"
    "mbox_rule ideal_product 32 1" mbox_output mbox_result "mbox_owes ideal_product 32" "mbox_work 32"
  by (rule mbox_unit) (simp_all add: ideal_product_signed)

subsection \<open>Properties\<close>

text \<open>
  C20 (results in order). Whatever order the rules of the M-box, of the multiplier's pipeline and
  of the divider fire in, and whenever the environment gives requests and takes results, the
  results taken are, in order, the results that the M extension defines for the requests given.
\<close>

theorem mbox_in_order:
  assumes "signed_product smul" and "stages dvd 64" "2 \<le> stages" and "0 < n_in" "0 < n_out" "0 < out_depth"
    and "serves mbox_legal (mbox_mv_ready depth) (mbox_ma_inputs stages) (mbox_rule smul stages out_depth)
      mbox_output (mkmbox n_in n_out) s qs vs"
  shows "vs = List.map mbox_result (take (length vs) qs)"
proof -
  obtain rest where "List.map mbox_result qs = vs @ rest"
    using execution_unit.serves_owes [OF mbox_unit [OF assms(1-3,6)] assms(7) mbox_initial [OF assms(4,5)]] by blast
  then show ?thesis by (metis append_eq_conv_conj take_map)
qed

text \<open>
  C21 (every request is answered). In any state that the environment can bring the M-box to, if
  fewer results have been taken than requests given, then some sequence of at most \<open>mbox_work\<close>
  firings makes the next result available, it is the right one, and no sequence of firings is
  longer than that: the M-box never gets stuck and never runs on.
\<close>

theorem mbox_answers:
  assumes "signed_product smul" and "stages dvd 64" "2 \<le> stages" and "0 < n_in" "0 < n_out" "0 < out_depth"
    and "serves mbox_legal (mbox_mv_ready depth) (mbox_ma_inputs stages) (mbox_rule smul stages out_depth)
      mbox_output (mkmbox n_in n_out) s qs vs"
    and "length vs < length qs"
  shows "(\<exists>n t t'. n \<le> mbox_work stages s \<and> (mbox_rule smul stages out_depth ^^ n) s t \<and>
      mbox_output t = Some (mbox_result (qs ! length vs), t')) \<and>
    (\<forall>n t. (mbox_rule smul stages out_depth ^^ n) s t \<longrightarrow> n \<le> mbox_work stages s)"
proof -
  note unit = mbox_unit [OF assms(1-3,6), of depth]
  obtain rest where rest: "mbox_owes smul stages s rest" "List.map mbox_result qs = vs @ rest"
    using execution_unit.serves_owes [OF unit assms(7) mbox_initial [OF assms(4,5)]] by blast
  have "rest \<noteq> []" using arg_cong [OF rest(2), of length] assms(8) by auto
  then obtain v vs' where v: "rest = v # vs'" by (cases rest) auto
  have "v = mbox_result (qs ! length vs)"
    using arg_cong [OF rest(2), of "\<lambda>l. l ! length vs"] assms(8) v by simp
  moreover have "n \<le> mbox_work stages s" if "(mbox_rule smul stages out_depth ^^ n) s t" for n t
    using execution_unit.firings_bounded [OF unit that rest(1)] by simp
  ultimately show ?thesis
    using execution_unit.delivers [OF unit rest(1) [unfolded v]] by blast
qed

text \<open>A concrete run: one signed division, -7 by 2.\<close>

abbreviation div_request :: MBoxIn where
  "div_request \<equiv> \<lparr>wordop = False, in1 = - 7, in2 = 2, funct3 = 4\<rparr>"

abbreviation default_serves :: "mbox \<Rightarrow> MBoxIn list \<Rightarrow> u64 list \<Rightarrow> bool" where
  "default_serves \<equiv> serves mbox_legal (mbox_mv_ready 2) (mbox_ma_inputs 32) (mbox_rule ideal_product 32 1)
     mbox_output (mkmbox 1 1)"

lemma div_request_result: "mbox_result div_request = - 3"
  by (simp add: mbox_result_def div_spec_def div_operand_def signed_divide_int_def)

lemma one_request: "default_serves (mbox_ma_inputs 32 div_request (mkmbox 1 1)) [div_request] []"
  using serves.give [OF serves.start, of mbox_legal div_request
      "mbox_mv_ready 2" "mkmbox 1 1" "mbox_ma_inputs 32" "mbox_rule ideal_product 32 1" mbox_output]
  by (simp add: mbox_legal_def mbox_mv_ready_def mkmbox_def mkrestoring_div_def div_mv_ready_def)

lemma one_answer: "\<exists>s. default_serves s [div_request] [- 3]"
proof -
  have "mbox_owes ideal_product 32 (mbox_ma_inputs 32 div_request (mkmbox 1 1)) [- 3]"
    using mbox_default.serves_owes [OF one_request mbox_initial] by (simp add: div_request_result)
  from mbox_default.delivers [OF this] obtain n t t' where
    t: "(mbox_rule ideal_product 32 1 ^^ n) (mbox_ma_inputs 32 div_request (mkmbox 1 1)) t"
      "mbox_output t = Some (- 3, t')" by blast
  from serves.fetch [OF serves_relpowp [OF t(1) one_request] t(2)] show ?thesis by auto
qed

theorem mbox_answers_witness:
  "\<exists>n t t'. (mbox_rule ideal_product 32 1 ^^ n) (mbox_ma_inputs 32 div_request (mkmbox 1 1)) t \<and>
    mbox_output t = Some (- 3, t')"
proof -
  have "\<exists>n t t'. n \<le> mbox_work 32 (mbox_ma_inputs 32 div_request (mkmbox 1 1)) \<and>
      (mbox_rule ideal_product 32 1 ^^ n) (mbox_ma_inputs 32 div_request (mkmbox 1 1)) t \<and>
      mbox_output t = Some (mbox_result ([div_request] ! length ([] :: u64 list)), t')"
    by (rule conjunct1 [OF mbox_answers [OF ideal_product_signed _ _ _ _ _ one_request]]) simp_all
  then show ?thesis by (simp only: list.size nth_Cons_0 div_request_result) blast
qed

theorem mbox_in_order_witness:
  "\<exists>s. default_serves s [div_request] [- 3] \<and> [- 3] = List.map mbox_result [div_request]"
proof -
  obtain s where s: "default_serves s [div_request] [- 3]" using one_answer by blast
  have "[- 3] = List.map mbox_result (take (length [- 3 :: u64]) [div_request])"
    by (rule mbox_in_order [OF ideal_product_signed _ _ _ _ _ s]) simp_all
  with s show ?thesis by (intro exI [of _ s] conjI) simp_all
qed

end
