(* ===== verification/Base_ALU.thy ===== *)
theory Base_ALU
  imports Prelude
begin

section \<open>The base ALU of the core\<close>

text \<open>
  \<open>src/base_alu.bsv\<close> for RV64, with the function codes of \<open>src/decoder.defines\<close> and the part of
  \<open>rl_exe_base_arith\<close> in \<open>src/stage3.bsv\<close> that uses it. \<open>Bit#(1)\<close> is \<open>bool\<close>. The specification is
  the arithmetic of the base instruction set on words of any length.
\<close>

abbreviation FNADD :: "4 word" where "FNADD \<equiv> 0"
abbreviation FNSL :: "4 word" where "FNSL \<equiv> 1"
abbreviation FNSEQ :: "4 word" where "FNSEQ \<equiv> 2"
abbreviation FNSNE :: "4 word" where "FNSNE \<equiv> 3"
abbreviation FNXOR :: "4 word" where "FNXOR \<equiv> 4"
abbreviation FNSR :: "4 word" where "FNSR \<equiv> 5"
abbreviation FNOR :: "4 word" where "FNOR \<equiv> 6"
abbreviation FNAND :: "4 word" where "FNAND \<equiv> 7"
abbreviation FNSUB :: "4 word" where "FNSUB \<equiv> 10"
abbreviation FNSRA :: "4 word" where "FNSRA \<equiv> 11"
abbreviation FNSLT :: "4 word" where "FNSLT \<equiv> 12"
abbreviation FNSGE :: "4 word" where "FNSGE \<equiv> 13"
abbreviation FNSLTU :: "4 word" where "FNSLTU \<equiv> 14"
abbreviation FNSGEU :: "4 word" where "FNSGEU \<equiv> 15"

subsection \<open>The functions\<close>

definition fn_bru2 :: "u64 \<Rightarrow> u64 \<Rightarrow> 4 word \<Rightarrow> bool" where
  "fn_bru2 op1 op2 fn =
     (let inv = (if bit fn 3 then - 1 else 0 :: u64);
          inv_op2 = op2 XOR inv;
          op1_xor_op2 = op1 XOR inv_op2;
          adder_output = op1 + inv_op2 + of_bool (bit fn 3)
      in bit fn 0 \<noteq>
         (if \<not> bit fn 3 then op1_xor_op2 = 0
          else if bit op1 63 = bit op2 63 then bit adder_output 63
          else if bit fn 1 then bit op2 63 else bit op1 63))"

text \<open>\<open>unpack({sign & op[63], op})\<close>, the operand as an \<open>Int#(65)\<close>\<close>

definition signed_operand :: "bool \<Rightarrow> u64 \<Rightarrow> 65 word" where
  "signed_operand sign op = word_cat (of_bool (sign \<and> bit op 63) :: 1 word) op"

definition fn_bru :: "u64 \<Rightarrow> u64 \<Rightarrow> 4 word \<Rightarrow> bool" where
  "fn_bru op1 op2 fn =
     (let op1_xor_op2 = op1 XOR op2;
          sign = \<not> bit fn 1;
          adder_z_flag = op1_xor_op2 = 0;
          less = signed_operand sign op1 <s signed_operand sign op2
      in if fn = FNSEQ then adder_z_flag
         else if fn = FNSNE then \<not> adder_z_flag
         else if fn = FNSLT \<or> fn = FNSLTU then less
         else \<not> less)"

definition fn_add :: "u64 \<Rightarrow> u64 \<Rightarrow> bool \<Rightarrow> u64" where
  "fn_add op1 op2 sub =
     (let inv = (if sub then - 1 else 0 :: 65 word);
          inv_op2 = word_cat op2 (0 :: 1 word) XOR inv
      in ucast (drop_bit 1 (word_cat op1 (1 :: 1 word) + inv_op2)))"

definition fn_compare :: "u64 \<Rightarrow> u64 \<Rightarrow> 4 word \<Rightarrow> bool" where
  "fn_compare op1 op2 fn = (let sign = \<not> bit fn 1 in signed_operand sign op1 <s signed_operand sign op2)"

definition fn_shift :: "u64 \<Rightarrow> 6 word \<Rightarrow> 4 word \<Rightarrow> bool \<Rightarrow> u64" where
  "fn_shift op1 op2 fn wordop =
     (let shift_amt = word_cat (of_bool (\<not> wordop \<and> bit op2 5) :: 1 word) (ucast op2 :: 5 word) :: 6 word;
          upper_bits = (if wordop then if bit fn 3 \<and> bit op1 31 then - 1 else 0 else ucast (drop_bit 32 op1)) :: u32;
          shift_inright = word_cat upper_bits (ucast op1 :: u32) :: u64;
          shin = (if fn = FNSR \<or> fn = FNSRA then shift_inright else word_reverse shift_inright);
          t = word_cat (of_bool (bit fn 3 \<and> bit shin 63) :: 1 word) shin :: 65 word;
          shift_r = ucast (signed_drop_bit (unat shift_amt) t) :: u64;
          shift_l = word_reverse shift_r
      in if fn = FNSR \<or> fn = FNSRA then shift_r else shift_l)"

definition fn_logic :: "u64 \<Rightarrow> u64 \<Rightarrow> 4 word \<Rightarrow> u64 \<Rightarrow> u64" where
  "fn_logic op1 op2 fn op1_xor_op2 =
     (if fn = FNOR then op1 OR op2 else if fn = FNAND then op1 AND op2 else op1_xor_op2)"

definition fn_base_alu :: "u64 \<Rightarrow> u64 \<Rightarrow> 4 word \<Rightarrow> u64 \<Rightarrow> bool \<Rightarrow> bool \<Rightarrow> u64" where
  "fn_base_alu op1 op2 fn pc op1pc wordop =
     (let op1_xor_op2 = op1 XOR op2;
          lv_add = fn_add (if op1pc then pc else op1) op2 (bit fn 1);
          less = fn_compare op1 op2 fn;
          lv_shiftout = fn_shift op1 (ucast op2) fn wordop;
          lv_logic = fn_logic op1 op2 fn op1_xor_op2
      in if fn = FNADD \<or> fn = FNSUB then lv_add
         else if fn = FNSLT \<or> fn = FNSLTU then of_bool less
         else if fn = FNSR \<or> fn = FNSRA \<or> fn = FNSL then lv_shiftout
         else lv_logic)"

text \<open>\<open>alu_result\<close> of \<open>rl_exe_base_arith\<close>: the result of a 32-bit operation is sign-extended.\<close>

definition alu_result :: "u64 \<Rightarrow> u64 \<Rightarrow> 4 word \<Rightarrow> u64 \<Rightarrow> bool \<Rightarrow> bool \<Rightarrow> u64" where
  "alu_result op1 op2 fn pc op1pc word32 =
     (let r = fn_base_alu op1 op2 fn pc op1pc word32
      in if word32 then scast (ucast r :: u32) else r)"

subsection \<open>What they compute\<close>

datatype alu_op = ADD | SUB | SLL | SLT | SLTU | XORop | SRL | SRA | ORop | ANDop

primrec alu_fn :: "alu_op \<Rightarrow> 4 word" where
  "alu_fn ADD = FNADD" | "alu_fn SUB = FNSUB" | "alu_fn SLL = FNSL" | "alu_fn SLT = FNSLT" | "alu_fn SLTU = FNSLTU"
| "alu_fn XORop = FNXOR" | "alu_fn SRL = FNSR" | "alu_fn SRA = FNSRA" | "alu_fn ORop = FNOR" | "alu_fn ANDop = FNAND"

primrec alu_spec :: "alu_op \<Rightarrow> 'n::len word \<Rightarrow> 'n word \<Rightarrow> 'n word" where
  "alu_spec ADD a b = a + b"
| "alu_spec SUB a b = a - b"
| "alu_spec SLL a b = push_bit (unat b mod LENGTH('n)) a"
| "alu_spec SLT a b = of_bool (sint a < sint b)"
| "alu_spec SLTU a b = of_bool (uint a < uint b)"
| "alu_spec XORop a b = a XOR b"
| "alu_spec SRL a b = drop_bit (unat b mod LENGTH('n)) a"
| "alu_spec SRA a b = signed_drop_bit (unat b mod LENGTH('n)) a"
| "alu_spec ORop a b = a OR b"
| "alu_spec ANDop a b = a AND b"

text \<open>The operations that exist in a 32-bit form (ADDW and so on).\<close>

definition has_word_form :: "alu_op \<Rightarrow> bool" where
  "has_word_form op \<longleftrightarrow> op \<in> {ADD, SUB, SLL, SRL, SRA}"

datatype branch_op = BEQ | BNE | BLT | BGE | BLTU | BGEU

primrec branch_fn :: "branch_op \<Rightarrow> 4 word" where
  "branch_fn BEQ = FNSEQ" | "branch_fn BNE = FNSNE" | "branch_fn BLT = FNSLT"
| "branch_fn BGE = FNSGE" | "branch_fn BLTU = FNSLTU" | "branch_fn BGEU = FNSGEU"

primrec branch_taken :: "branch_op \<Rightarrow> u64 \<Rightarrow> u64 \<Rightarrow> bool" where
  "branch_taken BEQ a b \<longleftrightarrow> a = b" | "branch_taken BNE a b \<longleftrightarrow> a \<noteq> b"
| "branch_taken BLT a b \<longleftrightarrow> sint a < sint b" | "branch_taken BGE a b \<longleftrightarrow> sint b \<le> sint a"
| "branch_taken BLTU a b \<longleftrightarrow> uint a < uint b" | "branch_taken BGEU a b \<longleftrightarrow> uint b \<le> uint a"

subsection \<open>Lemmas\<close>

lemma signed_operand_less:
  "signed_operand sign a <s signed_operand sign b \<longleftrightarrow> (if sign then sint a < sint b else uint a < uint b)"
  by (simp add: signed_operand_def word_sless_alt extended_operand)

lemma fn_compare_less: "fn_compare a b fn \<longleftrightarrow> (if bit fn 1 then uint a < uint b else sint a < sint b)"
  by (simp add: fn_compare_def signed_operand_less)

text \<open>\<open>fn_add\<close>: a carry into the lowest of 65 bits makes the difference.\<close>

lemma double_plus_bit: "2 * z + of_bool c = 2 * z OR of_bool c" for z :: "65 word"
  by (rule disjunctive_add) (auto simp: bit_double_iff bit_of_bool_iff bit_1_iff)

lemma append_bit: "word_cat a (of_bool c :: 1 word) = (2 * ucast a + of_bool c :: 65 word)" for a :: u64
  unfolding double_plus_bit
  by (rule bit_word_eqI) (auto simp: bit_word_cat_iff bit_or_iff bit_double_iff bit_of_bool_iff bit_ucast_iff)

lemma upper_half: "(ucast (drop_bit 1 (2 * z + of_bool c)) :: u64) = ucast z" for z :: "65 word"
  unfolding double_plus_bit
  by (rule bit_word_eqI) (auto simp: bit_ucast_iff bit_drop_bit_eq bit_or_iff bit_double_iff bit_of_bool_iff)

lemma fn_add_value: "fn_add a b sub = (if sub then a - b else a + b)"
proof -
  have t: "(ucast (ucast a + ucast b :: 65 word) :: u64) = a + b" "(ucast (ucast a - ucast b :: 65 word) :: u64) = a - b"
    by (transfer, simp add: take_bit_add take_bit_diff)+
  have "word_cat a (1 :: 1 word) + (word_cat b (0 :: 1 word) XOR (if sub then - 1 else 0)) =
      2 * (if sub then ucast a - ucast b else ucast a + ucast b :: 65 word) + of_bool (\<not> sub)"
    using append_bit [of a True] append_bit [of b False] by (simp add: not_eq_complement algebra_simps)
  then show ?thesis unfolding fn_add_def Let_def by (simp only: upper_half) (simp add: t)
qed

text \<open>\<open>fn_shift\<close>: one right shift, of the reversed operand for a left shift.\<close>

definition shift_count :: "6 word \<Rightarrow> bool \<Rightarrow> nat" where
  "shift_count op2 wordop = unat op2 mod (if wordop then 32 else 64)"

lemma shift_amt: "unat (word_cat (of_bool (\<not> wordop \<and> bit op2 5) :: 1 word) (ucast op2 :: 5 word) :: 6 word) =
    shift_count op2 wordop"
proof -
  have "word_cat (of_bool (\<not> wordop \<and> bit op2 5) :: 1 word) (ucast op2 :: 5 word) =
      take_bit (if wordop then 5 else 6) op2"
    by (rule bit_word_eqI) (auto simp: bit_word_cat_iff bit_take_bit_iff bit_of_bool_iff bit_ucast_iff less_Suc_eq
      not_less numeral_eq_Suc)
  then show ?thesis by (simp only: shift_count_def unsigned_take_bit_eq) (simp add: take_bit_eq_mod)
qed

lemma bit_shift_right:
  "bit (ucast (signed_drop_bit n (word_cat (of_bool (s \<and> bit x 63) :: 1 word) x :: 65 word)) :: u64) j \<longleftrightarrow>
    j < 64 \<and> (if j + n < 64 then bit x (j + n) else s \<and> bit x 63)" for x :: u64
  by (auto simp: bit_ucast_iff bit_signed_drop_bit_iff bit_word_cat_iff bit_of_bool_iff ac_simps)

definition shift_operand :: "u64 \<Rightarrow> bool \<Rightarrow> bool \<Rightarrow> u64" where
  "shift_operand a arith wordop = (if \<not> wordop then a else if arith then scast (ucast a :: u32) else ucast (ucast a :: u32))"

lemma shift_inright:
  "(word_cat (if wordop then if arith \<and> bit a 31 then - 1 else 0 else ucast (drop_bit 32 a) :: u32) (ucast a :: u32) :: u64) =
    shift_operand a arith wordop"
  unfolding shift_operand_def
  by (rule bit_word_eqI) (auto simp: bit_word_cat_iff bit_ucast_iff bit_signed_iff bit_drop_bit_eq)

lemma fn_shift_right:
  assumes "fn = FNSR \<or> fn = FNSRA"
  shows "bit (fn_shift a op2 fn wordop) j \<longleftrightarrow> j < 64 \<and>
    (if j + shift_count op2 wordop < 64 then bit (shift_operand a (fn = FNSRA) wordop) (j + shift_count op2 wordop)
     else fn = FNSRA \<and> bit (shift_operand a True wordop) 63)"
proof -
  have "bit fn 3 \<longleftrightarrow> fn = FNSRA" using assms by auto
  then show ?thesis
    using assms unfolding fn_shift_def Let_def shift_amt
    by (simp only: if_True shift_inright bit_shift_right) auto
qed

lemma fn_shift_left:
  "bit (fn_shift a op2 FNSL wordop) j \<longleftrightarrow> shift_count op2 wordop \<le> j \<and> j < 64 \<and>
    bit (shift_operand a False wordop) (j - shift_count op2 wordop)"
proof -
  have b: "bit FNSL 3 = False" by simp
  have f: "fn_shift a op2 FNSL wordop = word_reverse (ucast (signed_drop_bit (shift_count op2 wordop)
      (word_cat (of_bool (False \<and> bit (word_reverse (shift_operand a False wordop)) 63) :: 1 word)
        (word_reverse (shift_operand a False wordop)) :: 65 word)))"
    unfolding fn_shift_def Let_def shift_amt b shift_inright by simp
  define n where "n = shift_count op2 wordop"
  have len: "LENGTH(64) = 64" by simp
  show ?thesis
  proof (cases "j < 64")
    case True
    then have "64 - Suc j + n < 64 \<longleftrightarrow> n \<le> j" "64 - Suc j < 64" "n \<le> j \<Longrightarrow> 64 - Suc (64 - Suc j + n) = j - n"
      by arith+
    then show ?thesis
      using True unfolding f n_def [symmetric]
      by (subst bit_word_reverse_iff, subst bit_shift_right) (simp only: len bit_word_reverse_iff, auto)
  qed (simp add: f bit_word_reverse_iff)
qed

lemma fn_base_alu_add: "fn_base_alu a b FNADD pc op1pc wordop = (if op1pc then pc else a) + b"
  "fn_base_alu a b FNSUB pc op1pc wordop = (if op1pc then pc else a) - b"
  by (simp_all add: fn_base_alu_def Let_def fn_add_value)

lemma ucast_sum: "(ucast (a + b) :: u32) = ucast a + ucast b" "(ucast (a - b) :: u32) = ucast a - ucast b" for a b :: u64
proof -
  have "(ucast x :: u32) = word_of_int (uint x)" for x :: u64 by simp
  moreover have "(word_of_int (take_bit LENGTH(64) x) :: u32) = word_of_int x" for x
    by (rule word_of_take_bit) simp
  ultimately show "(ucast (a + b) :: u32) = ucast a + ucast b" "(ucast (a - b) :: u32) = ucast a - ucast b"
    by (simp_all only: uint_word_ariths take_bit_eq_mod [symmetric] of_int_add of_int_diff)
qed

lemma count_mod: "shift_count (ucast b) False = unat b mod 64" "shift_count (ucast b) True = unat (ucast b :: u32) mod 32"
  for b :: u64
proof -
  have "unat (ucast b :: 6 word) = unat b mod 64" "unat (ucast b :: u32) = unat b mod 2 ^ 32"
    by (simp_all add: unsigned_ucast_eq take_bit_eq_mod)
  then show "shift_count (ucast b) False = unat b mod 64" "shift_count (ucast b) True = unat (ucast b :: u32) mod 32"
    by (simp_all add: shift_count_def mod_mod_cancel)
qed

lemma fn_base_alu_shift:
  "fn_base_alu a b (alu_fn op) pc op1pc wordop = fn_shift a (ucast b) (alu_fn op) wordop"
  if "op \<in> {SLL, SRL, SRA}"
  using that by (auto simp: fn_base_alu_def Let_def)

lemma bit_sra: "bit (signed_drop_bit n w) j \<longleftrightarrow> j < LENGTH('n) \<and>
    (if j + n < LENGTH('n) then bit w (j + n) else bit w (LENGTH('n) - 1))" for w :: "'n::len word"
  by (auto simp: bit_signed_drop_bit_iff add.commute [of n] dest: bit_imp_le_length)

lemma fn_shift_64:
  "fn_shift a (ucast b) FNSL False = push_bit (unat b mod 64) a"
  "fn_shift a (ucast b) FNSR False = drop_bit (unat b mod 64) a"
  "fn_shift a (ucast b) FNSRA False = signed_drop_bit (unat b mod 64) a" for a b :: u64
proof -
  define n where "n = unat b mod 64"
  have len: "LENGTH(64) = 64" by simp
  have fn: "FNSR \<noteq> FNSRA" "FNSRA = FNSR \<or> FNSRA = FNSRA" "FNSR = FNSR \<or> FNSR = FNSRA" by simp_all
  have n: "shift_count (ucast b) False = n" by (simp add: n_def count_mod)
  show "fn_shift a (ucast b) FNSL False = push_bit (unat b mod 64) a"
    unfolding n_def [symmetric]
    by (rule bit_word_eqI) (simp add: fn_shift_left n shift_operand_def bit_push_bit_iff; blast)
  have above: "j + n < 64" if "bit a (n + j)" for j using bit_imp_le_length [OF that] by (simp add: add.commute)
  show "fn_shift a (ucast b) FNSR False = drop_bit (unat b mod 64) a"
    unfolding n_def [symmetric]
    by (rule bit_word_eqI)
      (use above in \<open>auto simp: fn_shift_right [OF fn(3)] fn(1) n shift_operand_def bit_drop_bit_eq add.commute [of n]\<close>)
  show "fn_shift a (ucast b) FNSRA False = signed_drop_bit (unat b mod 64) a"
    unfolding n_def [symmetric]
    by (rule bit_word_eqI) (simp add: fn_shift_right [OF fn(2)] n shift_operand_def bit_sra)
qed

lemma fn_shift_32:
  "(ucast (fn_shift a (ucast b) FNSL True) :: u32) = push_bit (unat (ucast b :: u32) mod 32) (ucast a)"
  "(ucast (fn_shift a (ucast b) FNSR True) :: u32) = drop_bit (unat (ucast b :: u32) mod 32) (ucast a)"
  "(ucast (fn_shift a (ucast b) FNSRA True) :: u32) = signed_drop_bit (unat (ucast b :: u32) mod 32) (ucast a)" for a b :: u64
proof -
  define n where "n = unat (ucast b :: u32) mod 32"
  have fn: "FNSR \<noteq> FNSRA" "FNSRA = FNSR \<or> FNSRA = FNSRA" "FNSR = FNSR \<or> FNSR = FNSRA" by simp_all
  have n: "shift_count (ucast b) True = n" "n < 32" by (simp_all add: n_def count_mod)
  have x: "bit (shift_operand a False True) j \<longleftrightarrow> j < 32 \<and> bit a j"
    "bit (shift_operand a True True) j \<longleftrightarrow> j < 64 \<and> (if j < 32 then bit a j else bit a 31)" for j
    by (cases "j = 31"; auto simp: shift_operand_def bit_ucast_iff bit_signed_iff min_def)+
  show "(ucast (fn_shift a (ucast b) FNSL True) :: u32) = push_bit (unat (ucast b :: u32) mod 32) (ucast a)"
    unfolding n_def [symmetric]
    by (rule bit_word_eqI) (auto simp: bit_ucast_iff fn_shift_left n x bit_push_bit_iff)
  show "(ucast (fn_shift a (ucast b) FNSR True) :: u32) = drop_bit (unat (ucast b :: u32) mod 32) (ucast a)"
    unfolding n_def [symmetric]
    by (rule bit_word_eqI) (auto simp: bit_ucast_iff fn_shift_right [OF fn(3)] fn(1) n x bit_drop_bit_eq add.commute [of n])
  show "(ucast (fn_shift a (ucast b) FNSRA True) :: u32) = signed_drop_bit (unat (ucast b :: u32) mod 32) (ucast a)"
    unfolding n_def [symmetric]
  proof (rule bit_word_eqI)
    fix j assume "j < LENGTH(32)"
    then have "j < 32" "j + n < 64" using n(2) by simp_all
    then show "bit (ucast (fn_shift a (ucast b) FNSRA True) :: u32) j = bit (signed_drop_bit n (ucast a :: u32)) j"
      by (simp add: bit_ucast_iff fn_shift_right [OF fn(2)] n x bit_sra)
  qed
qed

lemma fn_base_alu_cases:
  "fn_base_alu a b (alu_fn op) pc op1pc wordop =
    (case op of SLL \<Rightarrow> fn_shift a (ucast b) FNSL wordop | SRL \<Rightarrow> fn_shift a (ucast b) FNSR wordop
     | SRA \<Rightarrow> fn_shift a (ucast b) FNSRA wordop
     | _ \<Rightarrow> alu_spec op (if op1pc \<and> op \<in> {ADD, SUB} then pc else a) b)"
  by (cases op) (simp_all add: fn_base_alu_def Let_def fn_add_value fn_logic_def fn_compare_less)

subsection \<open>The comparison by subtraction\<close>

lemma uint_64: "0 \<le> uint w" "uint w < 2 ^ 64" for w :: u64
  using uint_bounded [of w] by simp_all

lemma bit_63: "bit w 63 \<longleftrightarrow> 2 ^ 63 \<le> uint w" for w :: u64
proof -
  have "bit w 63 = bit (uint w) 63" by (simp add: bit_uint_iff)
  also have "\<dots> = odd (uint w div 2 ^ 63)" by (rule bit_iff_odd)
  also have "uint w div 2 ^ 63 = (if 2 ^ 63 \<le> uint w then 1 else 0)"
  proof (cases "2 ^ 63 \<le> uint w")
    case True
    then have "uint w div 2 ^ 63 = (uint w - 2 ^ 63) div 2 ^ 63 + 1" by (simp add: div_pos_geq)
    then show ?thesis using True uint_64 [of w] by (simp add: div_pos_pos_trivial)
  qed (use uint_64 [of w] in \<open>simp add: div_pos_pos_trivial\<close>)
  finally show ?thesis by simp
qed

lemma sint_64: "sint w = uint w - (if bit w 63 then 2 ^ 64 else 0)" for w :: u64
proof -
  have "take_bit 64 (uint w) = uint w" using uint_64 [of w] by (simp add: take_bit_int_eq_self_iff)
  then show ?thesis by (simp add: sint_uint signed_take_bit_eq_take_bit_minus bit_uint_iff)
qed

lemma sign_of_difference:
  fixes a b :: u64
  assumes "bit a 63 = bit b 63"
  shows "bit (a - b) 63 \<longleftrightarrow> uint a < uint b"
proof -
  have "- (2 ^ 63) < x - y \<and> x - y < 2 ^ 63"
    if "(2 ^ 63 \<le> x) = (2 ^ 63 \<le> y)" "0 \<le> x" "x < 2 ^ 64" "0 \<le> y" "y < 2 ^ 64" for x y :: int
    using that by auto
  from this [OF assms [unfolded bit_63] uint_64 uint_64]
  have d: "- (2 ^ 63) < uint a - uint b" "uint a - uint b < 2 ^ 63" by blast+
  have "uint (a - b) = (uint a - uint b) mod 2 ^ 64" by (simp add: uint_word_ariths)
  also have "\<dots> = (if uint a < uint b then uint a - uint b + 2 ^ 64 else uint a - uint b)"
    using d mod_pos_pos_trivial [of "uint a - uint b + 2 ^ 64" "2 ^ 64"] by (auto simp: mod_pos_pos_trivial)
  finally show ?thesis using d unfolding bit_63 [of "a - b"] by auto
qed

lemma fn_bru2_less:
  assumes "bit fn 3"
  shows "fn_bru2 a b fn \<longleftrightarrow> bit fn 0 \<noteq> (if bit fn 1 then uint a < uint b else sint a < sint b)"
proof -
  have "a + (b XOR - 1) + of_bool True = a - b" by (simp add: not_eq_complement)
  then have e: "fn_bru2 a b fn \<longleftrightarrow> bit fn 0 \<noteq> (if bit a 63 = bit b 63 then bit (a - b) 63
      else if bit fn 1 then bit b 63 else bit a 63)"
    using assms by (simp only: fn_bru2_def Let_def if_True not_True_eq_False if_False)
  show ?thesis
  proof (cases "bit a 63 = bit b 63")
    case True
    then show ?thesis unfolding e sign_of_difference [OF True] by (simp add: sint_64)
  next
    case False
    have "((2 ^ 63 \<le> y) = (x < y)) \<and>
        ((2 ^ 63 \<le> x) = (x - (if 2 ^ 63 \<le> x then 2 ^ 64 else 0) < y - (if 2 ^ 63 \<le> y then 2 ^ 64 else 0)))"
      if "(2 ^ 63 \<le> x) \<noteq> (2 ^ 63 \<le> y)" "0 \<le> x" "x < 2 ^ 64" "0 \<le> y" "y < 2 ^ 64" for x y :: int
      using that by auto
    from this [OF False [unfolded bit_63] uint_64 uint_64]
    have "bit b 63 \<longleftrightarrow> uint a < uint b" "bit a 63 \<longleftrightarrow> sint a < sint b" unfolding sint_64 bit_63 by blast+
    with False show ?thesis unfolding e by simp
  qed
qed

lemma xor_eq_zero: "a XOR b = 0 \<longleftrightarrow> a = b" for a b :: u64
  by (metis xor.assoc xor.comm_neutral xor_self_eq xor.commute)

subsection \<open>Properties\<close>

text \<open>
  Base ALU. For each operation of the base instruction set, the ALU and the execution rule
  around it return what the instruction set defines on 64-bit words, with the program counter in
  the place of the first operand for an addition or subtraction that asks for it; for the
  operations with a 32-bit form, the sign extension of the result on the lower words.
\<close>

theorem base_alu_correct:
  "alu_result op1 op2 (alu_fn op) pc op1pc False = alu_spec op (if op1pc \<and> op \<in> {ADD, SUB} then pc else op1) op2 \<and>
   (has_word_form op \<longrightarrow> alu_result op1 op2 (alu_fn op) pc False True = scast (alu_spec op (ucast op1 :: u32) (ucast op2)))"
proof -
  have len: "LENGTH(64) = 64" "LENGTH(32) = 32" by simp_all
  show ?thesis
    unfolding alu_result_def Let_def fn_base_alu_cases has_word_form_def
    by (cases op) (simp_all add: fn_shift_64 fn_shift_32 ucast_sum)
qed

theorem base_alu_correct_witness:
  "alu_result 0x80000000 4 FNSRA 0 False True = scast (0xF8000000 :: u32)"
  using base_alu_correct [of "0x80000000" 4 SRA 0 False] by (simp add: has_word_form_def)

text \<open>
  C18 (branch comparison). \<open>fn_bru\<close>, which the execution stage uses, and \<open>fn_bru2\<close>, the version with
  an adder, take a branch exactly when its instruction says so.
\<close>

theorem branch_comparison_correct:
  "fn_bru op1 op2 (branch_fn br) = branch_taken br op1 op2 \<and> fn_bru2 op1 op2 (branch_fn br) = branch_taken br op1 op2"
proof
  show "fn_bru op1 op2 (branch_fn br) = branch_taken br op1 op2"
    by (cases br) (auto simp: fn_bru_def Let_def signed_operand_less xor_eq_zero)
  show "fn_bru2 op1 op2 (branch_fn br) = branch_taken br op1 op2"
    by (cases br) (auto simp: fn_bru2_less fn_bru2_def [of _ _ FNSEQ] fn_bru2_def [of _ _ FNSNE] xor_eq_zero)
qed

end
