(* ===== verification/Core_Operands.thy ===== *)
theory Core_Operands
  imports Base_ALU
begin

section \<open>Operands and results in the pipeline of the core\<close>

text \<open>
  The back end of the core, from the operand fetch in stage 2 to the commit in stage 5: the
  scoreboard (\<open>src/scoreboard.bsv\<close>), the bypass (\<open>src/bypass.bsv\<close>), the register file
  (\<open>src/registerfile.bsv\<close>), the buffers between the stages (\<open>src/pipe_ifcs.bsv\<close>), and what the
  rules of \<open>stage2.bsv\<close> to \<open>stage5.bsv\<close> do to them. The configuration is RV64 with \<open>psimd\<close>,
  \<open>muldiv\<close>, \<open>supervisor\<close>, \<open>dcache\<close> and \<open>no_wawstalls\<close>; \<open>spfpu\<close> is a parameter where it matters. The
  width \<open>wawid\<close> of an identifier is the length of the type \<open>'i\<close>.

  A register is named by its file and number, the pair \<open>{pack(rdtype), rd}\<close> that the source
  indexes with.
\<close>

datatype RFType = IRF | FRF

type_synonym reg = "RFType \<times> 5 word"

abbreviation x0 :: reg where "x0 \<equiv> (IRF, 0)"

subsection \<open>The scoreboard\<close>

record 'id SBEntry =
  entry_id :: 'id
  lock :: bool

record 'id scoreboard =
  rg_rf_board :: "reg \<Rightarrow> 'id SBEntry"
  rg_renameid :: 'id

definition mkscoreboard :: "'i::len word scoreboard" where
  "mkscoreboard = \<lparr>rg_rf_board = \<lambda>_. \<lparr>entry_id = 0, lock = False\<rparr>, rg_renameid = 0\<rparr>"

definition ma_lock_rd :: "reg \<Rightarrow> 'i::len word scoreboard \<Rightarrow> 'i word \<times> 'i word scoreboard" where
  "ma_lock_rd index s =
     (let entry = (rg_rf_board s index)\<lparr>entry_id := rg_renameid s, lock := True\<rparr>
      in (rg_renameid s,
          s\<lparr>rg_rf_board := (if index \<noteq> x0 then (rg_rf_board s)(index := entry) else rg_rf_board s),
            rg_renameid := rg_renameid s + 1\<rparr>))"

definition ma_release_rd :: "reg \<Rightarrow> 'i::len word \<Rightarrow> 'i word scoreboard \<Rightarrow> 'i word scoreboard" where
  "ma_release_rd index rls_id s =
     (let entry = rg_rf_board s index;
          entry = (if rls_id = entry_id entry then entry\<lparr>lock := False\<rparr> else entry)
      in if index \<noteq> x0 then s\<lparr>rg_rf_board := (rg_rf_board s)(index := entry)\<rparr> else s)"

text \<open>\<open>mv_board\<close>\<close>

definition rf_lock :: "'i::len word scoreboard \<Rightarrow> reg \<Rightarrow> bool" where
  "rf_lock s r = lock (rg_rf_board s r)"

definition v_id :: "'i::len word scoreboard \<Rightarrow> reg \<Rightarrow> 'i word" where
  "v_id s r = entry_id (rg_rf_board s r)"

subsection \<open>The bypass\<close>

record 'id BypassReq =
  req_id :: 'id
  req_reg :: reg
  sb_lock :: bool
  req_epochs :: bool

record 'id FwdType =
  fwd_id :: 'id
  fwd_reg :: reg
  fwd_valid :: bool
  fwd_data :: u64
  fwd_epochs :: bool

definition fn_bypass :: "'i::len word BypassReq \<Rightarrow> 'i word FwdType \<Rightarrow> 'i word FwdType \<Rightarrow> 'i word FwdType \<Rightarrow> bool \<times> u64" where
  "fn_bypass req fwd0 fwd1 fwd2 =
     (let inst_in_pipe = sb_lock req;
          choice = (\<lambda>fwd. fwd_valid fwd \<and> fwd_reg fwd = req_reg req \<and> fwd_epochs fwd = req_epochs req \<and>
            fwd_id fwd = req_id req);
          available = (choice fwd0 \<or> choice fwd1) \<or> \<not> inst_in_pipe;
          fwd_data = (if choice fwd0 then fwd_data fwd0 else if choice fwd1 then fwd_data fwd1 else fwd_data fwd2)
      in (available, fwd_data))"

subsection \<open>What moves down the pipeline\<close>

datatype Op1type = Op1_IntegerRF | Op1_PC | Op1_FloatingRF

datatype Op2type = IntegerRF | Immediate | Constant4 | Constant2 | FloatingRF

datatype Instruction_type =
  ALU | MEMORY_INSTR | BRANCH | JAL | JALR | SYSTEM_INSTR | TRAP_INSTR | WFI | FLOAT | MULDIV | PSIMD

text \<open>What the decoder finds out about an instruction; \<open>imm\<close> is sign-extended, \<open>incr\<close> is 2 or 4.\<close>

record decoded =
  instruction :: u32
  inst_type :: Instruction_type
  rs1addr :: "5 word"
  rs1type :: Op1type
  rs2addr :: "5 word"
  rs2type :: Op2type
  imm :: u64
  dest :: reg
  fn :: "4 word"
  word32 :: bool
  pc :: u64
  incr :: u64
  epochs :: "bool \<times> bool"

text \<open>\<open>rf1type\<close> and \<open>rs1addr\<close>, \<open>rf2type\<close> and \<open>rs2addr\<close>; the third operand of the P extension is \<open>inst[11:7]\<close>.\<close>

definition src1 :: "decoded \<Rightarrow> reg" where
  "src1 m = (if rs1type m = Op1_FloatingRF then FRF else IRF, rs1addr m)"

definition src2 :: "decoded \<Rightarrow> reg" where
  "src2 m = (if rs2type m = FloatingRF then FRF else IRF, rs2addr m)"

definition srcd :: "decoded \<Rightarrow> reg" where
  "srcd m = (IRF, snd (dest m))"

datatype EXEType = BASE | SYSTEM | TRAP | MEMORY | EXE_MULDIV | EXE_PSIMD | EXE_FLOAT

text \<open>
  \<open>FUid\<close>, and \<open>CUid\<close> behind stage 4. The operands that the source hands to the execution units
  (\<open>wr_muldiv_inputs\<close>, \<open>wr_psimd_inputs\<close>, \<open>wr_memory_request\<close> and so on) stay with the
  instruction here, as does what was decoded.
\<close>

record 'id FUid =
  fu_id :: 'id
  fu_rd :: reg
  fu_epochs :: bool
  fu_type :: EXEType
  fu_inst :: decoded
  fu_op1 :: u64
  fu_op2 :: u64
  fu_opd :: u64

record 'id BaseOut =
  base_id :: 'id
  rdvalue :: u64
  base_rd :: reg
  base_epochs :: bool

text \<open>
  The state. \<open>s2s3\<close> is the buffer of one instruction between stages 2 and 3, whose operands stage 2
  keeps in \<open>rg_op1\<close>, \<open>rg_op2\<close> and \<open>rg_opd\<close>. The copies of the two epochs in the stages change in the
  same cycle; there is one of each here.
\<close>

record 'id core =
  rf :: "reg \<Rightarrow> u64"
  sboard :: "'id scoreboard"
  rg_eEpoch :: bool
  rg_wEpoch :: bool
  s2s3 :: "decoded option"
  rg_op1 :: "'id FwdType"
  rg_op2 :: "'id FwdType"
  rg_opd :: "'id FwdType"
  rg_op2type :: Op2type
  s3s4_fuid :: "'id FUid list"
  s3s4_baseout :: "'id BaseOut list"
  s4s5_fuid :: "'id FUid list"
  s4s5_baseout :: "'id BaseOut list"

text \<open>The state when \<open>initialize_regfile\<close> has cleared the registers.\<close>

definition no_operand :: "'i::len word FwdType" where
  "no_operand = \<lparr>fwd_id = 0, fwd_reg = x0, fwd_valid = False, fwd_data = 0, fwd_epochs = False\<rparr>"

definition mkcore :: "'i::len word core" where
  "mkcore = \<lparr>rf = \<lambda>_. 0, sboard = mkscoreboard, rg_eEpoch = False, rg_wEpoch = False, s2s3 = None,
     rg_op1 = no_operand, rg_op2 = no_operand, rg_opd = no_operand, rg_op2type = IntegerRF,
     s3s4_fuid = [], s3s4_baseout = [], s4s5_fuid = [], s4s5_baseout = []\<rparr>"

subsection \<open>Stage 2: operand fetch and commits\<close>

definition op2_value :: "decoded \<Rightarrow> (reg \<Rightarrow> u64) \<Rightarrow> u64" where
  "op2_value m f = (case rs2type m of Constant2 \<Rightarrow> 2 | Constant4 \<Rightarrow> 4 | Immediate \<Rightarrow> imm m | _ \<Rightarrow> f (src2 m))"

definition fetched :: "reg \<Rightarrow> u64 \<Rightarrow> bool \<Rightarrow> 'i::len word FwdType" where
  "fetched r v w = \<lparr>fwd_id = 0, fwd_reg = r, fwd_valid = True, fwd_data = v, fwd_epochs = w\<rparr>"

definition decode_and_opfetch :: "decoded \<Rightarrow> 'i::len word core \<Rightarrow> 'i word core" where
  "decode_and_opfetch m s =
     s\<lparr>s2s3 := Some m,
       rg_op1 := fetched (src1 m) (rf s (src1 m)) (rg_wEpoch s),
       rg_op2 := fetched (src2 m) (op2_value m (rf s)) (rg_wEpoch s),
       rg_opd := fetched (srcd m) (rf s (srcd m)) (rg_wEpoch s),
       rg_op2type := rs2type m\<rparr>"

text \<open>
  \<open>ma_commit_rd\<close> for a commit that is not \<open>unlock_only\<close>: it writes the register file and updates
  the operands already fetched. With \<open>spfpu\<close> the source has no such update of \<open>rg_opd\<close>.
\<close>

definition commit_rd :: "reg \<Rightarrow> u64 \<Rightarrow> (reg \<Rightarrow> u64) \<Rightarrow> (reg \<Rightarrow> u64)" where
  "commit_rd r v f = (if fst r \<noteq> IRF \<or> snd r \<noteq> 0 then f(r := v) else f)"

definition ma_commit_rd :: "bool \<Rightarrow> reg \<Rightarrow> u64 \<Rightarrow> 'i::len word core \<Rightarrow> 'i word core" where
  "ma_commit_rd spfpu r v s =
     s\<lparr>rf := commit_rd r v (rf s),
       rg_op1 := (if r = fwd_reg (rg_op1 s) \<and> (fst r = FRF \<or> snd r \<noteq> 0) then (rg_op1 s)\<lparr>fwd_data := v\<rparr> else rg_op1 s),
       rg_op2 := (if r = fwd_reg (rg_op2 s) \<and> (fst r = FRF \<or> snd r \<noteq> 0 \<and> rg_op2type s = IntegerRF)
         then (rg_op2 s)\<lparr>fwd_data := v\<rparr> else rg_op2 s),
       rg_opd := (if \<not> spfpu \<and> r = fwd_reg (rg_opd s) \<and> snd r \<noteq> 0 then (rg_opd s)\<lparr>fwd_data := v\<rparr> else rg_opd s)\<rparr>"

subsection \<open>Stage 3: bypass and issue\<close>

text \<open>\<open>rl_gen_bypass\<close> of the two buffers behind stage 3\<close>

definition gen_bypass :: "'i::len word BaseOut list \<Rightarrow> 'i word FwdType" where
  "gen_bypass bs = (case bs of [] \<Rightarrow> no_operand
     | b # _ \<Rightarrow> \<lparr>fwd_id = base_id b, fwd_reg = base_rd b, fwd_valid = \<not> (base_rd b = x0),
         fwd_data = rdvalue b, fwd_epochs = base_epochs b\<rparr>)"

text \<open>\<open>rl_perform_fwding\<close>, for one operand\<close>

definition operand :: "'i::len word core \<Rightarrow> reg \<Rightarrow> 'i word FwdType \<Rightarrow> bool \<times> u64" where
  "operand s r fetched_op =
     fn_bypass \<lparr>req_id = v_id (sboard s) r, req_reg = r, sb_lock = rf_lock (sboard s) r, req_epochs = rg_wEpoch s\<rparr>
       (gen_bypass (s3s4_baseout s)) (gen_bypass (s4s5_baseout s)) fetched_op"

text \<open>
  What every execution rule does when it fires: the destination is locked, the instruction moves
  to the next buffer under its new identifier, with its result if it has one.
\<close>

definition issue :: "decoded \<Rightarrow> EXEType \<Rightarrow> u64 option \<Rightarrow> 'i::len word core \<Rightarrow> 'i word core" where
  "issue m t result s =
     (let (new_id, board) = ma_lock_rd (dest m) (sboard s) in
      s\<lparr>sboard := board, s2s3 := None,
        s3s4_fuid := s3s4_fuid s @ [\<lparr>fu_id = new_id, fu_rd = dest m, fu_epochs = snd (epochs m), fu_type = t, fu_inst = m,
          fu_op1 = snd (operand s (src1 m) (rg_op1 s)), fu_op2 = snd (operand s (src2 m) (rg_op2 s)),
          fu_opd = snd (operand s (srcd m) (rg_opd s))\<rparr>],
        s3s4_baseout := s3s4_baseout s @ (case result of None \<Rightarrow> []
          | Some v \<Rightarrow> [\<lparr>base_id = new_id, rdvalue = v, base_rd = dest m, base_epochs = rg_wEpoch s\<rparr>])\<rparr>)"

subsection \<open>Stage 5: commit\<close>

text \<open>
  The end of an instruction at the head of the last buffer: \<open>wr_commit\<close> reaches the register file,
  the fetched operands and the scoreboard. \<open>None\<close> is a commit that only unlocks.
\<close>

definition retire :: "bool \<Rightarrow> u64 option \<Rightarrow> 'i::len word core \<Rightarrow> 'i word core" where
  "retire spfpu value s =
     (let f = hd (s4s5_fuid s);
          s = s\<lparr>s4s5_fuid := tl (s4s5_fuid s),
                s4s5_baseout := (if fu_type f = BASE then tl (s4s5_baseout s) else s4s5_baseout s),
                sboard := ma_release_rd (fu_rd f) (fu_id f) (sboard s)\<rparr>
      in case value of None \<Rightarrow> s | Some v \<Rightarrow> ma_commit_rd spfpu (fu_rd f) v s)"

definition flush_wb :: "'i::len word core \<Rightarrow> 'i word core" where
  "flush_wb s = s\<lparr>rg_wEpoch := \<not> rg_wEpoch s\<rparr>"

subsection \<open>The rules\<close>

text \<open>
  \<open>n34\<close> and \<open>n45\<close> are the sizes of the buffers, \<open>spfpu\<close> the compile-time option, \<open>psimd\<close> what the
  P-box answers to an instruction and its three operands. What the memory, the M-box and the
  floating-point unit answer, what a CSR holds, which accesses trap, and whether a control
  instruction is predicted right, is left open: the rules allow every outcome. The third operand of
  a floating-point instruction is left out.
\<close>

definition op1_avail :: "'i::len word core \<Rightarrow> decoded \<Rightarrow> bool" where
  "op1_avail s m = fst (operand s (src1 m) (rg_op1 s))"

definition op2_avail :: "'i::len word core \<Rightarrow> decoded \<Rightarrow> bool" where
  "op2_avail s m = fst (operand s (src2 m) (rg_op2 s))"

text \<open>An instruction that stage 3 may execute: it is there, its epochs match, and there is room.\<close>

definition executable :: "nat \<Rightarrow> 'i::len word core \<Rightarrow> decoded \<Rightarrow> bool" where
  "executable n34 s m \<longleftrightarrow> s2s3 s = Some m \<and> epochs m = (rg_eEpoch s, rg_wEpoch s) \<and> length (s3s4_fuid s) < n34"

definition alu_output :: "'i::len word core \<Rightarrow> decoded \<Rightarrow> u64" where
  "alu_output s m = alu_result (snd (operand s (src1 m) (rg_op1 s))) (snd (operand s (src2 m) (rg_op2 s)))
     (fn m) (pc m) (rs1type m = Op1_PC) (word32 m)"

definition pending_type :: "Instruction_type \<Rightarrow> EXEType option" where
  "pending_type t = (case t of MULDIV \<Rightarrow> Some EXE_MULDIV | PSIMD \<Rightarrow> Some EXE_PSIMD | FLOAT \<Rightarrow> Some EXE_FLOAT | _ \<Rightarrow> None)"

subsubsection \<open>Stage 3\<close>

inductive stage3_rule ::
    "nat \<Rightarrow> 'i::len word core \<Rightarrow> 'i word core \<Rightarrow> bool"
  for n34 where
  rl_drop_instr: "s2s3 s = Some m \<Longrightarrow> epochs m \<noteq> (rg_eEpoch s, rg_wEpoch s) \<Longrightarrow>
    stage3_rule n34 s (s\<lparr>s2s3 := None\<rparr>)"
| rl_system_instr: "executable n34 s m \<Longrightarrow> inst_type m = SYSTEM_INSTR \<Longrightarrow> op1_avail s m \<Longrightarrow>
    stage3_rule n34 s (issue m SYSTEM None s)"
| rl_trap_from_prev: "executable n34 s m \<Longrightarrow> inst_type m = TRAP_INSTR \<Longrightarrow>
    stage3_rule n34 s (issue m TRAP None s)"
| rl_exe_base_arith: "executable n34 s m \<Longrightarrow> inst_type m = ALU \<Longrightarrow> op1_avail s m \<Longrightarrow> op2_avail s m \<Longrightarrow>
    stage3_rule n34 s (issue m BASE (Some (alu_output s m)) s)"
| rl_exe_base_memory: "executable n34 s m \<Longrightarrow> inst_type m = MEMORY_INSTR \<Longrightarrow> op1_avail s m \<Longrightarrow> op2_avail s m \<Longrightarrow>
    t = TRAP \<or> t = MEMORY \<Longrightarrow> stage3_rule n34 s (issue m t None s)"
| sfence: "executable n34 s m \<Longrightarrow> inst_type m = MEMORY_INSTR \<Longrightarrow> dest m = x0 \<Longrightarrow> op1_avail s m \<Longrightarrow> op2_avail s m \<Longrightarrow>
    stage3_rule n34 s (issue m BASE (Some undefined_value) s)"
| rl_exe_base_control: "executable n34 s m \<Longrightarrow> inst_type m \<in> {BRANCH, JAL, JALR} \<Longrightarrow> op1_avail s m \<Longrightarrow> op2_avail s m \<Longrightarrow>
    stage3_rule n34 s
      ((issue m BASE (Some (pc m + incr m)) s)\<lparr>rg_eEpoch := (redirection \<noteq> rg_eEpoch s)\<rparr>)"
| control_trap: "executable n34 s m \<Longrightarrow> inst_type m \<in> {BRANCH, JAL, JALR} \<Longrightarrow> op1_avail s m \<Longrightarrow> op2_avail s m \<Longrightarrow>
    stage3_rule n34 s (issue m TRAP None s)"
| rl_unit: "executable n34 s m \<Longrightarrow> pending_type (inst_type m) = Some t \<Longrightarrow> op1_avail s m \<Longrightarrow> op2_avail s m \<Longrightarrow>
    stage3_rule n34 s (issue m t None s)"

subsubsection \<open>Stage 4\<close>

inductive stage4_rule ::
    "nat \<Rightarrow> (u32 \<Rightarrow> u64 \<Rightarrow> u64 \<Rightarrow> u64 \<Rightarrow> u64) \<Rightarrow> 'i::len word core \<Rightarrow> 'i word core \<Rightarrow> bool"
  for n45 psimd where
  rl_fwd_baseout: "s3s4_fuid s = f # fs \<Longrightarrow> fu_type f = BASE \<Longrightarrow> s3s4_baseout s = b # bs \<Longrightarrow> length (s4s5_fuid s) < n45 \<Longrightarrow>
    stage4_rule n45 psimd s
      (s\<lparr>s3s4_fuid := fs, s3s4_baseout := bs, s4s5_fuid := s4s5_fuid s @ [f], s4s5_baseout := s4s5_baseout s @ [b]\<rparr>)"
| rl_fwd_out: "s3s4_fuid s = f # fs \<Longrightarrow> fu_type f = SYSTEM \<or> fu_type f = TRAP \<Longrightarrow> length (s4s5_fuid s) < n45 \<Longrightarrow>
    stage4_rule n45 psimd s (s\<lparr>s3s4_fuid := fs, s4s5_fuid := s4s5_fuid s @ [f]\<rparr>)"
| rl_handle_memory: "s3s4_fuid s = f # fs \<Longrightarrow> fu_type f = MEMORY \<Longrightarrow> t = TRAP \<or> t = MEMORY \<Longrightarrow> length (s4s5_fuid s) < n45 \<Longrightarrow>
    stage4_rule n45 psimd s (s\<lparr>s3s4_fuid := fs, s4s5_fuid := s4s5_fuid s @ [f\<lparr>fu_type := t\<rparr>]\<rparr>)"
| rl_capture: "s3s4_fuid s = f # fs \<Longrightarrow> fu_type f \<in> {MEMORY, EXE_MULDIV, EXE_PSIMD, EXE_FLOAT} \<Longrightarrow>
    (fu_type f = EXE_PSIMD \<longrightarrow> v = psimd (instruction (fu_inst f)) (fu_op1 f) (fu_op2 f) (fu_opd f)) \<Longrightarrow>
    length (s4s5_fuid s) < n45 \<Longrightarrow>
    stage4_rule n45 psimd s
      (s\<lparr>s3s4_fuid := fs, s4s5_fuid := s4s5_fuid s @ [f\<lparr>fu_type := BASE\<rparr>],
        s4s5_baseout := s4s5_baseout s @
          [\<lparr>base_id = fu_id f, rdvalue = v, base_rd = fu_rd f, base_epochs = fu_epochs f\<rparr>]\<rparr>)"

subsubsection \<open>Stage 5\<close>

inductive stage5_rule ::
    "bool \<Rightarrow> 'i::len word core \<Rightarrow> 'i word core \<Rightarrow> bool"
  for spfpu where
  drop: "s4s5_fuid s = f # fs \<Longrightarrow> fu_epochs f \<noteq> rg_wEpoch s \<Longrightarrow>
    stage5_rule spfpu s (retire spfpu None s)"
| rl_writeback_trap: "s4s5_fuid s = f # fs \<Longrightarrow> fu_epochs f = rg_wEpoch s \<Longrightarrow> fu_type f = TRAP \<Longrightarrow>
    stage5_rule spfpu s (flush_wb (retire spfpu None s))"
| rl_writeback_system: "s4s5_fuid s = f # fs \<Longrightarrow> fu_epochs f = rg_wEpoch s \<Longrightarrow> fu_type f = SYSTEM \<Longrightarrow>
    stage5_rule spfpu s (retire spfpu (Some csr_value) s)"
| xret: "s4s5_fuid s = f # fs \<Longrightarrow> fu_epochs f = rg_wEpoch s \<Longrightarrow> fu_type f = SYSTEM \<Longrightarrow>
    stage5_rule spfpu s (flush_wb (retire spfpu (Some csr_value) s))"
| rl_writeback_baseout: "s4s5_fuid s = f # fs \<Longrightarrow> fu_epochs f = rg_wEpoch s \<Longrightarrow> fu_type f = BASE \<Longrightarrow>
    s4s5_baseout s = b # bs \<Longrightarrow> stage5_rule spfpu s (retire spfpu (Some (rdvalue b)) s)"
| rl_writeback_memop: "s4s5_fuid s = f # fs \<Longrightarrow> fu_epochs f = rg_wEpoch s \<Longrightarrow> fu_type f = MEMORY \<Longrightarrow>
    stage5_rule spfpu s (retire spfpu (Some mem_value) s)"
| cached_store: "s4s5_fuid s = f # fs \<Longrightarrow> fu_epochs f = rg_wEpoch s \<Longrightarrow> fu_type f = MEMORY \<Longrightarrow> fu_rd f = x0 \<Longrightarrow>
    stage5_rule spfpu s (s\<lparr>s4s5_fuid := fs\<rparr>)"
| io_trap: "s4s5_fuid s = f # fs \<Longrightarrow> fu_epochs f = rg_wEpoch s \<Longrightarrow> fu_type f = MEMORY \<Longrightarrow>
    stage5_rule spfpu s (flush_wb (retire spfpu None s))"

text \<open>\<open>fn_decode_rd\<close> gives every store, the only operation of \<open>cached_store\<close>, register 0.\<close>

subsubsection \<open>The core\<close>

text \<open>
  One firing of a rule of stage 2, 3, 4 or 5. The epochs of stage 2 are configuration registers, so
  in the cycle in which stage 3 redirects the fetch and leaves its buffer, stage 2 can fill the
  buffer with an instruction of the epoch before: that is \<open>opfetch_redirect\<close>, and the instruction
  ends in \<open>rl_drop_instr\<close>.
\<close>

inductive core_rule ::
    "nat \<Rightarrow> nat \<Rightarrow> bool \<Rightarrow> (u32 \<Rightarrow> u64 \<Rightarrow> u64 \<Rightarrow> u64 \<Rightarrow> u64) \<Rightarrow> 'i::len word core \<Rightarrow> 'i word core \<Rightarrow> bool"
  for n34 n45 spfpu psimd where
  opfetch: "s2s3 s = None \<Longrightarrow> epochs m = (rg_eEpoch s, rg_wEpoch s) \<Longrightarrow>
    core_rule n34 n45 spfpu psimd s (decode_and_opfetch m s)"
| opfetch_redirect: "stage3_rule n34 s s1 \<Longrightarrow> rg_eEpoch s1 \<noteq> rg_eEpoch s \<Longrightarrow> s2s3 s1 = None \<Longrightarrow>
    epochs m = (rg_eEpoch s, rg_wEpoch s) \<Longrightarrow> core_rule n34 n45 spfpu psimd s (decode_and_opfetch m s1)"
| stage3: "stage3_rule n34 s s' \<Longrightarrow> core_rule n34 n45 spfpu psimd s s'"
| stage4: "stage4_rule n45 psimd s s' \<Longrightarrow> core_rule n34 n45 spfpu psimd s s'"
| stage5: "stage5_rule spfpu s s' \<Longrightarrow> core_rule n34 n45 spfpu psimd s s'"

end
