(* ===== verification/Core_Decode.thy ===== *)
theory Core_Decode
  imports Core_Operands
begin

section \<open>The decoder of the core\<close>

text \<open>
  \<open>src/decoder.bsv\<close> with the patterns of \<open>src/decoder.defines\<close>. The configuration is RV64 with
  \<open>compressed\<close>, \<open>atomic\<close>, \<open>muldiv\<close>, \<open>psimd\<close>, \<open>zicsr\<close>, \<open>ifence\<close>, \<open>supervisor\<close>, \<open>user\<close> and
  \<open>non_m_traps\<close>, without \<open>hypervisor\<close>, \<open>usertraps\<close>, \<open>debug\<close> and \<open>perfmonitors\<close>; the parameter
  \<open>fpu\<close> says whether \<open>spfpu\<close> and \<open>dpfpu\<close> are defined. \<open>address_valid\<close> and the
  enumeration \<open>Privilege_mode\<close> come from a generated package: the first is a parameter, of the second
  the names that the source compares with are kept, and its bits \<open>pack_prv\<close> are a parameter too.
\<close>

subsection \<open>Fields and patterns\<close>

abbreviation opcode7 :: "u32 \<Rightarrow> 7 word" where "opcode7 inst \<equiv> ucast inst"
abbreviation opcode :: "u32 \<Rightarrow> 5 word" where "opcode inst \<equiv> ucast (drop_bit 2 inst)"
abbreviation rd_field :: "u32 \<Rightarrow> 5 word" where "rd_field inst \<equiv> ucast (drop_bit 7 inst)"
abbreviation funct3_field :: "u32 \<Rightarrow> 3 word" where "funct3_field inst \<equiv> ucast (drop_bit 12 inst)"
abbreviation rs1_field :: "u32 \<Rightarrow> 5 word" where "rs1_field inst \<equiv> ucast (drop_bit 15 inst)"
abbreviation rs2_field :: "u32 \<Rightarrow> 5 word" where "rs2_field inst \<equiv> ucast (drop_bit 20 inst)"
abbreviation funct7_field :: "u32 \<Rightarrow> 7 word" where "funct7_field inst \<equiv> ucast (drop_bit 25 inst)"
abbreviation imm12_field :: "u32 \<Rightarrow> 12 word" where "imm12_field inst \<equiv> ucast (drop_bit 20 inst)"

text \<open>A pattern as the source writes it, most significant digit first.\<close>

fun like :: "string \<Rightarrow> 'n::len word \<Rightarrow> bool" where
  "like [] w \<longleftrightarrow> True"
| "like (c # p) w \<longleftrightarrow> (if c = CHR ''?'' then like p w else (c = CHR ''1'') = bit w (length p) \<and> like p w)"

text \<open>
  The patterns of \<open>decoder.defines\<close> leave \<open>rs1\<close> and \<open>rd\<close> open: what they say of the upper twelve
  digits, of \<open>funct3\<close> and of the lowest seven.
\<close>

definition pat :: "string \<Rightarrow> string \<Rightarrow> string \<Rightarrow> u32 \<Rightarrow> bool" where
  "pat upper f3 op inst =
     (if like op (opcode7 inst) then if like f3 (funct3_field inst) then like upper (imm12_field inst) else False else False)"

datatype Privilege_mode = User | Supervisor | Machine

record CSRtoDecode =
  prv :: Privilege_mode
  csr_mip :: "17 word"
  csr_mie :: "17 word"
  csr_mideleg :: "17 word"
  csr_misa :: "26 word"
  csr_mstatus :: u64
  csr_sstatus :: u64
  frm :: "3 word"

subsection \<open>Registers and operand types\<close>

definition fn_decode_rs1 :: "u32 \<Rightarrow> 5 word" where
  "fn_decode_rs1 inst = (let op = opcode inst in
     if like ''01101'' op then 0
     else if like ''00101'' op then 0
     else if like ''11011'' op then 0
     else if like ''11100'' op then (if bit inst 14 then 0 else rs1_field inst)
     else rs1_field inst)"

definition fn_decode_rs1type :: "bool \<Rightarrow> u32 \<Rightarrow> Op1type" where
  "fn_decode_rs1type fpu inst = (let op = opcode inst; upper4 = ucast (drop_bit 28 inst) :: 4 word in
     if like ''11011'' op then Op1_PC
     else if like ''11001'' op then Op1_PC
     else if like ''00101'' op then Op1_PC
     else if fpu \<and> like ''100??'' op then Op1_FloatingRF
     else if fpu \<and> like ''101??'' op then (if upper4 \<noteq> 13 \<and> upper4 \<noteq> 15 then Op1_FloatingRF else Op1_IntegerRF)
     else Op1_IntegerRF)"

definition fn_decode_rs2 :: "bool \<Rightarrow> u32 \<Rightarrow> 5 word" where
  "fn_decode_rs2 fpu inst = (let op = opcode inst; funct3 = funct3_field inst; funct7 = funct7_field inst in
     if like ''11011'' op then 0
     else if like ''11001'' op then 0
     else if like ''01101'' op then 0
     else if like ''00101'' op then 0
     else if like ''000??'' op then 0
     else if like ''11100'' op then
       (if funct3 \<noteq> 0 then 0 else if funct7 = 0b0001001 \<or> funct7 = 0b0010001 \<or> funct7 = 0b0110001 then rs2_field inst else 0)
     else if like ''001??'' op then 0
     else if fpu \<and> like ''101??'' op then (if bit funct7 5 then 0 else rs2_field inst)
     else rs2_field inst)"

definition fn_decode_rs2type :: "bool \<Rightarrow> u32 \<Rightarrow> bool \<Rightarrow> Op2type" where
  "fn_decode_rs2type fpu inst compressed = (let op = opcode inst; funct7 = funct7_field inst in
     if like ''11011'' op then (if compressed then Constant2 else Constant4)
     else if like ''11001'' op then (if compressed then Constant2 else Constant4)
     else if like ''00011'' op then (if compressed then Constant2 else Constant4)
     else if like ''01101'' op then Immediate
     else if like ''001??'' op then Immediate
     else if fpu \<and> like ''100??'' op then FloatingRF
     else if fpu \<and> like ''101??'' op then (if \<not> bit funct7 5 then FloatingRF else IntegerRF)
     else if fpu \<and> like ''01001'' op then FloatingRF
     else IntegerRF)"

definition fn_decode_rd :: "u32 \<Rightarrow> 5 word" where
  "fn_decode_rd inst = (let op = opcode inst in
     if like ''11000'' op then 0
     else if like ''01000'' op then 0
     else if like ''01001'' op then 0
     else rd_field inst)"

definition fn_decode_rdtype :: "u32 \<Rightarrow> RFType" where
  "fn_decode_rdtype inst = (let upper4 = ucast (drop_bit 28 inst) :: 4 word in
     if pat ''????????????'' ''???'' ''0000111'' inst then FRF
     else if pat ''????????????'' ''???'' ''1010011'' inst then
       (if upper4 \<noteq> 10 \<and> upper4 \<noteq> 12 \<and> upper4 \<noteq> 14 then FRF else IRF)
     else if pat ''????????????'' ''???'' ''100??11'' inst then FRF
     else IRF)"

subsection \<open>Immediates\<close>

text \<open>\<open>{bit31, bit20_30, bit12_19, bit11, bit5_10, bit1_4, bit0}\<close>\<close>

definition immediate_value :: "bool \<Rightarrow> 11 word \<Rightarrow> 8 word \<Rightarrow> bool \<Rightarrow> 6 word \<Rightarrow> 4 word \<Rightarrow> bool \<Rightarrow> u32" where
  "immediate_value bit31 bit20_30 bit12_19 bit11 bit5_10 bit1_4 bit0 =
     word_cat (of_bool bit31 :: 1 word) (word_cat bit20_30 (word_cat bit12_19 (word_cat (of_bool bit11 :: 1 word)
       (word_cat bit5_10 (word_cat bit1_4 (of_bool bit0 :: 1 word) :: 5 word) :: 11 word) :: 12 word) :: 20 word) :: 31 word)"

definition fn_decode_immediate :: "u32 \<Rightarrow> CSRtoDecode \<Rightarrow> u32" where
  "fn_decode_immediate inst csrs =
     (let opcode = opcode inst;
          stype = (opcode = 0b01000 \<or> opcode = 0b01001 \<and> bit (csr_misa csrs) 5);
          btype = (opcode = 0b11000);
          utype = (opcode = 0b01101 \<or> opcode = 0b00101);
          jtype = (opcode = 0b11011);
          atomictype = (opcode = 0b01011);
          systemtype = (opcode = 0b11100);
          bit0 = (if atomictype then False else if stype then bit inst 7 else if btype \<or> utype \<or> jtype then False else bit inst 20);
          bit1_4 = (if atomictype then 0 else if stype \<or> btype then ucast (drop_bit 8 inst)
            else if utype then 0 else ucast (drop_bit 21 inst)) :: 4 word;
          bit5_10 = (if atomictype then 0 else if utype then 0 else ucast (drop_bit 25 inst)) :: 6 word;
          bit11 = (if atomictype then False else if btype then bit inst 7 else if utype then False
            else if jtype then bit inst 20 else bit inst 31);
          bit12_19 = (if atomictype then 0 else if utype \<or> jtype \<or> systemtype then ucast (drop_bit 12 inst)
            else if bit inst 31 then - 1 else 0) :: 8 word;
          bit20_30 = (if atomictype then 0 else if utype then ucast (drop_bit 20 inst)
            else if bit inst 31 then - 1 else 0) :: 11 word;
          bit31 = (if atomictype then False else bit inst 31)
      in immediate_value bit31 bit20_30 bit12_19 bit11 bit5_10 bit1_4 bit0)"

subsection \<open>The kind of instruction\<close>

datatype Access_type = Load | Store | Fence | FenceI | Atomic | SFence

definition fn_decode_mem_access :: "u32 \<Rightarrow> Access_type" where
  "fn_decode_mem_access inst = (let op = opcode inst; funct3 = funct3_field inst; funct7 = funct7_field inst in
     if like ''01000'' op then Store
     else if like ''01001'' op then Store
     else if like ''00011'' op then (if bit funct3 0 then FenceI else Fence)
     else if like ''01011'' op then Atomic
     else if like ''11100'' op then (if funct7 = 0b0001001 \<and> funct3 = 0 then SFence else Load)
     else Load)"

definition hasCSRPermission :: "(Privilege_mode \<Rightarrow> 2 word) \<Rightarrow> 12 word \<Rightarrow> bool \<Rightarrow> Privilege_mode \<Rightarrow> bool" where
  "hasCSRPermission pack_prv address write p \<longleftrightarrow>
     pack_prv p \<ge> ucast (drop_bit 8 address) \<and> \<not> (write \<and> (ucast (drop_bit 10 address) :: 2 word) = 0b11)"

definition valid_csr_access :: "(Privilege_mode \<Rightarrow> 2 word) \<Rightarrow> 12 word \<Rightarrow> 5 word \<Rightarrow> 2 word \<Rightarrow> bool \<Rightarrow> Privilege_mode \<Rightarrow> bool" where
  "valid_csr_access pack_prv csr_addr operand_field operation tvm p =
     (let ret = hasCSRPermission pack_prv csr_addr (operand_field \<noteq> 0 \<or> operation = 0b01) p
      in if ret \<and> csr_addr = 0x180 \<and> tvm \<and> p = Supervisor then False else ret)"

text \<open>
  \<open>fn_decode_insttype\<close>. The branch of the system instructions stands by itself, as does the group
  of floating-point patterns.
\<close>

definition system_insttype :: "(Privilege_mode \<Rightarrow> 2 word) \<Rightarrow> (12 word \<Rightarrow> 26 word \<Rightarrow> bool \<Rightarrow> bool) \<Rightarrow> u32 \<Rightarrow> CSRtoDecode \<Rightarrow> Instruction_type" where
  "system_insttype pack_prv address_valid inst csrs =
     (let funct3 = funct3_field inst; imm12 = imm12_field inst; mstatus = csr_mstatus csrs; misa = csr_misa csrs;
          fs = (ucast (drop_bit 13 mstatus) :: 2 word) \<noteq> 0;
          address_is_valid = address_valid imm12 misa fs;
          access_is_valid = valid_csr_access pack_prv imm12 (rs1_field inst) (ucast (drop_bit 12 inst)) (bit mstatus 20) (prv csrs);
          rs1_rd_zero = (ucast (drop_bit 7 inst) :: 13 word) = 0
      in if funct3 = 0 then
           if imm12 = 0b000000000010 \<and> rs1_rd_zero \<and> bit misa 13 then SYSTEM_INSTR
           else if imm12 = 0b000100000010 \<and> rs1_rd_zero \<and> bit misa 18 then
             (if prv csrs = Machine \<or> prv csrs = Supervisor \<and> \<not> bit mstatus 22 then SYSTEM_INSTR else TRAP_INSTR)
           else if imm12 = 0b001100000010 \<and> rs1_rd_zero \<and> prv csrs = Machine then SYSTEM_INSTR
           else if imm12 = 0b00100000101 \<and> rs1_rd_zero \<and> (prv csrs = Machine \<or> \<not> bit mstatus 21) then WFI
           else if funct7_field inst = 0b001001 \<and> (ucast (drop_bit 7 inst) :: 8 word) = 0 \<and> (\<not> bit mstatus 20 \<or> prv csrs = Machine)
             then MEMORY_INSTR
           else TRAP_INSTR
         else if funct3 \<noteq> 4 \<and> address_is_valid \<and> access_is_valid then SYSTEM_INSTR
         else TRAP_INSTR)"

definition float_insttype :: "u32 \<Rightarrow> CSRtoDecode \<Rightarrow> Instruction_type" where
  "float_insttype inst csrs =
     (let funct3 = funct3_field inst; funct7 = funct7_field inst; misa = csr_misa csrs; rm = frm csrs;
          fs = (ucast (drop_bit 13 (csr_mstatus csrs)) :: 2 word) \<noteq> 0;
          valid_rounding = (if funct3 = 0b111 then rm \<noteq> 0b101 \<and> rm \<noteq> 0b110 \<and> rm \<noteq> 0b111 else funct3 \<noteq> 0b101 \<and> funct3 \<noteq> 0b110);
          f = bit misa 5; d = bit misa 3; funct3_low = ucast funct3 :: 2 word;
          float = (\<lambda>b. if b then FLOAT else TRAP_INSTR); memory = (\<lambda>b. if b then MEMORY_INSTR else TRAP_INSTR)
      in if pat ''????????????'' ''010'' ''0000111'' inst then memory (f \<and> fs)
         else if pat ''????????????'' ''010'' ''0100111'' inst then memory (f \<and> fs)
         else if pat ''?????0??????'' ''???'' ''100??11'' inst then float (valid_rounding \<and> f \<and> d \<and> fs)
         else if pat ''000??0??????'' ''???'' ''1010011'' inst then float (valid_rounding \<and> f \<and> d \<and> fs)
         else if pat ''010110000000'' ''???'' ''1010011'' inst then float (valid_rounding \<and> f \<and> fs)
         else if pat ''001000??????'' ''0??'' ''1010011'' inst then float (funct3_low \<noteq> 3 \<and> f \<and> d \<and> fs)
         else if pat ''001010??????'' ''00?'' ''1010011'' inst then float (f \<and> fs \<and> d)
         else if pat ''101000??????'' ''0??'' ''1010011'' inst then float (funct3_low \<noteq> 3 \<and> f \<and> d \<and> fs)
         else if pat ''111?00?00000'' ''00?'' ''1010011'' inst then float ((\<not> bit funct3 0 \<or> \<not> bit funct7 3) \<and> f \<and> d \<and> fs)
         else if pat ''110?00?000??'' ''???'' ''1010011'' inst then float (valid_rounding \<and> f \<and> fs \<and> (d \<or> \<not> bit funct7 0))
         else if pat ''????????????'' ''011'' ''0000111'' inst then memory (d \<and> f \<and> fs)
         else if pat ''????????????'' ''011'' ''0100111'' inst then memory (d \<and> f \<and> fs)
         else if pat ''010110100000'' ''???'' ''1010011'' inst then float (valid_rounding \<and> f \<and> d \<and> fs)
         else if pat ''010000?0000?'' ''???'' ''1010011'' inst then float (bit funct7 0 \<noteq> bit inst 20 \<and> valid_rounding \<and> f \<and> d \<and> fs)
         else TRAP_INSTR)"

definition fn_decode_insttype ::
    "bool \<Rightarrow> (Privilege_mode \<Rightarrow> 2 word) \<Rightarrow> (12 word \<Rightarrow> 26 word \<Rightarrow> bool \<Rightarrow> bool) \<Rightarrow> u32 \<Rightarrow> CSRtoDecode \<Rightarrow> Instruction_type" where
  "fn_decode_insttype fpu pack_prv address_valid inst csrs =
     (let funct3 = funct3_field inst; funct7 = funct7_field inst; misa = csr_misa csrs;
          alu = (\<lambda>b. if b then ALU else TRAP_INSTR); memory = (\<lambda>b. if b then MEMORY_INSTR else TRAP_INSTR);
          func5 = ucast (drop_bit 27 inst) :: 5 word
      in if pat ''????????????'' ''???'' ''0110111'' inst then ALU
         else if pat ''????????????'' ''???'' ''0010111'' inst then ALU
         else if pat ''????????????'' ''???'' ''1101111'' inst then JAL
         else if pat ''????????????'' ''000'' ''1100111'' inst then JALR
         else if pat ''????????????'' ''???'' ''1100011'' inst then (if funct3 \<noteq> 0b011 \<and> funct3 \<noteq> 0b010 then BRANCH else TRAP_INSTR)
         else if pat ''????????????'' ''???'' ''0000011'' inst then memory (funct3 \<noteq> 7)
         else if pat ''????????????'' ''0??'' ''0100011'' inst then MEMORY_INSTR
         else if pat ''????????????'' ''???'' ''0010011'' inst then
           (if funct3 = 1 then alu ((ucast (drop_bit 26 inst) :: 6 word) = 0)
            else if funct3 = 5 then alu (like ''0?0000'' (ucast (drop_bit 26 inst) :: 6 word))
            else ALU)
         else if pat ''0?00000?????'' ''???'' ''0110011'' inst then
           (if bit inst 30 then alu (funct3 = 0 \<or> funct3 = 5) else ALU)
         else if pat ''????????????'' ''000'' ''0001111'' inst then MEMORY_INSTR
         else if inst = 0b00000000000000000000000001110011 then TRAP_INSTR
         else if inst = 0b00000000000100000000000001110011 then TRAP_INSTR
         else if pat ''????????????'' ''???'' ''0011011'' inst then
           alu (funct3 = 0 \<or> funct3 = 1 \<and> funct7 = 0 \<or> funct3 = 5 \<and> \<not> bit inst 31 \<and> (ucast (drop_bit 25 inst) :: 5 word) = 0)
         else if pat ''0?00000?????'' ''???'' ''0111011'' inst then alu (funct3 = 0 \<or> funct3 = 5 \<or> funct3 = 1 \<and> \<not> bit inst 30)
         else if pat ''????????????'' ''001'' ''0001111'' inst then MEMORY_INSTR
         else if pat ''????????????'' ''???'' ''1110011'' inst then system_insttype pack_prv address_valid inst csrs
         else if pat ''0000001?????'' ''???'' ''0110011'' inst then (if bit misa 12 then MULDIV else TRAP_INSTR)
         else if pat ''0000001?????'' ''???'' ''0111011'' inst then
           (if bit misa 12 \<and> (funct3 = 0 \<or> funct3 > 3) then MULDIV else TRAP_INSTR)
         else if pat ''????????????'' ''???'' ''1110111'' inst then (if bit misa 15 then PSIMD else TRAP_INSTR)
         else if pat ''????????????'' ''01?'' ''0101111'' inst then
           (if func5 \<in> {0, 1, 3, 4, 8, 12, 16, 20, 24, 28} then memory (bit misa 0)
            else if func5 = 2 then memory (rs2_field inst = 0 \<and> bit misa 0)
            else TRAP_INSTR)
         else if fpu then float_insttype inst csrs
         else TRAP_INSTR)"

subsection \<open>The function code\<close>

definition fn_decode_fn :: "bool \<Rightarrow> u32 \<Rightarrow> CSRtoDecode \<Rightarrow> 4 word" where
  "fn_decode_fn fpu inst csrs =
     (let funct3 = funct3_field inst; funct7 = funct7_field inst in
      if pat ''????????????'' ''01?'' ''0101111'' inst then
        (if bit inst 27 \<or> bit inst 28 then word_cat (ucast (drop_bit 27 inst) :: 3 word) (1 :: 1 word)
         else word_cat (ucast (drop_bit 29 inst) :: 3 word) (ucast (drop_bit 27 inst) :: 1 word))
      else if pat ''????????????'' ''???'' ''1100011'' inst then
        (if \<not> bit inst 14 then word_cat (0b001 :: 3 word) (ucast funct3 :: 1 word) else word_cat (1 :: 1 word) funct3)
      else if pat ''????????????'' ''???'' ''001?011'' inst then
        (if funct3 = 0b010 then 0b1100
         else if funct3 = 0b011 then 0b1110
         else if funct3 = 0b101 then (if bit funct7 5 then 0b1011 else 0b0101)
         else word_cat (0 :: 1 word) funct3)
      else if pat ''0?00000?????'' ''???'' ''011?011'' inst then
        (if funct3 = 0b000 then (if bit funct7 5 then 0b1010 else 0b0000)
         else if funct3 = 0b010 then 0b1100
         else if funct3 = 0b011 then 0b1110
         else if funct3 = 0b101 then (if bit funct7 5 then 0b1011 else 0b0101)
         else word_cat (0 :: 1 word) funct3)
      else if fpu \<and> pat ''????????????'' ''???'' ''10?????'' inst then
        (if bit (csr_misa csrs) 5 \<or> bit (csr_misa csrs) 3 then ucast (drop_bit 2 inst) else FNADD)
      else FNADD)"

definition decode_word32 :: "bool \<Rightarrow> u32 \<Rightarrow> bool" where
  "decode_word32 fpu inst =
     (let opcode = opcode inst; funct7 = funct7_field inst; funct3 = funct3_field inst in
      opcode = 0b00110 \<or> opcode = 0b01110 \<or> opcode = 0b01110 \<or> opcode = 0b11101 \<or>
      (ucast (drop_bit 1 opcode) :: 4 word) = 0b0101 \<and> \<not> bit funct3 0 \<or>
      fpu \<and> (ucast (drop_bit 3 opcode) :: 2 word) = 0b10 \<and> \<not> bit funct7 0)"

subsection \<open>Traps and interrupts\<close>

text \<open>\<open>src/trap.defines\<close>\<close>

abbreviation Illegal_inst :: u64 where "Illegal_inst \<equiv> 2"
abbreviation Breakpoint :: u64 where "Breakpoint \<equiv> 3"
abbreviation Ecall_from_user :: u64 where "Ecall_from_user \<equiv> 8"
abbreviation Ecall_from_supervisor :: u64 where "Ecall_from_supervisor \<equiv> 9"
abbreviation Ecall_from_machine :: u64 where "Ecall_from_machine \<equiv> 11"

definition fn_decode_trapcause :: "u32 \<Rightarrow> CSRtoDecode \<Rightarrow> u64" where
  "fn_decode_trapcause inst csrs =
     (if inst = 0b00000000000000000000000001110011 then
        (if bit (csr_misa csrs) 20 \<and> prv csrs = User then Ecall_from_user
         else if bit (csr_misa csrs) 18 \<and> prv csrs = Supervisor then Ecall_from_supervisor
         else Ecall_from_machine)
      else if inst = 0b00000000000100000000000001110011 then Breakpoint
      else Illegal_inst)"

text \<open>
  The cause is the pair of the interrupt bit and the number; \<open>'1\<close>, the number without an interrupt,
  is \<open>- 1\<close>.
\<close>

definition chk_interrupt ::
    "Privilege_mode \<Rightarrow> u64 \<Rightarrow> u64 \<Rightarrow> 17 word \<Rightarrow> 17 word \<Rightarrow> 17 word \<Rightarrow> (bool \<times> int) \<times> bool" where
  "chk_interrupt p mstatus sstatus mip mie mideleg =
     (let m_enabled = (p \<noteq> Machine \<or> bit mstatus 3);
          s_enabled = (p = User \<or> bit sstatus 1 \<and> p = Supervisor);
          m_interrupts = mie AND mip AND (if m_enabled then - 1 else 0) AND NOT mideleg;
          s_interrupts = mie AND mip AND mideleg AND (if s_enabled then - 1 else 0);
          pending_interrupts = m_interrupts OR s_interrupts;
          taketrap = (pending_interrupts \<noteq> 0);
          int_cause =
            (if bit pending_interrupts 11 then 11
             else if bit pending_interrupts 3 then 3
             else if bit pending_interrupts 7 then 7
             else if bit pending_interrupts 9 then 9
             else if bit pending_interrupts 1 then 1
             else if bit pending_interrupts 5 then 5
             else if bit pending_interrupts 8 then 8
             else if bit pending_interrupts 0 then 0
             else if bit pending_interrupts 4 then 4
             else - 1)
      in ((True, int_cause), taketrap))"

subsection \<open>What stage 2 sends on\<close>

text \<open>
  \<open>fn_decode\<close> and \<open>decoder_func\<close>, for an instruction without a microtrap and without a fault of the
  fetch, and the part of \<open>decode_and_opfetch\<close> that puts the fields into \<open>Stage3Meta\<close> and
  \<open>OpMeta\<close>; \<open>WFI\<close> goes on as an \<open>ALU\<close> instruction.
\<close>

definition decoded_type ::
    "bool \<Rightarrow> (Privilege_mode \<Rightarrow> 2 word) \<Rightarrow> (12 word \<Rightarrow> 26 word \<Rightarrow> bool \<Rightarrow> bool) \<Rightarrow> u32 \<Rightarrow> CSRtoDecode \<Rightarrow> Instruction_type" where
  "decoded_type fpu pack_prv address_valid inst csrs =
     (let x_inst_type = fn_decode_insttype fpu pack_prv address_valid inst csrs;
          (icause, takeinterrupt) = chk_interrupt (prv csrs) (csr_mstatus csrs) (csr_sstatus csrs) (csr_mip csrs) (csr_mie csrs) (csr_mideleg csrs)
      in if takeinterrupt \<and> x_inst_type \<noteq> WFI then TRAP_INSTR else x_inst_type)"

definition decode_stage ::
    "bool \<Rightarrow> (Privilege_mode \<Rightarrow> 2 word) \<Rightarrow> (12 word \<Rightarrow> 26 word \<Rightarrow> bool \<Rightarrow> bool) \<Rightarrow> CSRtoDecode \<Rightarrow> bool \<Rightarrow> bool \<times> bool \<Rightarrow> u64 \<Rightarrow> u32 \<Rightarrow> decoded" where
  "decode_stage fpu pack_prv address_valid csrs compressed ep addr inst =
     (let t = decoded_type fpu pack_prv address_valid inst csrs in
      \<lparr>instruction = inst,
       inst_type = (if t = WFI then ALU else t),
       rs1addr = fn_decode_rs1 inst, rs1type = fn_decode_rs1type fpu inst,
       rs2addr = fn_decode_rs2 fpu inst, rs2type = fn_decode_rs2type fpu inst compressed,
       imm = scast (fn_decode_immediate inst csrs),
       dest = (if fpu then fn_decode_rdtype inst else IRF, fn_decode_rd inst),
       fn = fn_decode_fn fpu inst csrs, word32 = decode_word32 fpu inst,
       pc = addr, incr = (if compressed then 2 else 4), epochs = ep\<rparr>)"

subsection \<open>Interrupts that can be taken, and their order\<close>

definition interrupt_enabled :: "Privilege_mode \<Rightarrow> u64 \<Rightarrow> u64 \<Rightarrow> 17 word \<Rightarrow> 17 word \<Rightarrow> 17 word \<Rightarrow> nat \<Rightarrow> bool" where
  "interrupt_enabled p mstatus sstatus mip mie mideleg i \<longleftrightarrow>
     bit mip i \<and> bit mie i \<and>
     (if bit mideleg i then p = User \<or> p = Supervisor \<and> bit sstatus 1 else p \<noteq> Machine \<or> bit mstatus 3)"

definition interrupt_order :: "nat list" where
  "interrupt_order = [11, 3, 7, 9, 1, 5, 8, 0, 4]"

lemma pending_bit:
  fixes mip mie mideleg :: "17 word"
  shows "bit (mie AND mip AND (if m then - 1 else 0) AND NOT mideleg OR mie AND mip AND mideleg AND (if s then - 1 else 0)) i \<longleftrightarrow>
    bit mip i \<and> bit mie i \<and> (if bit mideleg i then s else m)"
  by (auto simp: bit_or_iff bit_and_iff bit_not_iff dest: bit_imp_le_length)

lemma bit_interrupt: "bit (mip :: 17 word) i \<Longrightarrow> i < 17"
  using bit_imp_le_length [of mip i] by simp

text \<open>A delegated interrupt can be reported before one that goes to machine mode.\<close>

lemma delegated_interrupt_first:
  "chk_interrupt Supervisor 0 2 0b1000000010 0b1000000010 0b1000000000 = ((True, 9), True)"
  by (simp add: chk_interrupt_def)

subsection \<open>Property\<close>

text \<open>
  C15 (interrupts). A trap is taken exactly when an interrupt is pending and enabled: one that is
  delegated in user mode, or in supervisor mode with \<open>sstatus.SIE\<close>; another one below machine mode,
  or there with \<open>mstatus.MIE\<close>. The cause is the first such interrupt in the order external,
  software, timer of machine, supervisor and user mode.
\<close>

theorem interrupt_selection:
  "chk_interrupt p mstatus sstatus mip mie mideleg =
    (let enabled = interrupt_enabled p mstatus sstatus mip mie mideleg in
     ((True, case List.find enabled interrupt_order of None \<Rightarrow> - 1 | Some i \<Rightarrow> int i), \<exists>i<17. enabled i))"
  (is "?chk = (let enabled = ?en in _)")
proof -
  let ?m = "p \<noteq> Machine \<or> bit mstatus 3" and ?s = "p = User \<or> bit sstatus 1 \<and> p = Supervisor"
  let ?w = "mie AND mip AND (if ?m then - 1 else 0) AND NOT mideleg OR mie AND mip AND mideleg AND (if ?s then - 1 else 0)"
  have en: "bit ?w i = ?en i" for i
    unfolding pending_bit by (auto simp: interrupt_enabled_def)
  have "?w \<noteq> 0 \<longleftrightarrow> (\<exists>i<17. ?en i)"
    unfolding en [symmetric] using bit_interrupt [of ?w] by (metis bit_0_eq bit_word_eqI bot_apply bot_bool_def)
  then show ?thesis
    unfolding chk_interrupt_def Let_def en by (simp add: interrupt_order_def)
qed

end
