(* ===== verification/Core_Forwarding.thy ===== *)
theory Core_Forwarding
  imports Core_Operands
begin

section \<open>Operand forwarding is sequential execution\<close>

text \<open>
  In-flight instructions are kept with the result that they carry, oldest first. The invariant of
  the pipeline says what the scoreboard knows of them, and that every one of the current epoch has
  read, from the bypass or from the register file, what the older ones leave behind.
\<close>

subsection \<open>Instructions in flight\<close>

type_synonym 'id in_flight = "('id FUid \<times> u64 option) list"

fun results :: "'id FUid list \<Rightarrow> 'id BaseOut list \<Rightarrow> 'id in_flight" where
  "results [] bs = []"
| "results (f # fs) bs =
     (if fu_type f = BASE then (f, Some (rdvalue (hd bs))) # results fs (tl bs) else (f, None) # results fs bs)"

text \<open>The results in a buffer belong to its \<open>BASE\<close> instructions, in order.\<close>

fun aligned :: "'id FUid list \<Rightarrow> 'id BaseOut list \<Rightarrow> bool" where
  "aligned [] bs \<longleftrightarrow> bs = []"
| "aligned (f # fs) bs \<longleftrightarrow>
     (if fu_type f = BASE
      then bs \<noteq> [] \<and> base_id (hd bs) = fu_id f \<and> base_rd (hd bs) = fu_rd f \<and> base_epochs (hd bs) = fu_epochs f \<and>
        aligned fs (tl bs)
      else aligned fs bs)"

lemma aligned_snoc:
  "aligned fs bs \<Longrightarrow> fu_type f \<noteq> BASE \<Longrightarrow> aligned (fs @ [f]) bs \<and> results (fs @ [f]) bs = results fs bs @ [(f, None)]"
  by (induction fs bs rule: aligned.induct) auto

lemma aligned_snoc_base:
  "aligned fs bs \<Longrightarrow> fu_type f = BASE \<Longrightarrow> base_id b = fu_id f \<Longrightarrow> base_rd b = fu_rd f \<Longrightarrow> base_epochs b = fu_epochs f \<Longrightarrow>
    aligned (fs @ [f]) (bs @ [b]) \<and> results (fs @ [f]) (bs @ [b]) = results fs bs @ [(f, Some (rdvalue b))]"
  by (induction fs bs rule: aligned.induct) auto

lemma aligned_hd:
  "aligned fs (b # bs) \<Longrightarrow>
    \<exists>f. (f, Some (rdvalue b)) \<in> set (results fs (b # bs)) \<and> fu_id f = base_id b \<and> fu_rd f = base_rd b \<and> fu_epochs f = base_epochs b"
  by (induction fs "b # bs" rule: aligned.induct) (auto split: if_splits)

lemma length_results [simp]: "length (results fs bs) = length fs"
  by (induction fs bs rule: results.induct) simp_all

definition queue :: "'id core \<Rightarrow> 'id in_flight" where
  "queue s = results (s4s5_fuid s) (s4s5_baseout s) @ results (s3s4_fuid s) (s3s4_baseout s)"

subsection \<open>The youngest writer of a register\<close>

definition last_writer :: "reg \<Rightarrow> 'id in_flight \<Rightarrow> ('id FUid \<times> u64 option) option" where
  "last_writer r q = fold (\<lambda>x y. if fu_rd (fst x) = r then Some x else y) q None"

lemma last_writer_Nil [simp]: "last_writer r [] = None"
  by (simp add: last_writer_def)

lemma last_writer_snoc [simp]: "last_writer r (q @ [x]) = (if fu_rd (fst x) = r then Some x else last_writer r q)"
  by (simp add: last_writer_def)

lemma last_writer_append:
  "last_writer r (p @ q) = (case last_writer r q of None \<Rightarrow> last_writer r p | Some x \<Rightarrow> Some x)"
  by (induction q rule: rev_induct) (simp_all flip: append_assoc split: option.split)

lemma last_writer_Cons:
  "last_writer r (x # q) =
    (case last_writer r q of None \<Rightarrow> if fu_rd (fst x) = r then Some x else None | Some y \<Rightarrow> Some y)"
  using last_writer_append [of r "[x]" q] last_writer_snoc [of r "[]" x] by (simp split: option.split)

lemma last_writer_SomeD: "last_writer r q = Some x \<Longrightarrow> x \<in> set q \<and> fu_rd (fst x) = r"
  by (induction q rule: rev_induct) (auto split: if_splits)

lemma last_writer_None: "last_writer r q = None \<longleftrightarrow> (\<forall>x\<in>set q. fu_rd (fst x) \<noteq> r)"
  by (induction q rule: rev_induct) auto

lemma last_writer_filter: "last_writer r q = Some x \<Longrightarrow> P x \<Longrightarrow> last_writer r (filter P q) = Some x"
  by (induction q rule: rev_induct) (auto split: if_splits)

text \<open>What a younger instruction has to read: the register file's value, or the result of the last writer.\<close>

definition expected :: "(reg \<Rightarrow> u64) \<Rightarrow> 'id in_flight \<Rightarrow> reg \<Rightarrow> u64 option" where
  "expected f older r =
     (if r = x0 then Some (f r) else case last_writer r older of None \<Rightarrow> Some (f r) | Some x \<Rightarrow> snd x)"

lemma expected_Nil [simp]: "expected f [] r = Some (f r)"
  by (simp add: expected_def)

lemma expected_commit:
  assumes "expected f ((u, v) # older) r = Some y" and "v = None \<or> v = Some x"
  shows "expected (commit_rd (fu_rd u) x f) older r = Some y"
  using assms by (cases "fu_rd u") (auto simp: expected_def last_writer_Cons commit_rd_def split: option.splits if_splits)

subsection \<open>The invariant\<close>

definition numbered :: "'i::len word \<Rightarrow> 'i word in_flight \<Rightarrow> bool" where
  "numbered n q \<longleftrightarrow> (\<exists>i. List.map (fu_id \<circ> fst) q = List.map (\<lambda>k. i + of_nat k) [0..<length q] \<and> n = i + of_nat (length q))"

definition epochs_split :: "bool \<Rightarrow> 'id in_flight \<Rightarrow> bool" where
  "epochs_split w q \<longleftrightarrow> sorted_wrt (\<lambda>x y. fu_epochs (fst x) = w \<longrightarrow> fu_epochs (fst y) = w) q"

definition current :: "bool \<Rightarrow> 'id in_flight \<Rightarrow> 'id in_flight" where
  "current w q = filter (\<lambda>x. fu_epochs (fst x) = w) q"

definition writer_id :: "reg \<Rightarrow> 'id in_flight \<Rightarrow> 'id option" where
  "writer_id r q = map_option (fu_id \<circ> fst) (last_writer r q)"

definition board_ok :: "'i::len word scoreboard \<Rightarrow> 'i word in_flight \<Rightarrow> bool" where
  "board_ok b q \<longleftrightarrow> \<not> rf_lock b x0 \<and>
     (\<forall>r. r \<noteq> x0 \<longrightarrow> (case writer_id r q of None \<Rightarrow> \<not> rf_lock b r | Some i \<Rightarrow> rf_lock b r \<and> v_id b r = i))"

definition register2 :: "decoded \<Rightarrow> bool" where
  "register2 m \<longleftrightarrow> rs2type m = IntegerRF \<or> rs2type m = FloatingRF"

definition reads_ok :: "(reg \<Rightarrow> u64) \<Rightarrow> 'id in_flight \<Rightarrow> 'id FUid \<Rightarrow> bool" where
  "reads_ok f older u \<longleftrightarrow> (let m = fu_inst u in
     fu_rd u = dest m \<and>
     (inst_type m \<noteq> TRAP_INSTR \<longrightarrow> expected f older (src1 m) = Some (fu_op1 u)) \<and>
     (inst_type m \<noteq> TRAP_INSTR \<and> inst_type m \<noteq> SYSTEM_INSTR \<longrightarrow>
       (if register2 m then expected f older (src2 m) = Some (fu_op2 u)
        else rs2addr m = 0 \<longrightarrow> fu_op2 u = op2_value m f)))"

definition result_ok :: "(u32 \<Rightarrow> u64 \<Rightarrow> u64 \<Rightarrow> u64 \<Rightarrow> u64) \<Rightarrow> 'id FUid \<times> u64 option \<Rightarrow> bool" where
  "result_ok psimd = (\<lambda>(u, v). let m = fu_inst u in
     (inst_type m = TRAP_INSTR \<longrightarrow> fu_type u = TRAP) \<and>
     (inst_type m = ALU \<longrightarrow> fu_type u = BASE \<and>
       v = Some (alu_result (fu_op1 u) (fu_op2 u) (fn m) (pc m) (rs1type m = Op1_PC) (word32 m))) \<and>
     (inst_type m = PSIMD \<longrightarrow> fu_type u = EXE_PSIMD \<or>
       fu_type u = BASE \<and> v = Some (psimd (instruction m) (fu_op1 u) (fu_op2 u) (fu_opd u))))"

fun all_ok :: "(u32 \<Rightarrow> u64 \<Rightarrow> u64 \<Rightarrow> u64 \<Rightarrow> u64) \<Rightarrow> (reg \<Rightarrow> u64) \<Rightarrow> 'id in_flight \<Rightarrow> 'id in_flight \<Rightarrow> bool" where
  "all_ok psimd f older [] \<longleftrightarrow> True"
| "all_ok psimd f older (x # q) \<longleftrightarrow> reads_ok f older (fst x) \<and> result_ok psimd x \<and> all_ok psimd f (older @ [x]) q"

definition pending_ok :: "'id core \<Rightarrow> bool" where
  "pending_ok s \<longleftrightarrow> (\<forall>m. s2s3 s = Some m \<longrightarrow>
     fwd_reg (rg_op1 s) = src1 m \<and> fwd_data (rg_op1 s) = rf s (src1 m) \<and>
     fwd_reg (rg_op2 s) = src2 m \<and> fwd_data (rg_op2 s) = op2_value m (rf s) \<and> rg_op2type s = rs2type m)"

text \<open>The bookkeeping, and with it what the instructions of the current epoch have read and computed.\<close>

definition frame_inv :: "nat \<Rightarrow> nat \<Rightarrow> 'i::len word core \<Rightarrow> bool" where
  "frame_inv n34 n45 s \<longleftrightarrow>
     aligned (s4s5_fuid s) (s4s5_baseout s) \<and> aligned (s3s4_fuid s) (s3s4_baseout s) \<and>
     length (s3s4_fuid s) \<le> n34 \<and> length (s4s5_fuid s) \<le> n45 \<and>
     numbered (rg_renameid (sboard s)) (queue s) \<and> board_ok (sboard s) (queue s) \<and> pending_ok s"

definition core_inv :: "nat \<Rightarrow> nat \<Rightarrow> (u32 \<Rightarrow> u64 \<Rightarrow> u64 \<Rightarrow> u64 \<Rightarrow> u64) \<Rightarrow> 'i::len word core \<Rightarrow> bool" where
  "core_inv n34 n45 psimd s \<longleftrightarrow> frame_inv n34 n45 s \<and> epochs_split (rg_wEpoch s) (queue s) \<and>
     all_ok psimd (rf s) [] (current (rg_wEpoch s) (queue s))"

subsection \<open>How the parts of the invariant change\<close>

text \<open>\<open>same_frame\<close>: an instruction in flight may change its type and get a result, nothing else.\<close>

definition same_frame :: "'id FUid \<times> u64 option \<Rightarrow> 'id FUid \<times> u64 option \<Rightarrow> bool" where
  "same_frame x y \<longleftrightarrow> (\<exists>t. fst y = (fst x)\<lparr>fu_type := t\<rparr>) \<and> (snd x = None \<or> snd y = snd x)"

lemma same_frameD:
  assumes "same_frame x y"
  shows "fu_id (fst y) = fu_id (fst x)" "fu_rd (fst y) = fu_rd (fst x)" "fu_epochs (fst y) = fu_epochs (fst x)"
    "fu_inst (fst y) = fu_inst (fst x)" "fu_op1 (fst y) = fu_op1 (fst x)" "fu_op2 (fst y) = fu_op2 (fst x)"
    "snd x = None \<or> snd y = snd x"
  using assms by (auto simp: same_frame_def)

lemma numbered_distinct:
  fixes n :: "'i::len word"
  assumes "numbered n q" and "length q \<le> 2 ^ LENGTH('i)"
  shows "distinct (List.map (fu_id \<circ> fst) q)"
proof -
  obtain i where i: "List.map (fu_id \<circ> fst) q = List.map (\<lambda>k. i + of_nat k) [0..<length q]"
    using assms(1) by (auto simp: numbered_def)
  have "inj_on (\<lambda>k. i + of_nat k) {0..<length q}"
  proof (rule inj_onI)
    fix j k
    assume "j \<in> {0..<length q}" "k \<in> {0..<length q}" "i + of_nat j = i + of_nat k"
    then show "j = k" using assms(2) word_of_nat_eq_iff [of j k, where 'a = 'i] by (auto simp: take_bit_nat_eq_self)
  qed
  then show ?thesis unfolding i by (simp add: distinct_map)
qed

lemma numbered_pop: "numbered n (x # q) \<Longrightarrow> numbered n q"
proof -
  assume "numbered n (x # q)"
  then obtain i where i: "List.map (fu_id \<circ> fst) (x # q) = List.map (\<lambda>k. i + of_nat k) [0..<length (x # q)]"
    "n = i + of_nat (length (x # q))" by (auto simp: numbered_def)
  have "[0..<length (x # q)] = 0 # List.map Suc [0..<length q]" by (simp add: map_Suc_upt upt_conv_Cons del: upt_Suc)
  then have "List.map (fu_id \<circ> fst) q = List.map (\<lambda>k. (i + 1) + of_nat k) [0..<length q]"
    using i(1) by (simp add: comp_def add.assoc)
  then show ?thesis using i(2) by (auto simp: numbered_def intro!: exI [of _ "i + 1"])
qed

lemma numbered_snoc: "numbered n q \<Longrightarrow> fu_id (fst x) = n \<Longrightarrow> numbered (n + 1) (q @ [x])"
  by (auto simp: numbered_def add.assoc)

lemma numbered_replace: "same_frame x y \<Longrightarrow> numbered n (p @ x # q) \<Longrightarrow> numbered n (p @ y # q)"
  by (drule same_frameD(1)) (simp add: numbered_def)

lemma epochs_split_pop: "epochs_split w (x # q) \<Longrightarrow> epochs_split w q"
  by (simp add: epochs_split_def)

lemma epochs_split_snoc: "epochs_split w q \<Longrightarrow> fu_epochs (fst x) = w \<Longrightarrow> epochs_split w (q @ [x])"
  by (simp add: epochs_split_def sorted_wrt_append)

lemma epochs_split_replace:
  assumes "same_frame x y" and "epochs_split w (p @ x # q)"
  shows "epochs_split w (p @ y # q)"
proof -
  have e: "fu_epochs (fst y) \<longleftrightarrow> fu_epochs (fst x)" using same_frameD(3) [OF assms(1)] by simp
  show ?thesis using assms(2) unfolding epochs_split_def sorted_wrt_append sorted_wrt.simps list.set ball_simps e .
qed

text \<open>When the oldest instruction flips the epoch, everything younger is stale.\<close>

lemma epochs_split_flush:
  assumes "epochs_split w (x # q)" and "fu_epochs (fst x) = w"
  shows "epochs_split (\<not> w) q" "current (\<not> w) q = []"
proof -
  have all: "\<forall>y\<in>set q. fu_epochs (fst y) = w" using assms by (simp add: epochs_split_def)
  then show "current (\<not> w) q = []" by (simp add: current_def filter_empty_conv)
  from all show "epochs_split (\<not> w) q" unfolding epochs_split_def by (induction q) auto
qed

lemma current_Cons: "current w (x # q) = (if fu_epochs (fst x) = w then x # current w q else current w q)"
  by (simp add: current_def)

lemma current_append [simp]: "current w (p @ q) = current w p @ current w q"
  by (simp add: current_def)

subsubsection \<open>The scoreboard\<close>

lemma writer_id_snoc [simp]:
  "writer_id r (q @ [x]) = (if fu_rd (fst x) = r then Some (fu_id (fst x)) else writer_id r q)"
  by (simp add: writer_id_def)

lemma writer_id_Cons:
  "writer_id r (x # q) = (case writer_id r q of None \<Rightarrow> if fu_rd (fst x) = r then Some (fu_id (fst x)) else None
    | Some i \<Rightarrow> Some i)"
  by (simp add: writer_id_def last_writer_Cons split: option.split)

lemma writer_id_append: "writer_id r (p @ q) = (case writer_id r q of None \<Rightarrow> writer_id r p | Some i \<Rightarrow> Some i)"
  by (simp add: writer_id_def last_writer_append split: option.split)

lemma writer_id_SomeD: "writer_id r q = Some i \<Longrightarrow> \<exists>x. last_writer r q = Some x \<and> fu_id (fst x) = i"
  by (cases "last_writer r q") (simp_all add: writer_id_def)

lemma writer_id_in: "writer_id r q = Some i \<Longrightarrow> i \<in> set (List.map (fu_id \<circ> fst) q)"
proof -
  assume "writer_id r q = Some i"
  from writer_id_SomeD [OF this] obtain x where x: "last_writer r q = Some x" "fu_id (fst x) = i" by (elim exE conjE)
  from last_writer_SomeD [OF x(1)] show ?thesis unfolding x(2) [symmetric] by simp
qed

lemma board_okD:
  assumes "board_ok b q" and "r \<noteq> x0"
  shows "case writer_id r q of None \<Rightarrow> \<not> rf_lock b r | Some i \<Rightarrow> rf_lock b r \<and> v_id b r = i"
  using assms by (simp add: board_ok_def del: split_paired_All)

lemma board_lock:
  assumes "board_ok b q" and "ma_lock_rd r b = (i, b')"
  shows "i = rg_renameid b" "rg_renameid b' = rg_renameid b + 1"
    "fu_rd (fst x) = r \<Longrightarrow> fu_id (fst x) = i \<Longrightarrow> board_ok b' (q @ [x])"
proof -
  show ids: "i = rg_renameid b" "rg_renameid b' = rg_renameid b + 1" using assms(2) by (auto simp: ma_lock_rd_def Let_def)
  assume x: "fu_rd (fst x) = r" "fu_id (fst x) = i"
  have b': "rg_rf_board b' = (if r \<noteq> x0 then (rg_rf_board b)(r := \<lparr>entry_id = i, lock = True\<rparr>) else rg_rf_board b)"
    using assms(2) ids by (auto simp: ma_lock_rd_def Let_def)
  have "case writer_id s (q @ [x]) of None \<Rightarrow> \<not> rf_lock b' s | Some j \<Rightarrow> rf_lock b' s \<and> v_id b' s = j" if "s \<noteq> x0" for s
    using board_okD [OF assms(1) that] x that by (auto simp: rf_lock_def v_id_def b' split: option.split)
  moreover have "\<not> rf_lock b' x0" using assms(1) by (simp add: board_ok_def rf_lock_def b')
  ultimately show "board_ok b' (q @ [x])" by (simp add: board_ok_def del: split_paired_All)
qed

lemma board_release:
  assumes "board_ok b (x # q)" and "distinct (List.map (fu_id \<circ> fst) (x # q))"
  shows "board_ok (ma_release_rd (fu_rd (fst x)) (fu_id (fst x)) b) q"
proof -
  let ?b = "ma_release_rd (fu_rd (fst x)) (fu_id (fst x)) b"
  have "case writer_id r q of None \<Rightarrow> \<not> rf_lock ?b r | Some i \<Rightarrow> rf_lock ?b r \<and> v_id ?b r = i" if "r \<noteq> x0" for r
  proof (cases "writer_id r q")
    case None
    then show ?thesis using that board_okD [OF assms(1) that]
      by (cases "fu_rd (fst x) = r") (auto simp: ma_release_rd_def Let_def rf_lock_def v_id_def writer_id_Cons)
  next
    case (Some i)
    have "i \<in> set (List.map (fu_id \<circ> fst) q)" by (rule writer_id_in [OF Some])
    then have "i \<noteq> fu_id (fst x)" using assms(2) by (metis comp_apply distinct.simps(2) list.map(2))
    moreover have "rf_lock b r \<and> v_id b r = i" using board_okD [OF assms(1) that] Some by (simp add: writer_id_Cons)
    ultimately show ?thesis using Some by (auto simp: ma_release_rd_def Let_def rf_lock_def v_id_def)
  qed
  moreover have "\<not> rf_lock ?b x0" using assms(1) by (auto simp: board_ok_def ma_release_rd_def Let_def rf_lock_def)
  ultimately show ?thesis by (simp add: board_ok_def del: split_paired_All)
qed

lemma board_skip: "board_ok b (x # q) \<Longrightarrow> fu_rd (fst x) = x0 \<Longrightarrow> board_ok b q"
proof -
  assume b: "board_ok b (x # q)" and x: "fu_rd (fst x) = x0"
  have "writer_id r (x # q) = writer_id r q" if "r \<noteq> x0" for r
    using that x by (auto simp: writer_id_Cons split: option.split)
  then show ?thesis using b by (simp add: board_ok_def del: split_paired_All)
qed

lemma board_replace:
  assumes "same_frame x y" and "board_ok b (p @ x # q)"
  shows "board_ok b (p @ y # q)"
proof -
  have "writer_id r (p @ y # q) = writer_id r (p @ x # q)" for r
    unfolding writer_id_append writer_id_Cons same_frameD(1,2) [OF assms(1)] ..
  then show ?thesis using assms(2) by (simp add: board_ok_def del: split_paired_All)
qed

lemma renameid_release [simp]: "rg_renameid (ma_release_rd r i b) = rg_renameid b"
  by (simp add: ma_release_rd_def Let_def)

subsubsection \<open>Operands and results\<close>

lemma all_ok_append: "all_ok psimd f older (p @ q) \<longleftrightarrow> all_ok psimd f older p \<and> all_ok psimd f (older @ p) q"
  by (induction p arbitrary: older) simp_all

lemma op2_value_constant: "\<not> register2 m \<Longrightarrow> op2_value m f = op2_value m g"
  by (cases "rs2type m") (simp_all add: register2_def op2_value_def)

lemma reads_ok_commit:
  assumes "reads_ok f (x # older) u" and "snd x = None \<or> snd x = Some v"
  shows "reads_ok (commit_rd (fu_rd (fst x)) v f) older u"
  using assms expected_commit [where u = "fst x" and v = "snd x" and x = v and f = f and older = older]
    op2_value_constant [of "fu_inst u" f "commit_rd (fu_rd (fst x)) v f"]
  by (auto simp: reads_ok_def Let_def)

lemma all_ok_commit:
  "all_ok psimd f (x # older) q \<Longrightarrow> snd x = None \<or> snd x = Some v \<Longrightarrow>
    all_ok psimd (commit_rd (fu_rd (fst x)) v f) older q"
  by (induction q arbitrary: older) (simp_all add: reads_ok_commit)

lemma expected_replace:
  assumes "same_frame x y" and "expected f (p @ x # q) r = Some z"
  shows "expected f (p @ y # q) r = Some z"
  using assms(2) same_frameD(2,7) [OF assms(1)]
  by (auto simp: expected_def last_writer_append last_writer_Cons split: option.splits if_splits)

lemma all_ok_replace_older:
  "all_ok psimd f (p @ x # q) us \<Longrightarrow> same_frame x y \<Longrightarrow> all_ok psimd f (p @ y # q) us"
proof (induction us arbitrary: q)
  case (Cons u us)
  then show ?case using Cons.IH [of "q @ [u]"] expected_replace [OF Cons.prems(2)] by (auto simp: reads_ok_def Let_def)
qed simp

lemma reads_ok_replace: "same_frame x y \<Longrightarrow> reads_ok f older (fst x) \<Longrightarrow> reads_ok f older (fst y)"
  by (auto simp: reads_ok_def Let_def same_frameD)

lemma all_ok_replace:
  assumes "all_ok psimd f older (p @ x # q)" and "same_frame x y" and "result_ok psimd x \<Longrightarrow> result_ok psimd y"
  shows "all_ok psimd f older (p @ y # q)"
  using assms all_ok_replace_older [of psimd f "older @ p" x "[]" q y] reads_ok_replace [OF assms(2)]
  by (auto simp: all_ok_append)

subsection \<open>The bypass delivers what the older instructions leave\<close>

lemma forwarded_result:
  assumes q: "aligned fs bs" "set (results fs bs) \<subseteq> set q"
    and fwd: "fwd_valid (gen_bypass bs)" "fwd_reg (gen_bypass bs) = r" "fwd_epochs (gen_bypass bs) = w" "fwd_id (gen_bypass bs) = v_id b r"
    and inv: "board_ok b q" "distinct (List.map (fu_id \<circ> fst) q)"
  shows "expected f (current w q) r = Some (fwd_data (gen_bypass bs))"
proof -
  obtain c cs where bs: "bs = c # cs" using fwd(1) by (cases bs) (simp_all add: gen_bypass_def no_operand_def)
  have c: "base_rd c = r" "r \<noteq> x0" "base_epochs c = w" "base_id c = v_id b r" "fwd_data (gen_bypass bs) = rdvalue c"
    using fwd by (auto simp: bs gen_bypass_def)
  from aligned_hd [OF q(1) [unfolded bs]] obtain u where u: "(u, Some (rdvalue c)) \<in> set (results fs bs)" "fu_id u = base_id c"
    "fu_rd u = base_rd c" "fu_epochs u = base_epochs c" unfolding bs by (elim exE conjE)
  have uq: "(u, Some (rdvalue c)) \<in> set q" using u(1) q(2) by (rule rev_subsetD)
  have "last_writer r q \<noteq> None" unfolding last_writer_None using uq u(3) c(1) by force
  then obtain x where x: "last_writer r q = Some x" by (cases "last_writer r q") simp_all
  have "fu_id (fst x) = v_id b r" using board_okD [OF inv(1) c(2)] x by (simp add: writer_id_def)
  then have "x = (u, Some (rdvalue c))"
    using inv(2) uq last_writer_SomeD [OF x] u(2) c(4) by (simp add: distinct_map inj_on_def) 
  moreover have "fu_epochs u = w" using u(4) c(3) by simp
  ultimately have "last_writer r (current w q) = Some (u, Some (rdvalue c))"
    unfolding current_def using x by (intro last_writer_filter) simp_all
  then show ?thesis using c(2,5) by (simp add: expected_def)
qed

lemma last_writer_current: "last_writer r q = None \<Longrightarrow> last_writer r (current w q) = None"
  by (simp add: last_writer_None current_def)

lemma operand_expected:
  assumes inv: "frame_inv n34 n45 s" "n34 + n45 \<le> 2 ^ LENGTH('i)"
    and op: "fwd_data opr = rf s r" "fst (operand s r opr)"
  shows "expected (rf s) (current (rg_wEpoch s) (queue s)) r = Some (snd (operand (s :: 'i::len word core) r opr))"
proof -
  let ?choice = "\<lambda>fwd. fwd_valid fwd \<and> fwd_reg fwd = r \<and> fwd_epochs fwd = rg_wEpoch s \<and> fwd_id fwd = v_id (sboard s) r"
  have len: "length (queue s) \<le> 2 ^ LENGTH('i)" using inv by (simp add: frame_inv_def queue_def)
  have board: "board_ok (sboard s) (queue s)" using inv(1) by (simp add: frame_inv_def)
  have dist: "distinct (List.map (fu_id \<circ> fst) (queue s))"
    using inv(1) len by (intro numbered_distinct [of "rg_renameid (sboard s)"]) (simp_all add: frame_inv_def)
  have al: "aligned (s3s4_fuid s) (s3s4_baseout s)" "aligned (s4s5_fuid s) (s4s5_baseout s)"
    using inv(1) by (simp_all add: frame_inv_def)
  have sub: "set (results (s3s4_fuid s) (s3s4_baseout s)) \<subseteq> set (queue s)"
    "set (results (s4s5_fuid s) (s4s5_baseout s)) \<subseteq> set (queue s)" by (auto simp: queue_def)
  note fwd = forwarded_result [OF _ _ _ _ _ _ board dist, of _ _ r "rg_wEpoch s" "rf s"]
  consider (s4) "?choice (gen_bypass (s3s4_baseout s))" | (s5) "\<not> ?choice (gen_bypass (s3s4_baseout s))" "?choice (gen_bypass (s4s5_baseout s))"
    | (rf) "\<not> ?choice (gen_bypass (s3s4_baseout s))" "\<not> ?choice (gen_bypass (s4s5_baseout s))" by blast
  then show ?thesis
  proof cases
    case s4
    then have "snd (operand s r opr) = fwd_data (gen_bypass (s3s4_baseout s))" by (simp add: operand_def fn_bypass_def Let_def)
    then show ?thesis using fwd [OF al(1) sub(1)] s4 by simp
  next
    case s5
    then have "snd (operand s r opr) = fwd_data (gen_bypass (s4s5_baseout s))" by (auto simp: operand_def fn_bypass_def Let_def)
    then show ?thesis using fwd [OF al(2) sub(2)] s5 by simp
  next
    case rf
    have "snd (operand s r opr) = rf s r" "\<not> rf_lock (sboard s) r"
      using rf op by (auto simp: operand_def fn_bypass_def Let_def)
    moreover from this(2) have "r = x0 \<or> last_writer r (queue s) = None"
      using board_okD [OF board, of r] by (cases "r = x0") (auto simp: writer_id_def split: option.splits)
    ultimately show ?thesis using last_writer_current [of r "queue s" "rg_wEpoch s"] by (auto simp: expected_def)
  qed
qed

text \<open>Register 0 is never forwarded, which makes the constants and immediates of the second operand safe.\<close>

lemma operand_x0: "snd (operand s x0 opr) = fwd_data opr"
proof -
  have "\<not> (fwd_valid (gen_bypass bs) \<and> fwd_reg (gen_bypass bs) = x0)" for bs :: "'i::len word BaseOut list"
    by (cases bs) (auto simp: gen_bypass_def no_operand_def)
  then show ?thesis by (auto simp: operand_def fn_bypass_def Let_def)
qed

lemma frame_distinct:
  "frame_inv n34 n45 s \<Longrightarrow> n34 + n45 \<le> 2 ^ LENGTH('i) \<Longrightarrow> distinct (List.map (fu_id \<circ> fst) (queue (s :: 'i::len word core)))"
  by (rule numbered_distinct [of "rg_renameid (sboard s)"]) (simp_all add: frame_inv_def queue_def)

subsection \<open>Every rule preserves the invariant\<close>

text \<open>The rules of stage 4 move the oldest instruction of the buffer behind stage 3.\<close>

lemma inv_advance:
  assumes inv: "core_inv n34 n45 psimd s" and room: "length (s4s5_fuid s) < n45"
    and s: "s3s4_fuid s = f # fs" "results (f # fs) (s3s4_baseout s) = (f, v) # results fs (s3s4_baseout s')" "aligned fs (s3s4_baseout s')"
    and s': "s3s4_fuid s' = fs" "s4s5_fuid s' = s4s5_fuid s @ [f\<lparr>fu_type := t\<rparr>]"
      "aligned (s4s5_fuid s') (s4s5_baseout s') \<and>
       results (s4s5_fuid s') (s4s5_baseout s') = results (s4s5_fuid s) (s4s5_baseout s) @ [(f\<lparr>fu_type := t\<rparr>, v')]"
      "rf s' = rf s" "sboard s' = sboard s" "rg_wEpoch s' = rg_wEpoch s" "pending_ok s \<Longrightarrow> pending_ok s'"
    and v: "v = None \<or> v' = v" "result_ok psimd (f, v) \<Longrightarrow> result_ok psimd (f\<lparr>fu_type := t\<rparr>, v')"
  shows "core_inv n34 n45 psimd s'"
proof -
  let ?p = "results (s4s5_fuid s) (s4s5_baseout s)" and ?q = "results fs (s3s4_baseout s')"
  let ?x = "(f, v)" and ?y = "(f\<lparr>fu_type := t\<rparr>, v')"
  have same: "same_frame ?x ?y" using v(1) by (auto simp: same_frame_def)
  have q: "queue s = ?p @ ?x # ?q" using s(2) by (simp add: queue_def s(1))
  have q': "queue s' = ?p @ ?y # ?q" using s'(1,3) by (simp add: queue_def)
  have "frame_inv n34 n45 s'"
    using inv room s(1,3) s' numbered_replace [OF same] board_replace [OF same]
    unfolding core_inv_def frame_inv_def q q' by simp
  moreover have "epochs_split (rg_wEpoch s') (queue s')"
    using inv epochs_split_replace [OF same] s'(6) unfolding core_inv_def q q' by simp
  moreover have "all_ok psimd (rf s') [] (current (rg_wEpoch s') (queue s'))"
    using inv all_ok_replace [OF _ same v(2)] s'(4,6) unfolding core_inv_def q q'
    by (cases "fu_epochs f = rg_wEpoch s") (simp_all add: current_Cons)
  ultimately show ?thesis by (simp add: core_inv_def)
qed

text \<open>The commits and drops of stage 5 take the oldest instruction out of the pipeline.\<close>

definition oldest :: "'id core \<Rightarrow> 'id FUid \<times> u64 option" where
  "oldest s = hd (queue s)"

lemma retire_fields:
  fixes s :: "'i::len word core" and spfpu res
  defines "s' \<equiv> retire spfpu res s"
  shows "s4s5_fuid s' = tl (s4s5_fuid s)"
    "s4s5_baseout s' = (if fu_type (hd (s4s5_fuid s)) = BASE then tl (s4s5_baseout s) else s4s5_baseout s)"
    "s3s4_fuid s' = s3s4_fuid s" "s3s4_baseout s' = s3s4_baseout s" "rg_wEpoch s' = rg_wEpoch s" "s2s3 s' = s2s3 s"
    "sboard s' = ma_release_rd (fu_rd (hd (s4s5_fuid s))) (fu_id (hd (s4s5_fuid s))) (sboard s)"
    "rf s' = (case res of None \<Rightarrow> rf s | Some v \<Rightarrow> commit_rd (fu_rd (hd (s4s5_fuid s))) v (rf s))"
  by (simp_all add: s'_def retire_def ma_commit_rd_def Let_def split: option.split)

lemma queue_Cons:
  assumes "aligned (s4s5_fuid s) (s4s5_baseout s)" and "s4s5_fuid s = f # fs"
  shows "queue s = (f, if fu_type f = BASE then Some (rdvalue (hd (s4s5_baseout s))) else None) #
      results fs (if fu_type f = BASE then tl (s4s5_baseout s) else s4s5_baseout s) @ results (s3s4_fuid s) (s3s4_baseout s)"
    "aligned fs (if fu_type f = BASE then tl (s4s5_baseout s) else s4s5_baseout s)"
  using assms by (auto simp: queue_def split: if_splits)

lemma pending_commit: "pending_ok s \<Longrightarrow> pending_ok (ma_commit_rd spfpu r v s)"
  unfolding pending_ok_def ma_commit_rd_def
  by (cases r) (auto simp: commit_rd_def op2_value_def src1_def src2_def split: Op2type.splits if_splits)

lemma pending_retire: "pending_ok s \<Longrightarrow> pending_ok (retire spfpu res s)"
proof -
  let ?t = "s\<lparr>s4s5_fuid := tl (s4s5_fuid s),
    s4s5_baseout := (if fu_type (hd (s4s5_fuid s)) = BASE then tl (s4s5_baseout s) else s4s5_baseout s),
    sboard := ma_release_rd (fu_rd (hd (s4s5_fuid s))) (fu_id (hd (s4s5_fuid s))) (sboard s)\<rparr>"
  assume "pending_ok s"
  then have "pending_ok ?t" by (simp add: pending_ok_def)
  then show ?thesis unfolding retire_def Let_def by (cases res) (simp_all only: option.case pending_commit)
qed

text \<open>What a retirement leaves, whatever it writes.\<close>

lemma frame_retire:
  assumes inv: "frame_inv n34 n45 (s :: 'i::len word core)" "n34 + n45 \<le> 2 ^ LENGTH('i)" and s: "s4s5_fuid s = f # fs"
  shows "frame_inv n34 n45 (retire spfpu res s)" "queue s = oldest s # queue (retire spfpu res s)" "fst (oldest s) = f"
    "fu_type f \<noteq> BASE \<Longrightarrow> snd (oldest s) = None" "fu_type f = BASE \<Longrightarrow> snd (oldest s) = Some (rdvalue (hd (s4s5_baseout s)))"
proof -
  have al: "aligned (s4s5_fuid s) (s4s5_baseout s)" using inv(1) by (simp add: frame_inv_def)
  note q = queue_Cons [OF al s]
  show q': "queue s = oldest s # queue (retire spfpu res s)" and f: "fst (oldest s) = f"
    and "fu_type f \<noteq> BASE \<Longrightarrow> snd (oldest s) = None" "fu_type f = BASE \<Longrightarrow> snd (oldest s) = Some (rdvalue (hd (s4s5_baseout s)))"
    using q(1) s by (simp_all add: oldest_def queue_def retire_fields)
  have dist: "distinct (List.map (fu_id \<circ> fst) (oldest s # queue (retire spfpu res s)))"
    using frame_distinct [OF inv] q' by simp
  have "board_ok (sboard (retire spfpu res s)) (queue (retire spfpu res s))"
    using inv(1) board_release [OF _ dist] f by (simp add: frame_inv_def q' [symmetric] retire_fields s)
  moreover have "numbered (rg_renameid (sboard (retire spfpu res s))) (queue (retire spfpu res s))"
    using inv(1) numbered_pop [of _ "oldest s" "queue (retire spfpu res s)"]
    by (simp add: frame_inv_def q' [symmetric] retire_fields)
  moreover have "aligned (s4s5_fuid (retire spfpu res s)) (s4s5_baseout (retire spfpu res s))"
    using q(2) by (simp add: retire_fields s)
  ultimately show "frame_inv n34 n45 (retire spfpu res s)"
    using inv(1) s pending_retire [of s spfpu res] by (simp add: frame_inv_def retire_fields)
qed

lemma inv_drop:
  assumes inv: "core_inv n34 n45 psimd (s :: 'i::len word core)" "n34 + n45 \<le> 2 ^ LENGTH('i)"
    and s: "s4s5_fuid s = f # fs" "fu_epochs f \<noteq> rg_wEpoch s"
  shows "core_inv n34 n45 psimd (retire spfpu None s)"
proof -
  have frame: "frame_inv n34 n45 s" using inv(1) by (simp add: core_inv_def)
  note r = frame_retire(1,2) [OF frame inv(2) s(1), of spfpu None] and x = frame_retire(3-5) [OF frame inv(2) s(1)]
  have "current (rg_wEpoch s) (queue s) = current (rg_wEpoch s) (queue (retire spfpu None s))"
    using r(2) x(1) s(2) by (simp add: current_Cons)
  then show ?thesis using inv(1) r(1,2) epochs_split_pop [of "rg_wEpoch s" "oldest s" "queue (retire spfpu None s)"]
    by (simp add: core_inv_def retire_fields)
qed

lemma inv_commit:
  assumes inv: "core_inv n34 n45 psimd (s :: 'i::len word core)" "n34 + n45 \<le> 2 ^ LENGTH('i)"
    and s: "s4s5_fuid s = f # fs" "fu_epochs f = rg_wEpoch s" "fu_type f = BASE \<longrightarrow> v = rdvalue (hd (s4s5_baseout s))"
  shows "core_inv n34 n45 psimd (retire spfpu (Some v) s)"
proof -
  have frame: "frame_inv n34 n45 s" using inv(1) by (simp add: core_inv_def)
  note r = frame_retire(1,2) [OF frame inv(2) s(1), of spfpu "Some v"] and x = frame_retire(3-5) [OF frame inv(2) s(1)]
  have "current (rg_wEpoch s) (queue s) = oldest s # current (rg_wEpoch s) (queue (retire spfpu (Some v) s))"
    using r(2) x(1) s(2) by (simp add: current_Cons)
  then have "all_ok psimd (commit_rd (fu_rd f) v (rf s)) [] (current (rg_wEpoch s) (queue (retire spfpu (Some v) s)))"
    using inv(1) all_ok_commit [of psimd "rf s" "oldest s" "[]"] x s(3) by (auto simp: core_inv_def)
  then show ?thesis using inv(1) r(1,2) epochs_split_pop [of "rg_wEpoch s" "oldest s" "queue (retire spfpu (Some v) s)"] s(1)
    by (simp add: core_inv_def retire_fields)
qed

lemma inv_flush:
  assumes inv: "core_inv n34 n45 psimd (s :: 'i::len word core)" "n34 + n45 \<le> 2 ^ LENGTH('i)"
    and s: "s4s5_fuid s = f # fs" "fu_epochs f = rg_wEpoch s"
  shows "core_inv n34 n45 psimd (flush_wb (retire spfpu res s))"
proof -
  have frame: "frame_inv n34 n45 s" using inv(1) by (simp add: core_inv_def)
  note r = frame_retire(1,2) [OF frame inv(2) s(1), of spfpu res] and x = frame_retire(3-5) [OF frame inv(2) s(1)]
  have "epochs_split (rg_wEpoch s) (oldest s # queue (retire spfpu res s))" using inv(1) r(2) by (simp add: core_inv_def)
  note flush = epochs_split_flush [OF this, unfolded x(1), OF s(2)]
  have "frame_inv n34 n45 (flush_wb (retire spfpu res s))" using r(1)
    by (simp add: frame_inv_def flush_wb_def queue_def pending_ok_def)
  then show ?thesis using flush by (simp add: core_inv_def flush_wb_def queue_def retire_fields)
qed

lemma commit_x0 [simp]: "commit_rd x0 v f = f"
  by (simp add: commit_rd_def)

text \<open>A store leaves without a commit: it has nothing to unlock.\<close>

lemma inv_store:
  assumes inv: "core_inv n34 n45 psimd (s :: 'i::len word core)"
    and s: "s4s5_fuid s = f # fs" "fu_epochs f = rg_wEpoch s" "fu_type f = MEMORY" "fu_rd f = x0"
  shows "core_inv n34 n45 psimd (s\<lparr>s4s5_fuid := fs\<rparr>)"
proof -
  let ?s = "s\<lparr>s4s5_fuid := fs\<rparr>"
  have al: "aligned (s4s5_fuid s) (s4s5_baseout s)" using inv(1) by (simp add: core_inv_def frame_inv_def)
  have q: "queue s = (f, None) # queue ?s" "aligned fs (s4s5_baseout s)"
    using queue_Cons [OF al s(1)] s(3) by (simp_all add: queue_def)
  have "frame_inv n34 n45 ?s"
    using inv s(1,4) q(2) numbered_pop [of _ "(f, None)" "queue ?s"] board_skip [of _ "(f, None)" "queue ?s"]
    by (simp add: core_inv_def frame_inv_def q(1) pending_ok_def)
  moreover have "all_ok psimd (rf s) [] (current (rg_wEpoch s) (queue ?s))"
    using inv all_ok_commit [of psimd "rf s" "(f, None)" "[]" "current (rg_wEpoch s) (queue ?s)"] s(2,4)
    by (simp add: core_inv_def q(1) current_Cons)
  moreover have "epochs_split (rg_wEpoch s) (queue ?s)"
    using inv epochs_split_pop [of _ "(f, None)"] by (simp add: core_inv_def q(1))
  ultimately show ?thesis by (simp add: core_inv_def)
qed

text \<open>The execution rules of stage 3 put a younger instruction into the pipeline.\<close>

lemma issued_reads:
  assumes inv: "core_inv n34 n45 psimd (s :: 'i::len word core)" "n34 + n45 \<le> 2 ^ LENGTH('i)" and m: "s2s3 s = Some m"
    and avail: "inst_type m \<noteq> TRAP_INSTR \<Longrightarrow> op1_avail s m"
      "inst_type m \<noteq> TRAP_INSTR \<Longrightarrow> inst_type m \<noteq> SYSTEM_INSTR \<Longrightarrow> op2_avail s m"
    and u: "fu_inst u = m" "fu_rd u = dest m" "fu_op1 u = snd (operand s (src1 m) (rg_op1 s))"
      "fu_op2 u = snd (operand s (src2 m) (rg_op2 s))"
  shows "reads_ok (rf s) (current (rg_wEpoch s) (queue s)) u"
proof -
  have frame: "frame_inv n34 n45 s" using inv(1) by (simp add: core_inv_def)
  have p: "fwd_data (rg_op1 s) = rf s (src1 m)" "fwd_data (rg_op2 s) = op2_value m (rf s)"
    using frame m by (simp_all add: frame_inv_def pending_ok_def)
  have "expected (rf s) (current (rg_wEpoch s) (queue s)) (src1 m) = Some (fu_op1 u)" if "inst_type m \<noteq> TRAP_INSTR"
    using operand_expected [OF frame inv(2) p(1)] avail(1) [OF that] u(3) by (simp add: op1_avail_def)
  moreover have "expected (rf s) (current (rg_wEpoch s) (queue s)) (src2 m) = Some (fu_op2 u)"
    if "inst_type m \<noteq> TRAP_INSTR" "inst_type m \<noteq> SYSTEM_INSTR" "register2 m"
  proof -
    have "fwd_data (rg_op2 s) = rf s (src2 m)" using p(2) that(3) by (auto simp: register2_def op2_value_def)
    from operand_expected [OF frame inv(2) this] show ?thesis using avail(2) [OF that(1,2)] u(4) by (simp add: op2_avail_def)
  qed
  moreover have "fu_op2 u = op2_value m (rf s)" if "\<not> register2 m" "rs2addr m = 0"
  proof -
    have "src2 m = x0" using that by (cases "rs2type m") (simp_all add: src2_def register2_def)
    then show ?thesis using p(2) u(4) operand_x0 [of s "rg_op2 s"] by simp
  qed
  ultimately show ?thesis using u(1,2) by (simp add: reads_ok_def Let_def)
qed

lemma inv_issue:
  assumes inv: "core_inv n34 n45 psimd (s :: 'i::len word core)" "n34 + n45 \<le> 2 ^ LENGTH('i)" and exec: "executable n34 s m"
    and avail: "inst_type m \<noteq> TRAP_INSTR \<Longrightarrow> op1_avail s m"
      "inst_type m \<noteq> TRAP_INSTR \<Longrightarrow> inst_type m \<noteq> SYSTEM_INSTR \<Longrightarrow> op2_avail s m"
    and t: "t = BASE \<longleftrightarrow> result \<noteq> None" "inst_type m = TRAP_INSTR \<Longrightarrow> t = TRAP"
      "inst_type m = ALU \<Longrightarrow> result = Some (alu_output s m)" "inst_type m = PSIMD \<Longrightarrow> t = EXE_PSIMD"
  shows "core_inv n34 n45 psimd (issue m t result s)"
proof -
  obtain new_id board where lock: "ma_lock_rd (dest m) (sboard s) = (new_id, board)" by (cases "ma_lock_rd (dest m) (sboard s)")
  define u where "u = \<lparr>fu_id = new_id, fu_rd = dest m, fu_epochs = snd (epochs m), fu_type = t, fu_inst = m,
    fu_op1 = snd (operand s (src1 m) (rg_op1 s)), fu_op2 = snd (operand s (src2 m) (rg_op2 s)),
    fu_opd = snd (operand s (srcd m) (rg_opd s))\<rparr>"
  define bs where "bs = (case result of None \<Rightarrow> []
    | Some v \<Rightarrow> [\<lparr>base_id = new_id, rdvalue = v, base_rd = dest m, base_epochs = rg_wEpoch s\<rparr>])"
  have s': "issue m t result s = s\<lparr>sboard := board, s2s3 := None, s3s4_fuid := s3s4_fuid s @ [u], s3s4_baseout := s3s4_baseout s @ bs\<rparr>"
    by (simp add: issue_def lock u_def bs_def)
  have ep: "fu_epochs u = rg_wEpoch s" and m: "s2s3 s = Some m" and room: "length (s3s4_fuid s) < n34"
    using exec by (simp_all add: executable_def u_def)
  have frame: "frame_inv n34 n45 s" using inv(1) by (simp add: core_inv_def)
  have al: "aligned (s3s4_fuid s @ [u]) (s3s4_baseout s @ bs) \<and>
    results (s3s4_fuid s @ [u]) (s3s4_baseout s @ bs) = results (s3s4_fuid s) (s3s4_baseout s) @ [(u, result)]"
  proof (cases result)
    case None
    then show ?thesis using frame t(1) aligned_snoc [of "s3s4_fuid s" "s3s4_baseout s" u] by (simp add: frame_inv_def bs_def u_def)
  next
    case (Some v)
    then show ?thesis using frame t(1) ep aligned_snoc_base [of "s3s4_fuid s" "s3s4_baseout s" u "hd bs"]
      by (simp add: frame_inv_def bs_def u_def)
  qed
  have q: "queue (issue m t result s) = queue s @ [(u, result)]" using al by (simp add: queue_def s')
  have id: "fu_id u = new_id" "fu_rd u = dest m" by (simp_all add: u_def)
  note lock' = board_lock [OF _ lock, of "queue s"]
  have "frame_inv n34 n45 (issue m t result s)"
    using frame al room lock'(1,2) lock'(3) [of "(u, result)"] id numbered_snoc [of new_id "queue s" "(u, result)"]
    unfolding frame_inv_def q by (simp add: s' pending_ok_def)
  moreover have "epochs_split (rg_wEpoch s) (queue s @ [(u, result)])"
    using inv(1) ep by (simp add: core_inv_def epochs_split_snoc)
  moreover have "reads_ok (rf s) (current (rg_wEpoch s) (queue s)) u"
    by (rule issued_reads [OF inv m avail]) (simp_all add: u_def)
  moreover have "result_ok psimd (u, result)"
    using t by (auto simp: result_ok_def Let_def u_def alu_output_def)
  ultimately show ?thesis
    using inv(1) ep unfolding core_inv_def q by (simp add: s' all_ok_append current_Cons) (simp add: current_def)
qed

lemma inv_opfetch: "core_inv n34 n45 psimd s \<Longrightarrow> core_inv n34 n45 psimd (decode_and_opfetch m s)"
  by (simp add: core_inv_def frame_inv_def queue_def pending_ok_def decode_and_opfetch_def fetched_def)

lemma inv_drop_instr: "core_inv n34 n45 psimd s \<Longrightarrow> core_inv n34 n45 psimd (s\<lparr>s2s3 := None\<rparr>)"
  by (simp add: core_inv_def frame_inv_def queue_def pending_ok_def)

lemma inv_eEpoch: "core_inv n34 n45 psimd s \<Longrightarrow> core_inv n34 n45 psimd (s\<lparr>rg_eEpoch := e\<rparr>)"
  by (simp add: core_inv_def frame_inv_def queue_def pending_ok_def)

lemma inv_mkcore: "core_inv n34 n45 psimd mkcore"
  by (auto simp: core_inv_def frame_inv_def queue_def pending_ok_def mkcore_def mkscoreboard_def numbered_def epochs_split_def
    board_ok_def writer_id_def rf_lock_def current_def)

lemma inv_fwd_baseout:
  assumes inv: "core_inv n34 n45 psimd s" and s: "s3s4_fuid s = f # fs" "s3s4_baseout s = b # bs"
    and f: "fu_type f = BASE" and room: "length (s4s5_fuid s) < n45"
  shows "core_inv n34 n45 psimd
    (s\<lparr>s3s4_fuid := fs, s3s4_baseout := bs, s4s5_fuid := s4s5_fuid s @ [f], s4s5_baseout := s4s5_baseout s @ [b]\<rparr>)"
proof -
  have al: "aligned (s4s5_fuid s) (s4s5_baseout s)" "aligned (f # fs) (b # bs)"
    using inv unfolding core_inv_def frame_inv_def s by blast+
  have id: "f\<lparr>fu_type := BASE\<rparr> = f" using f by (cases f) simp
  show ?thesis
    by (rule inv_advance [OF inv room s(1), where v = "Some (rdvalue b)" and v' = "Some (rdvalue b)" and t = BASE])
      (use al f s in \<open>simp_all add: aligned_snoc_base pending_ok_def id\<close>)
qed

lemma inv_move:
  assumes "core_inv n34 n45 psimd s" "s3s4_fuid s = f # fs" "fu_type f \<noteq> BASE" "t \<noteq> BASE" "length (s4s5_fuid s) < n45"
    "fu_type f = t \<or> fu_type f = MEMORY"
  shows "core_inv n34 n45 psimd (s\<lparr>s3s4_fuid := fs, s4s5_fuid := s4s5_fuid s @ [f\<lparr>fu_type := t\<rparr>]\<rparr>)"
  by (rule inv_advance [OF assms(1,5,2), where v = None and v' = None and t = t])
    (use assms in \<open>auto simp: aligned_snoc pending_ok_def core_inv_def frame_inv_def result_ok_def Let_def\<close>)

lemma inv_capture:
  assumes "core_inv n34 n45 psimd s" "s3s4_fuid s = f # fs" "fu_type f \<in> {MEMORY, EXE_MULDIV, EXE_PSIMD, EXE_FLOAT}"
    "fu_type f = EXE_PSIMD \<longrightarrow> v = psimd (instruction (fu_inst f)) (fu_op1 f) (fu_op2 f) (fu_opd f)" "length (s4s5_fuid s) < n45"
  shows "core_inv n34 n45 psimd
    (s\<lparr>s3s4_fuid := fs, s4s5_fuid := s4s5_fuid s @ [f\<lparr>fu_type := BASE\<rparr>],
      s4s5_baseout := s4s5_baseout s @ [\<lparr>base_id = fu_id f, rdvalue = v, base_rd = fu_rd f, base_epochs = fu_epochs f\<rparr>]\<rparr>)"
  by (rule inv_advance [OF assms(1,5,2), where v = None and v' = "Some v" and t = BASE])
    (use assms in \<open>auto simp: aligned_snoc_base pending_ok_def core_inv_def frame_inv_def result_ok_def Let_def\<close>)

lemma inv_stage3:
  assumes "stage3_rule n34 s s'" and "core_inv n34 n45 psimd (s :: 'i::len word core)" and "n34 + n45 \<le> 2 ^ LENGTH('i)"
  shows "core_inv n34 n45 psimd s'"
proof -
  have pending: "pending_type (inst_type m) = Some t \<Longrightarrow> t \<noteq> BASE \<and> inst_type m \<notin> {TRAP_INSTR, SYSTEM_INSTR, ALU} \<and>
    (inst_type m = PSIMD \<longrightarrow> t = EXE_PSIMD)" for m t by (cases "inst_type m") (auto simp: pending_type_def)
  from assms(1) show ?thesis
    by cases (use assms(2) in \<open>auto intro!: inv_drop_instr inv_issue inv_eEpoch assms(3) dest: pending\<close>)
qed

lemma inv_stage4:
  assumes "stage4_rule n45 psimd s s'" and inv: "core_inv n34 n45 psimd (s :: 'i::len word core)"
  shows "core_inv n34 n45 psimd s'"
  using assms(1)
proof cases
  case (rl_fwd_baseout f fs b bs)
  then show ?thesis using inv_fwd_baseout [OF inv] by simp
next
  case (rl_fwd_out f fs)
  moreover have "f\<lparr>fu_type := fu_type f\<rparr> = f" by (cases f) simp
  ultimately show ?thesis using inv_move [OF inv, of f fs "fu_type f"] by auto
next
  case (rl_handle_memory f fs t)
  then show ?thesis using inv_move [OF inv, of f fs t] by auto
next
  case (rl_capture f fs v)
  then show ?thesis using inv_capture [OF inv] by simp
qed

lemma inv_stage5:
  assumes "stage5_rule spfpu s s'" and "core_inv n34 n45 psimd (s :: 'i::len word core)" and "n34 + n45 \<le> 2 ^ LENGTH('i)"
  shows "core_inv n34 n45 psimd s'"
  using assms(1)
  by cases (use assms(2) in \<open>auto intro!: inv_drop inv_commit inv_flush inv_store assms(3)\<close>)

theorem core_invariant:
  assumes "(core_rule n34 n45 spfpu psimd)\<^sup>*\<^sup>* mkcore (s :: 'i::len word core)" and "n34 + n45 \<le> 2 ^ LENGTH('i)"
  shows "core_inv n34 n45 psimd s"
  using assms(1)
proof (induction rule: rtranclp_induct)
  case base
  then show ?case by (rule inv_mkcore)
next
  case (step s s')
  from step.hyps(2) show ?case
    by cases (use step.IH assms(2) in \<open>auto intro: inv_opfetch inv_stage3 inv_stage4 inv_stage5\<close>)
qed

subsection \<open>Commits\<close>

text \<open>
  One instruction executed on the registers \<open>f\<close>: it has read its first two operands there and writes
  \<open>v\<close>, which the ALU computes from them, and the P-box from them and from the third operand that it
  was handed. Nothing is said of that third operand, \<open>fu_opd\<close>. A second operand that is no register
  is the immediate or the constant when the decoder names register 0 for it, which it always does
  (\<open>decoded_second_operand\<close>); a system instruction has only the first. Where \<open>v\<close> comes from for the
  other kinds of instruction is left open, as in the rules.
\<close>

definition executes ::
    "(u32 \<Rightarrow> u64 \<Rightarrow> u64 \<Rightarrow> u64 \<Rightarrow> u64) \<Rightarrow> 'id FUid \<Rightarrow> u64 \<Rightarrow> (reg \<Rightarrow> u64) \<Rightarrow> (reg \<Rightarrow> u64) \<Rightarrow> bool" where
  "executes psimd u v f f' \<longleftrightarrow> (let m = fu_inst u in
     f' = commit_rd (dest m) v f \<and> fu_op1 u = f (src1 m) \<and>
     (inst_type m \<noteq> SYSTEM_INSTR \<and> (register2 m \<or> rs2addr m = 0) \<longrightarrow> fu_op2 u = op2_value m f) \<and>
     (inst_type m = ALU \<longrightarrow> v = alu_result (f (src1 m)) (fu_op2 u) (fn m) (pc m) (rs1type m = Op1_PC) (word32 m)) \<and>
     (inst_type m = PSIMD \<longrightarrow> v = psimd (instruction m) (f (src1 m)) (fu_op2 u) (fu_opd u)))"

lemma head_ok:
  assumes inv: "core_inv n34 n45 psimd (s :: 'i::len word core)" "n34 + n45 \<le> 2 ^ LENGTH('i)"
    and s: "s4s5_fuid s = f # fs" "fu_epochs f = rg_wEpoch s"
  shows "reads_ok (rf s) [] f" "result_ok psimd (f, snd (oldest s))"
proof -
  have frame: "frame_inv n34 n45 s" using inv(1) by (simp add: core_inv_def)
  note r = frame_retire(2) [OF frame inv(2) s(1), of undefined None] and x = frame_retire(3) [OF frame inv(2) s(1)]
  have "all_ok psimd (rf s) [] (current (rg_wEpoch s) (oldest s # queue (retire undefined None s)))"
    using inv(1) r by (simp add: core_inv_def)
  then have ok: "reads_ok (rf s) [] f" "result_ok psimd (oldest s)" using x s(2) by (simp_all add: current_Cons)
  then show "reads_ok (rf s) [] f" by simp
  have "oldest s = (f, snd (oldest s))" using x by (simp add: prod_eq_iff)
  then show "result_ok psimd (f, snd (oldest s))" using ok(2) by (rule subst)
qed

lemma commit_executes:
  assumes inv: "core_inv n34 n45 psimd (s :: 'i::len word core)" "n34 + n45 \<le> 2 ^ LENGTH('i)"
    and s: "s4s5_fuid s = f # fs" "fu_epochs f = rg_wEpoch s" "fu_type f \<in> {BASE, SYSTEM, MEMORY}" "fu_type f = BASE \<longrightarrow> v = rdvalue (hd (s4s5_baseout s))"
  shows "executes psimd f v (rf s) (commit_rd (fu_rd f) v (rf s))"
proof -
  have frame: "frame_inv n34 n45 s" using inv(1) by (simp add: core_inv_def)
  note x = frame_retire(4,5) [OF frame inv(2) s(1)] and ok = head_ok [OF inv s(1,2)]
  have "inst_type (fu_inst f) \<noteq> TRAP_INSTR"
    "inst_type (fu_inst f) = ALU \<longrightarrow> v = alu_result (fu_op1 f) (fu_op2 f) (fn (fu_inst f)) (pc (fu_inst f)) (rs1type (fu_inst f) = Op1_PC) (word32 (fu_inst f))"
    "inst_type (fu_inst f) = PSIMD \<longrightarrow> v = psimd (instruction (fu_inst f)) (fu_op1 f) (fu_op2 f) (fu_opd f)"
    using ok(2) x s(3,4) by (auto simp: result_ok_def Let_def)
  then show ?thesis using ok(1)
    by (auto simp: executes_def reads_ok_def Let_def op2_value_def register2_def split: Op2type.splits if_splits)
qed

text \<open>Stage 3 leaves the registers and the last buffer alone.\<close>

lemma stage3_frame: "stage3_rule n34 s s' \<Longrightarrow> rf s' = rf s \<and> s4s5_fuid s' = s4s5_fuid s"
  by (cases rule: stage3_rule.cases, assumption) (simp_all add: issue_def split: prod.split)

text \<open>What a step does to the registers.\<close>

lemma commit_step:
  assumes "n34 + n45 \<le> 2 ^ LENGTH('i)" and "(core_rule n34 n45 spfpu psimd)\<^sup>*\<^sup>* mkcore (s :: 'i::len word core)"
    and "core_rule n34 n45 spfpu psimd s s'"
  shows "case s4s5_fuid s of [] \<Rightarrow> rf s' = rf s
    | u # us \<Rightarrow> if s4s5_fuid s' \<noteq> us \<or> fu_epochs u \<noteq> rg_wEpoch s then rf s' = rf s
      else rf s' = rf s \<and> rg_wEpoch s' \<noteq> rg_wEpoch s \<and> fu_type u \<in> {TRAP, MEMORY} \<or> (\<exists>v. executes psimd u v (rf s) (rf s'))"
proof -
  have inv: "core_inv n34 n45 psimd s" using assms(2,1) by (rule core_invariant)
  note commit = commit_executes [OF inv assms(1)] and simps = flush_wb_def retire_fields
  have front: ?thesis if "rf s' = rf s" "length (s4s5_fuid s) \<le> length (s4s5_fuid s')"
    using that by (cases "s4s5_fuid s") auto
  from assms(3) show ?thesis
  proof cases
    case (opfetch m)
    then show ?thesis by (intro front) (simp_all add: decode_and_opfetch_def)
  next
    case (opfetch_redirect s1 m)
    then have "rf s1 = rf s \<and> s4s5_fuid s1 = s4s5_fuid s" using stage3_frame by blast
    then show ?thesis using opfetch_redirect by (intro front) (simp_all add: decode_and_opfetch_def)
  next
    case (stage3)
    then show ?thesis using stage3_frame [of n34 s s'] by (intro front) simp_all
  next
    case (stage4)
    then show ?thesis by (cases; intro front) simp_all
  next
    case (stage5)
    then show ?thesis
    proof cases
      case (rl_writeback_system f fs v)
      then show ?thesis using commit [of f fs v] by (auto simp: simps)
    next
      case (xret f fs v)
      then show ?thesis using commit [of f fs v] by (auto simp: simps)
    next
      case (rl_writeback_baseout f fs b bs)
      then show ?thesis using commit [of f fs "rdvalue b"] by (auto simp: simps)
    next
      case (rl_writeback_memop f fs v)
      then show ?thesis using commit [of f fs v] by (auto simp: simps)
    next
      case (cached_store f fs)
      then show ?thesis using commit [of f fs] by auto
    qed (simp_all add: simps)
  qed
qed

text \<open>
  C11 (commits follow program order). Stage 5 takes one instruction at a time out of the pipeline.
  A stale one and a trap change no register; every other one writes at most its own target, and has
  read its first operand, and unless it is a system instruction its second, as the instructions
  before it left them (the second when it is a register, or register 0 is named for it), however the
  rules of the stages interleave and whether the operands came from the register file, from a
  bypass, or from a commit that overtook the operand fetch. An ALU instruction writes what the ALU
  computes from these two values, a P instruction what the P-box computes from them and from
  the accumulator that it was handed. The accumulator itself is not covered, because it can be
  stale, as the last property below shows, nor is the third operand of a floating-point
  instruction. No other rule writes a register. The number of instructions in flight must not exceed the number of
  identifiers.
\<close>

theorem commits_follow_program_order:
  assumes "n34 + n45 \<le> 2 ^ LENGTH('i)" and "(core_rule n34 n45 spfpu psimd)\<^sup>*\<^sup>* mkcore (s :: 'i::len word core)"
    and "core_rule n34 n45 spfpu psimd s s'"
  shows "case s4s5_fuid s of [] \<Rightarrow> rf s' = rf s
    | u # us \<Rightarrow> if s4s5_fuid s' \<noteq> us \<or> fu_epochs u \<noteq> rg_wEpoch s then rf s' = rf s
      else rf s' = rf s \<and> rg_wEpoch s' \<noteq> rg_wEpoch s \<and> fu_type u \<in> {TRAP, MEMORY} \<or> (\<exists>v. executes psimd u v (rf s) (rf s'))"
  using assms by (rule commit_step)

text \<open>Register 0 stays 0.\<close>

lemma commit_rd_x0 [simp]: "commit_rd r v f x0 = f x0"
  by (cases r) (auto simp: commit_rd_def)

lemma rf_x0: "(core_rule n34 n45 spfpu psimd)\<^sup>*\<^sup>* mkcore s \<Longrightarrow> rf s x0 = 0"
proof (induction rule: rtranclp_induct)
  case (step s s')
  from step.hyps(2) have "rf s' x0 = rf s x0"
  proof cases
    case (opfetch_redirect s1 m)
    then show ?thesis using stage3_frame [of n34 s s1] by (simp add: decode_and_opfetch_def)
  next
    case (stage3)
    then show ?thesis using stage3_frame [of n34 s s'] by simp
  next
    case (stage4)
    then show ?thesis by cases simp_all
  next
    case (stage5)
    then show ?thesis by cases (simp_all add: flush_wb_def retire_fields)
  qed (simp add: decode_and_opfetch_def)
  then show ?case using step.IH by simp
qed (simp add: mkcore_def)

subsection \<open>A run\<close>

text \<open>
  \<open>ADDI x1, x0, 5\<close>, and right behind it \<open>ADD x2, x1, x1\<close>, which takes both operands from the bypass
  of the last buffer. \<open>advance\<close> is \<open>rl_fwd_baseout\<close>; there are two places in each buffer.
\<close>

definition addi_x1 :: decoded where
  "addi_x1 = \<lparr>instruction = 0x00500093, inst_type = ALU, rs1addr = 0, rs1type = Op1_IntegerRF, rs2addr = 0, rs2type = Immediate,
     imm = 5, dest = (IRF, 1), fn = FNADD, word32 = False, pc = 0, incr = 4, epochs = (False, False)\<rparr>"

definition add_x2 :: decoded where
  "add_x2 = \<lparr>instruction = 0x00108133, inst_type = ALU, rs1addr = 1, rs1type = Op1_IntegerRF, rs2addr = 1, rs2type = IntegerRF,
     imm = 1, dest = (IRF, 2), fn = FNADD, word32 = False, pc = 4, incr = 4, epochs = (False, False)\<rparr>"

definition advance :: "'i::len word core \<Rightarrow> 'i word core" where
  "advance s = s\<lparr>s3s4_fuid := tl (s3s4_fuid s), s3s4_baseout := tl (s3s4_baseout s),
     s4s5_fuid := s4s5_fuid s @ [hd (s3s4_fuid s)], s4s5_baseout := s4s5_baseout s @ [hd (s3s4_baseout s)]\<rparr>"

definition arith :: "decoded \<Rightarrow> 'i::len word core \<Rightarrow> 'i word core" where
  "arith m s = issue m BASE (Some (alu_output s m)) s"

definition commit :: "'i::len word core \<Rightarrow> 'i word core" where
  "commit s = retire False (Some (rdvalue (hd (s4s5_baseout s)))) s"

definition two_adds :: "2 word core" where
  "two_adds = advance (commit (arith add_x2 (decode_and_opfetch add_x2 (advance (arith addi_x1 (decode_and_opfetch addi_x1 mkcore))))))"

lemma advance_rule:
  "s3s4_fuid s \<noteq> [] \<Longrightarrow> s3s4_baseout s \<noteq> [] \<Longrightarrow> fu_type (hd (s3s4_fuid s)) = BASE \<Longrightarrow> length (s4s5_fuid s) < n45 \<Longrightarrow>
    core_rule n34 n45 spfpu psimd s (advance s)"
  unfolding advance_def by (intro stage4 rl_fwd_baseout) (simp_all add: neq_Nil_conv)

lemma commit_rule:
  "s4s5_fuid s \<noteq> [] \<Longrightarrow> s4s5_baseout s \<noteq> [] \<Longrightarrow> fu_type (hd (s4s5_fuid s)) = BASE \<Longrightarrow> fu_epochs (hd (s4s5_fuid s)) = rg_wEpoch s \<Longrightarrow>
    core_rule n34 n45 False psimd s (commit s)"
  unfolding commit_def
  by (rule stage5, rule rl_writeback_baseout [where f = "hd (s4s5_fuid s)" and fs = "tl (s4s5_fuid s)" and bs = "tl (s4s5_baseout s)"]) simp_all

lemmas run_simps = executable_def op1_avail_def op2_avail_def operand_def fn_bypass_def gen_bypass_def no_operand_def
  src1_def src2_def srcd_def rf_lock_def v_id_def issue_def ma_lock_rd_def ma_release_rd_def retire_def ma_commit_rd_def commit_rd_def
  decode_and_opfetch_def fetched_def op2_value_def mkcore_def mkscoreboard_def advance_def arith_def commit_def

lemma two_adds_reachable: "(core_rule 2 2 False psimd)\<^sup>*\<^sup>* mkcore two_adds"
proof -
  let ?s1 = "decode_and_opfetch addi_x1 (mkcore :: 2 word core)"
  let ?s2 = "arith addi_x1 ?s1"
  let ?s3 = "advance ?s2"
  let ?s4 = "decode_and_opfetch add_x2 ?s3"
  let ?s5 = "arith add_x2 ?s4"
  let ?s6 = "commit ?s5"
  have "core_rule 2 2 False psimd mkcore ?s1" by (rule opfetch) (simp_all add: mkcore_def addi_x1_def)
  moreover have "core_rule 2 2 False psimd ?s1 ?s2" unfolding arith_def
    by (intro stage3 rl_exe_base_arith) (simp_all add: run_simps addi_x1_def Let_def)
  moreover have "core_rule 2 2 False psimd ?s2 ?s3" by (rule advance_rule) (simp_all add: run_simps addi_x1_def Let_def)
  moreover have "core_rule 2 2 False psimd ?s3 ?s4"
    by (rule opfetch) (simp_all add: run_simps addi_x1_def add_x2_def Let_def)
  moreover have "core_rule 2 2 False psimd ?s4 ?s5" unfolding arith_def [of add_x2]
    by (intro stage3 rl_exe_base_arith) (simp_all add: run_simps addi_x1_def add_x2_def Let_def)
  moreover have "core_rule 2 2 False psimd ?s5 ?s6" by (rule commit_rule) (simp_all add: run_simps addi_x1_def add_x2_def Let_def)
  moreover have "core_rule 2 2 False psimd ?s6 two_adds" unfolding two_adds_def
    by (rule advance_rule) (simp_all add: run_simps addi_x1_def add_x2_def Let_def)
  ultimately show ?thesis by (meson rtranclp.rtrancl_refl rtranclp.rtrancl_into_rtrancl)
qed

lemma two_adds_registers:
  "rf two_adds (IRF, 1) = 5" "rf (commit two_adds) (IRF, 2) = 10" "rg_wEpoch two_adds = False" "fu_op1 (hd (s4s5_fuid two_adds)) = 5"
  unfolding two_adds_def
  by (simp_all add: run_simps addi_x1_def add_x2_def Let_def alu_output_def alu_result_def fn_base_alu_add)

theorem commits_follow_program_order_witness:
  "\<exists>u v. s4s5_fuid two_adds = [u] \<and> executes (\<lambda>_ _ _ _. 0) u v (rf two_adds) (rf (commit two_adds)) \<and>
     rf (commit two_adds) (IRF, 2) = 10"
proof -
  have head: "s4s5_fuid two_adds = [hd (s4s5_fuid two_adds)]" "fu_epochs (hd (s4s5_fuid two_adds)) = rg_wEpoch two_adds"
    "s4s5_baseout two_adds \<noteq> []" "fu_type (hd (s4s5_fuid two_adds)) = BASE"
    unfolding two_adds_def by (simp_all add: run_simps addi_x1_def add_x2_def Let_def)
  have "core_rule 2 2 False (\<lambda>_ _ _ _. 0) two_adds (commit two_adds)" by (rule commit_rule) (use head in auto)
  note main = commits_follow_program_order [OF _ two_adds_reachable this]
  have "s4s5_fuid (commit two_adds) = []" "rg_wEpoch (commit two_adds) = rg_wEpoch two_adds"
    by (simp_all add: commit_def retire_fields) (metis head(1) list.sel(3))
  then show ?thesis using main head(1,2) two_adds_registers(2) by (auto split: list.splits)
qed

text \<open>
  C17 (scoreboard). In every reachable state the identifiers of the instructions in flight are
  distinct, and the scoreboard has a register other than x0 locked exactly when one of them writes
  it, under the identifier of the youngest that does.
\<close>

theorem scoreboard_tracks_writers:
  assumes "n34 + n45 \<le> 2 ^ LENGTH('i)" and "(core_rule n34 n45 spfpu psimd)\<^sup>*\<^sup>* mkcore (s :: 'i::len word core)" and "r \<noteq> x0"
  shows "distinct (List.map (fu_id \<circ> fst) (queue s)) \<and>
    (case last_writer r (queue s) of None \<Rightarrow> \<not> rf_lock (sboard s) r
     | Some x \<Rightarrow> rf_lock (sboard s) r \<and> v_id (sboard s) r = fu_id (fst x))"
proof -
  have frame: "frame_inv n34 n45 s" using core_invariant [OF assms(2,1)] by (simp add: core_inv_def)
  then have "board_ok (sboard s) (queue s)" by (simp add: frame_inv_def)
  from board_okD [OF this assms(3)] frame_distinct [OF frame assms(1)] show ?thesis
    by (cases "last_writer r (queue s)") (simp_all add: writer_id_def)
qed

theorem scoreboard_tracks_writers_witness:
  "rf_lock (sboard two_adds) (IRF, 2) \<and> \<not> rf_lock (sboard two_adds) (IRF, 1)"
proof -
  have "last_writer (IRF, 2) (queue two_adds) \<noteq> None" "last_writer (IRF, 1) (queue two_adds) = None"
    unfolding last_writer_None two_adds_def by (simp_all add: run_simps addi_x1_def add_x2_def queue_def Let_def)
  then show ?thesis
    using scoreboard_tracks_writers [OF _ two_adds_reachable, of "(IRF, 2)"] scoreboard_tracks_writers [OF _ two_adds_reachable, of "(IRF, 1)"]
    by auto
qed

subsection \<open>The third operand of the P-box\<close>

text \<open>
  \<open>rl_pbox\<close> waits for the first two operands of a P instruction only. A load of \<open>x1\<close>, and right
  behind it a P instruction that accumulates into \<open>x1\<close>: stage 3 hands it over before the data
  cache has answered.
\<close>

definition load_x1 :: decoded where
  "load_x1 = \<lparr>instruction = 0x00003083, inst_type = MEMORY_INSTR, rs1addr = 0, rs1type = Op1_IntegerRF, rs2addr = 0,
     rs2type = IntegerRF, imm = 0, dest = (IRF, 1), fn = 0, word32 = False, pc = 0, incr = 4, epochs = (False, False)\<rparr>"

definition accumulate_x1 :: "u32 \<Rightarrow> decoded" where
  "accumulate_x1 i = \<lparr>instruction = i, inst_type = PSIMD, rs1addr = 2, rs1type = Op1_IntegerRF, rs2addr = 3, rs2type = IntegerRF,
     imm = 0, dest = (IRF, 1), fn = 0, word32 = True, pc = 4, incr = 4, epochs = (False, False)\<rparr>"

definition capture :: "u64 \<Rightarrow> 'i::len word core \<Rightarrow> 'i word core" where
  "capture v s = (let f = hd (s3s4_fuid s) in
     s\<lparr>s3s4_fuid := tl (s3s4_fuid s), s4s5_fuid := s4s5_fuid s @ [f\<lparr>fu_type := BASE\<rparr>],
       s4s5_baseout := s4s5_baseout s @ [\<lparr>base_id = fu_id f, rdvalue = v, base_rd = fu_rd f, base_epochs = fu_epochs f\<rparr>]\<rparr>)"

lemma capture_rule:
  "s3s4_fuid s \<noteq> [] \<Longrightarrow> fu_type (hd (s3s4_fuid s)) \<in> {MEMORY, EXE_MULDIV, EXE_PSIMD, EXE_FLOAT} \<Longrightarrow> length (s4s5_fuid s) < n45 \<Longrightarrow>
    (fu_type (hd (s3s4_fuid s)) = EXE_PSIMD \<longrightarrow> v = (let f = hd (s3s4_fuid s) in psimd (instruction (fu_inst f)) (fu_op1 f) (fu_op2 f) (fu_opd f))) \<Longrightarrow>
    core_rule n34 n45 spfpu psimd s (capture v s)"
  unfolding capture_def Let_def by (intro stage4 rl_capture) simp_all

definition stale_run ::
    "bool \<Rightarrow> (u32 \<Rightarrow> u64 \<Rightarrow> u64 \<Rightarrow> u64 \<Rightarrow> u64) \<Rightarrow> u64 \<Rightarrow> u32 \<Rightarrow> 'i::len word core" where
  "stale_run spfpu psimd loaded i =
     capture (psimd i 0 0 0) (retire spfpu (Some loaded) (capture loaded
       (issue (accumulate_x1 i) EXE_PSIMD None (decode_and_opfetch (accumulate_x1 i)
         (issue load_x1 MEMORY None (decode_and_opfetch load_x1 mkcore))))))"

lemma stale_run_reachable:
  "(core_rule (Suc (Suc n34)) (Suc n45) spfpu psimd)\<^sup>*\<^sup>* mkcore (stale_run spfpu psimd loaded i :: 'i::len word core)"
proof -
  let ?rule = "core_rule (Suc (Suc n34)) (Suc n45) spfpu psimd"
  let ?s1 = "decode_and_opfetch load_x1 (mkcore :: 'i word core)"
  let ?s2 = "issue load_x1 MEMORY None ?s1"
  let ?s3 = "decode_and_opfetch (accumulate_x1 i) ?s2"
  let ?s4 = "issue (accumulate_x1 i) EXE_PSIMD None ?s3"
  let ?s5 = "capture loaded ?s4"
  let ?s6 = "retire spfpu (Some loaded) ?s5"
  note simps = run_simps capture_def load_x1_def accumulate_x1_def Let_def
  have "?rule mkcore ?s1" by (rule opfetch) (simp_all add: simps)
  moreover have "?rule ?s1 ?s2" by (intro stage3 rl_exe_base_memory) (simp_all add: simps)
  moreover have "?rule ?s2 ?s3" by (rule opfetch) (simp_all add: simps)
  moreover have "?rule ?s3 ?s4" by (intro stage3 rl_unit) (simp_all add: simps pending_type_def)
  moreover have "?rule ?s4 ?s5" by (rule capture_rule) (simp_all add: simps)
  moreover have "?rule ?s5 ?s6"
    using stage5 [OF rl_writeback_baseout, of ?s5 "hd (s4s5_fuid ?s5)" "[]" "hd (s4s5_baseout ?s5)" "[]"] by (simp add: simps)
  moreover have "?rule ?s6 (stale_run spfpu psimd loaded i)" unfolding stale_run_def
    by (rule capture_rule) (simp_all add: simps)
  ultimately show ?thesis by (meson rtranclp.rtrancl_refl rtranclp.rtrancl_into_rtrancl)
qed

text \<open>
  C16 (stale accumulator). With two places or more behind stage 3, for every width of identifiers
  and with or without floating point, the core reaches a state in which the P instruction at the
  head of the last buffer, valid and about to be committed, has computed with 0 in place of the
  accumulator, while the load before it has left any chosen value there. What is committed is then
  the result of the wrong operand.
\<close>

theorem pbox_reads_stale_accumulator:
  "\<exists>s u b. (core_rule (Suc (Suc n34)) (Suc n45) spfpu psimd)\<^sup>*\<^sup>* mkcore (s :: 'i::len word core) \<and>
     s4s5_fuid s = [u] \<and> s4s5_baseout s = [b] \<and> fu_type u = BASE \<and> fu_epochs u = rg_wEpoch s \<and>
     inst_type (fu_inst u) = PSIMD \<and> instruction (fu_inst u) = i \<and> rf s (srcd (fu_inst u)) = loaded \<and>
     fu_opd u = 0 \<and> rdvalue b = psimd i (fu_op1 u) (fu_op2 u) 0"
  by (intro exI [of _ "stale_run spfpu psimd loaded i"] exI [of _ "hd (s4s5_fuid (stale_run spfpu psimd loaded i))"]
      exI [of _ "hd (s4s5_baseout (stale_run spfpu psimd loaded i))"] conjI stale_run_reachable)
    (simp_all add: stale_run_def run_simps capture_def load_x1_def accumulate_x1_def Let_def)

end
