(* ===== verification/Core_ISA.thy ===== *)
theory Core_ISA
  imports Core_Decode Core_Forwarding
begin

section \<open>The arithmetic of the base instruction set\<close>

text \<open>
  A specification of the arithmetic instructions of RV64I, independent of the source: \<open>arith_insn\<close>,
  their encodings, their target and value. The proofs that the decoder takes exactly these for
  arithmetic, that what stage 2 sends on makes the ALU compute the value of the instruction, and
  that a commit of the pipeline therefore executes it. \<open>pack_prv\<close> and \<open>av\<close> stand for the generated
  package, as in Core_Decode.
\<close>

subsection \<open>Instructions and their encoding\<close>

datatype arith_insn =
  OP alu_op "5 word" "5 word" "5 word"
| OP_32 alu_op "5 word" "5 word" "5 word"
| OP_IMM alu_op "5 word" "5 word" "12 word"
| SHIFT_IMM alu_op "5 word" "5 word" "6 word"
| ADDIW "5 word" "5 word" "12 word"
| SHIFT_IMM_32 alu_op "5 word" "5 word" "5 word"
| LUI "5 word" "20 word"
| AUIPC "5 word" "20 word"

definition r_format :: "7 word \<Rightarrow> 5 word \<Rightarrow> 5 word \<Rightarrow> 3 word \<Rightarrow> 5 word \<Rightarrow> 7 word \<Rightarrow> u32" where
  "r_format f7 rs2 rs1 f3 rd op =
     word_cat f7 (word_cat rs2 (word_cat rs1 (word_cat f3 (word_cat rd op :: 12 word) :: 15 word) :: 20 word) :: 25 word)"

definition i_format :: "12 word \<Rightarrow> 5 word \<Rightarrow> 3 word \<Rightarrow> 5 word \<Rightarrow> 7 word \<Rightarrow> u32" where
  "i_format imm12 rs1 f3 rd op = word_cat imm12 (word_cat rs1 (word_cat f3 (word_cat rd op :: 12 word) :: 15 word) :: 20 word)"

definition u_format :: "20 word \<Rightarrow> 5 word \<Rightarrow> 7 word \<Rightarrow> u32" where
  "u_format imm20 rd op = word_cat imm20 (word_cat rd op :: 12 word)"

text \<open>The formats with a scattered immediate: of stores, branches (the offset without its lowest digit) and jumps.\<close>

definition s_format :: "12 word \<Rightarrow> 5 word \<Rightarrow> 5 word \<Rightarrow> 3 word \<Rightarrow> 7 word \<Rightarrow> u32" where
  "s_format i rs2 rs1 f3 op = r_format (ucast (drop_bit 5 i)) rs2 rs1 f3 (ucast i) op"

definition b_format :: "12 word \<Rightarrow> 5 word \<Rightarrow> 5 word \<Rightarrow> 3 word \<Rightarrow> 7 word \<Rightarrow> u32" where
  "b_format i rs2 rs1 f3 op =
     r_format (word_cat (ucast (drop_bit 11 i) :: 1 word) (ucast (drop_bit 4 i) :: 6 word)) rs2 rs1 f3
       (word_cat (ucast i :: 4 word) (ucast (drop_bit 10 i) :: 1 word)) op"

definition j_format :: "20 word \<Rightarrow> 5 word \<Rightarrow> 7 word \<Rightarrow> u32" where
  "j_format i rd op =
     u_format (word_cat (ucast (drop_bit 19 i) :: 1 word) (word_cat (ucast i :: 10 word)
       (word_cat (ucast (drop_bit 10 i) :: 1 word) (ucast (drop_bit 11 i) :: 8 word) :: 9 word) :: 19 word)) rd op"

primrec op_funct3 :: "alu_op \<Rightarrow> 3 word" where
  "op_funct3 ADD = 0" | "op_funct3 SUB = 0" | "op_funct3 SLL = 1" | "op_funct3 SLT = 2" | "op_funct3 SLTU = 3"
| "op_funct3 XORop = 4" | "op_funct3 SRL = 5" | "op_funct3 SRA = 5" | "op_funct3 ORop = 6" | "op_funct3 ANDop = 7"

definition op_funct7 :: "alu_op \<Rightarrow> 7 word" where
  "op_funct7 op = (if op = SUB \<or> op = SRA then 0b0100000 else 0)"

primrec encode :: "arith_insn \<Rightarrow> u32" where
  "encode (OP op rd rs1 rs2) = r_format (op_funct7 op) rs2 rs1 (op_funct3 op) rd 0b0110011"
| "encode (OP_32 op rd rs1 rs2) = r_format (op_funct7 op) rs2 rs1 (op_funct3 op) rd 0b0111011"
| "encode (OP_IMM op rd rs1 i) = i_format i rs1 (op_funct3 op) rd 0b0010011"
| "encode (SHIFT_IMM op rd rs1 shamt) = i_format (word_cat (ucast (drop_bit 1 (op_funct7 op)) :: 6 word) shamt) rs1 (op_funct3 op) rd 0b0010011"
| "encode (ADDIW rd rs1 i) = i_format i rs1 0 rd 0b0011011"
| "encode (SHIFT_IMM_32 op rd rs1 shamt) = r_format (op_funct7 op) shamt rs1 (op_funct3 op) rd 0b0011011"
| "encode (LUI rd i) = u_format i rd 0b0110111"
| "encode (AUIPC rd i) = u_format i rd 0b0010111"

definition is_shift :: "alu_op \<Rightarrow> bool" where
  "is_shift op \<longleftrightarrow> op \<in> {SLL, SRL, SRA}"

primrec valid_insn :: "arith_insn \<Rightarrow> bool" where
  "valid_insn (OP op rd rs1 rs2) \<longleftrightarrow> True"
| "valid_insn (OP_32 op rd rs1 rs2) \<longleftrightarrow> has_word_form op"
| "valid_insn (OP_IMM op rd rs1 i) \<longleftrightarrow> \<not> is_shift op \<and> op \<noteq> SUB"
| "valid_insn (SHIFT_IMM op rd rs1 shamt) \<longleftrightarrow> is_shift op"
| "valid_insn (ADDIW rd rs1 i) \<longleftrightarrow> True"
| "valid_insn (SHIFT_IMM_32 op rd rs1 shamt) \<longleftrightarrow> is_shift op"
| "valid_insn (LUI rd i) \<longleftrightarrow> True"
| "valid_insn (AUIPC rd i) \<longleftrightarrow> True"

text \<open>The register that an instruction writes, and the value, from the address of the instruction and the registers.\<close>

primrec target :: "arith_insn \<Rightarrow> 5 word" where
  "target (OP op rd rs1 rs2) = rd"
| "target (OP_32 op rd rs1 rs2) = rd"
| "target (OP_IMM op rd rs1 i) = rd"
| "target (SHIFT_IMM op rd rs1 shamt) = rd"
| "target (ADDIW rd rs1 i) = rd"
| "target (SHIFT_IMM_32 op rd rs1 shamt) = rd"
| "target (LUI rd i) = rd"
| "target (AUIPC rd i) = rd"

definition upper_imm :: "20 word \<Rightarrow> u64" where
  "upper_imm i = scast (word_cat i (0 :: 12 word) :: u32)"

primrec isa_value :: "arith_insn \<Rightarrow> u64 \<Rightarrow> (5 word \<Rightarrow> u64) \<Rightarrow> u64" where
  "isa_value (OP op rd rs1 rs2) addr x = alu_spec op (x rs1) (x rs2)"
| "isa_value (OP_32 op rd rs1 rs2) addr x = scast (alu_spec op (ucast (x rs1) :: u32) (ucast (x rs2)))"
| "isa_value (OP_IMM op rd rs1 i) addr x = alu_spec op (x rs1) (scast i)"
| "isa_value (SHIFT_IMM op rd rs1 shamt) addr x = alu_spec op (x rs1) (ucast shamt)"
| "isa_value (ADDIW rd rs1 i) addr x = scast (ucast (x rs1) + scast i :: u32)"
| "isa_value (SHIFT_IMM_32 op rd rs1 shamt) addr x = scast (alu_spec op (ucast (x rs1) :: u32) (ucast shamt))"
| "isa_value (LUI rd i) addr x = upper_imm i"
| "isa_value (AUIPC rd i) addr x = addr + upper_imm i"

subsection \<open>The fields of an encoded instruction\<close>

lemmas bit_field_simps = bit_word_cat_iff bit_ucast_iff bit_drop_bit_eq

lemma r_format_fields:
  "opcode7 (r_format f7 rs2 rs1 f3 rd op) = op" "rd_field (r_format f7 rs2 rs1 f3 rd op) = rd"
  "funct3_field (r_format f7 rs2 rs1 f3 rd op) = f3" "rs1_field (r_format f7 rs2 rs1 f3 rd op) = rs1"
  "rs2_field (r_format f7 rs2 rs1 f3 rd op) = rs2" "funct7_field (r_format f7 rs2 rs1 f3 rd op) = f7"
  by (rule bit_word_eqI, auto simp: r_format_def bit_field_simps dest: bit_imp_le_length)+

lemma i_format_fields:
  "opcode7 (i_format i rs1 f3 rd op) = op" "rd_field (i_format i rs1 f3 rd op) = rd"
  "funct3_field (i_format i rs1 f3 rd op) = f3" "rs1_field (i_format i rs1 f3 rd op) = rs1"
  "imm12_field (i_format i rs1 f3 rd op) = i"
  by (rule bit_word_eqI, auto simp: i_format_def bit_field_simps dest: bit_imp_le_length)+

lemma u_format_fields:
  "opcode7 (u_format i rd op) = op" "rd_field (u_format i rd op) = rd" "(ucast (drop_bit 12 (u_format i rd op)) :: 20 word) = i"
  by (rule bit_word_eqI, auto simp: u_format_def bit_field_simps dest: bit_imp_le_length)+

lemma format_fields_inverse:
  "inst = r_format (funct7_field inst) (rs2_field inst) (rs1_field inst) (funct3_field inst) (rd_field inst) (opcode7 inst)"
  "inst = i_format (imm12_field inst) (rs1_field inst) (funct3_field inst) (rd_field inst) (opcode7 inst)"
  "inst = u_format (ucast (drop_bit 12 inst)) (rd_field inst) (opcode7 inst)"
  by (rule bit_word_eqI, auto simp: r_format_def i_format_def u_format_def bit_field_simps)+

text \<open>Other fields, as parts of these.\<close>

lemma field_parts:
  "opcode inst = ucast (drop_bit 2 (opcode7 inst))" "imm12_field inst = word_cat (funct7_field inst) (rs2_field inst)"
  "rs2_field inst = ucast (imm12_field inst)" "funct7_field inst = ucast (drop_bit 5 (imm12_field inst))"
  "(ucast (drop_bit 26 inst) :: 6 word) = ucast (drop_bit 6 (imm12_field inst))"
  "(ucast (drop_bit 28 inst) :: 4 word) = ucast (drop_bit 8 (imm12_field inst))"
  "(ucast (drop_bit 25 inst) :: 5 word) = ucast (funct7_field inst)"
  "bit inst 30 = bit (funct7_field inst) 5" "bit inst 31 = bit (funct7_field inst) 6" "bit inst 14 = bit (funct3_field inst) 2"
  by ((rule bit_word_eqI)?, auto simp: bit_field_simps)+

subsection \<open>Decoding an encoded instruction\<close>

lemma like_bits: "CHR ''?'' \<notin> set p \<Longrightarrow> like p w \<longleftrightarrow> (\<forall>k<length p. bit w k = (rev p ! k = CHR ''1''))"
proof (induction p)
  case (Cons c p)
  have "(\<forall>k<length (c # p). bit w k = (rev (c # p) ! k = CHR ''1'')) \<longleftrightarrow>
    bit w (length p) = (c = CHR ''1'') \<and> (\<forall>k<length p. bit w k = (rev p ! k = CHR ''1''))"
    by (auto simp: nth_append All_less_Suc)
  then show ?case using Cons by auto
qed simp

lemma like_value:
  fixes w :: "'n::len word"
  assumes "CHR ''?'' \<notin> set p" and "length p = LENGTH('n)"
  shows "like p w \<longleftrightarrow> w = horner_sum of_bool 2 (List.map (\<lambda>c. c = CHR ''1'') (rev p))"
proof -
  have "like p w \<longleftrightarrow> (\<forall>k<LENGTH('n). bit w k = bit (horner_sum of_bool 2 (List.map (\<lambda>c. c = CHR ''1'') (rev p)) :: 'n word) k)"
    using assms by (simp add: like_bits bit_horner_sum_bit_word_iff)
  then show ?thesis by (auto intro: bit_word_eqI)
qed

lemma like_opcodes:
  fixes w :: "7 word"
  shows "like ''0110111'' w \<longleftrightarrow> w = 0b0110111" "like ''0010111'' w \<longleftrightarrow> w = 0b0010111"
  "like ''1101111'' w \<longleftrightarrow> w = 0b1101111" "like ''1100111'' w \<longleftrightarrow> w = 0b1100111"
  "like ''1100011'' w \<longleftrightarrow> w = 0b1100011" "like ''0000011'' w \<longleftrightarrow> w = 0b0000011"
  "like ''0100011'' w \<longleftrightarrow> w = 0b0100011" "like ''0010011'' w \<longleftrightarrow> w = 0b0010011"
  "like ''0110011'' w \<longleftrightarrow> w = 0b0110011" "like ''0001111'' w \<longleftrightarrow> w = 0b0001111"
  "like ''0011011'' w \<longleftrightarrow> w = 0b0011011" "like ''0111011'' w \<longleftrightarrow> w = 0b0111011"
  "like ''1110011'' w \<longleftrightarrow> w = 0b1110011" "like ''1110111'' w \<longleftrightarrow> w = 0b1110111"
  "like ''0101111'' w \<longleftrightarrow> w = 0b0101111"
  by (simp add: like_value del: like.simps)+

lemma like_any: "like ''???'' w" "like ''????????????'' w"
  by simp_all

lemma like_funct7:
  "like ''0?00000?????'' (imm12_field inst) \<longleftrightarrow> like ''0?00000'' (funct7_field inst)"
  "like ''0000001?????'' (imm12_field inst) \<longleftrightarrow> like ''0000001'' (funct7_field inst)"
  by (simp add: bit_field_simps)+

lemma if_neq: "x \<noteq> c \<Longrightarrow> y \<noteq> c \<Longrightarrow> (if b then x else y) \<noteq> c"
  by simp

lemma other_insttypes: "system_insttype pack_prv av inst csrs \<noteq> ALU" "float_insttype inst csrs \<noteq> ALU"
  unfolding system_insttype_def float_insttype_def Let_def by (intro if_neq; simp)+

text \<open>The instructions that the decoder takes for arithmetic, by their fields.\<close>

definition alu_fields :: "u32 \<Rightarrow> bool" where
  "alu_fields inst = (let op = opcode7 inst; f3 = funct3_field inst; f7 = funct7_field inst in
     op = 0b0110111 \<or> op = 0b0010111 \<or>
     op = 0b0010011 \<and> (f3 = 1 \<longrightarrow> (ucast (drop_bit 26 inst) :: 6 word) = 0) \<and>
       (f3 = 5 \<longrightarrow> like ''0?0000'' (ucast (drop_bit 26 inst) :: 6 word)) \<or>
     op = 0b0110011 \<and> like ''0?00000'' f7 \<and> (bit f7 5 \<longrightarrow> f3 = 0 \<or> f3 = 5) \<or>
     op = 0b0011011 \<and> (f3 = 0 \<or> f3 = 1 \<and> f7 = 0 \<or> f3 = 5 \<and> \<not> bit f7 6 \<and> (ucast f7 :: 5 word) = 0) \<or>
     op = 0b0111011 \<and> like ''0?00000'' f7 \<and> (f3 = 0 \<or> f3 = 5 \<or> f3 = 1 \<and> \<not> bit f7 5))"

lemma insttype_ALU: "fn_decode_insttype fpu pack_prv av inst csrs = ALU \<longleftrightarrow> alu_fields inst"
proof -
  have env: "inst \<noteq> 0x73 \<and> inst \<noteq> 0x100073" if "opcode7 inst \<noteq> 0x73" using that by auto
  note simps = fn_decode_insttype_def alu_fields_def Let_def pat_def like_any like_opcodes like_funct7 other_insttypes field_parts(7-9)
  consider "opcode7 inst = 0b0110111" | "opcode7 inst = 0b0010111" | "opcode7 inst = 0b1101111" | "opcode7 inst = 0b1100111"
    | "opcode7 inst = 0b1100011" | "opcode7 inst = 0b0000011" | "opcode7 inst = 0b0100011" | "opcode7 inst = 0b0010011"
    | "opcode7 inst = 0b0110011" | "opcode7 inst = 0b0001111" | "opcode7 inst = 0b0011011" | "opcode7 inst = 0b0111011"
    | "opcode7 inst = 0b1110011" | "opcode7 inst = 0b1110111" | "opcode7 inst = 0b0101111"
    | "opcode7 inst \<notin> {0b0110111, 0b0010111, 0b1101111, 0b1100111, 0b1100011, 0b0000011, 0b0100011, 0b0010011, 0b0110011, 0b0001111, 0b0011011, 0b0111011, 0b1110011, 0b1110111, 0b0101111}"
    by blast
  then show ?thesis by cases (simp_all add: simps env del: like.simps)
qed

lemma like_alternative:
  fixes w :: "7 word" and v :: "6 word"
  shows "like ''0?00000'' w \<longleftrightarrow> w = 0 \<or> w = 0b0100000" "like ''0?0000'' v \<longleftrightarrow> v = 0 \<or> v = 0b010000"
proof -
  have like: "like (CHR ''0'' # CHR ''?'' # p) x \<longleftrightarrow>
      like (CHR ''0'' # CHR ''0'' # p) x \<or> like (CHR ''0'' # CHR ''1'' # p) x" for p and x :: "'n::len word" by auto
  show "like ''0?00000'' w \<longleftrightarrow> w = 0 \<or> w = 0b0100000" unfolding like by (simp add: like_value del: like.simps)
  show "like ''0?0000'' v \<longleftrightarrow> v = 0 \<or> v = 0b010000" unfolding like by (simp add: like_value del: like.simps)
qed

lemma word3_cases: "x = 0 \<or> x = 1 \<or> x = 2 \<or> x = 3 \<or> x = 4 \<or> x = 5 \<or> x = 6 \<or> x = 7" for x :: "3 word"
proof -
  have "unat x < 8" using unsigned_less [of x] by simp
  then have "unat x \<in> {0, 1, 2, 3, 4, 5, 6, 7}" by auto
  then have "(of_nat (unat x) :: 3 word) \<in> of_nat ` {0, 1, 2, 3, 4, 5, 6, 7}" by (rule imageI)
  then show ?thesis by simp
qed

lemma op_of_fields:
  assumes "f7 = 0 \<or> f7 = 0b0100000 \<and> (f3 = 0 \<or> f3 = 5)"
  obtains op where "op_funct3 op = f3" "op_funct7 op = f7"
proof -
  have e: "op_funct3 op = f3 \<Longrightarrow> op \<noteq> SUB \<and> op \<noteq> SRA \<Longrightarrow> \<exists>op. op_funct3 op = f3 \<and> op_funct7 op = 0" for op
    by (auto simp: op_funct7_def)
  have base: "\<exists>op. op_funct3 op = f3 \<and> op_funct7 op = 0"
    using word3_cases [of f3] e [of ADD] e [of SLL] e [of SLT] e [of SLTU] e [of XORop] e [of SRL] e [of ORop] e [of ANDop] by force
  have "op_funct3 SUB = 0 \<and> op_funct7 SUB = 0b0100000" "op_funct3 SRA = 5 \<and> op_funct7 SRA = 0b0100000"
    by (simp_all add: op_funct7_def)
  then show ?thesis using assms base that by metis
qed

text \<open>The fields name an instruction.\<close>

lemma upper_six: "(ucast (drop_bit 6 i) :: 6 word) = u \<Longrightarrow> i = word_cat u (ucast i :: 6 word)" for i :: "12 word"
  by (rule bit_word_eqI) (auto simp: bit_field_simps)

lemma upper_two: "\<not> bit f 6 \<Longrightarrow> (ucast f :: 5 word) = 0 \<Longrightarrow> f = 0 \<or> f = 0b0100000" for f :: "7 word"
proof -
  assume f: "\<not> bit f 6" "(ucast f :: 5 word) = 0"
  from f(2) have "like ''00000'' (ucast f :: 5 word)" by (simp add: like_value del: like.simps)
  then have "like ''0?00000'' f" using f(1) by (simp add: bit_ucast_iff) (simp add: numeral_eq_Suc)
  then show ?thesis by (simp add: like_alternative del: like.simps)
qed

lemma exact_OP:
  assumes "opcode7 inst = 0b0110011" "like ''0?00000'' (funct7_field inst)"
    "bit (funct7_field inst) 5 \<longrightarrow> funct3_field inst = 0 \<or> funct3_field inst = 5"
  shows "\<exists>a. valid_insn a \<and> inst = encode a"
proof -
  have "funct7_field inst = 0 \<or> funct7_field inst = 0b0100000 \<and> (funct3_field inst = 0 \<or> funct3_field inst = 5)"
    using assms(2,3) by (auto simp: like_alternative simp del: like.simps)
  then obtain op where "op_funct3 op = funct3_field inst" "op_funct7 op = funct7_field inst" by (rule op_of_fields)
  then have "inst = encode (OP op (rd_field inst) (rs1_field inst) (rs2_field inst))"
    using format_fields_inverse(1) [of inst] assms(1) by simp
  then show ?thesis by (metis valid_insn.simps(1))
qed

lemma exact_OP_32:
  assumes "opcode7 inst = 0b0111011" "like ''0?00000'' (funct7_field inst)"
    "funct3_field inst = 0 \<or> funct3_field inst = 5 \<or> funct3_field inst = 1 \<and> \<not> bit (funct7_field inst) 5"
  shows "\<exists>a. valid_insn a \<and> inst = encode a"
proof -
  have f: "funct7_field inst = 0 \<or> funct7_field inst = 0b0100000 \<and> (funct3_field inst = 0 \<or> funct3_field inst = 5)"
    using assms(2,3) by (auto simp: like_alternative simp del: like.simps)
  then obtain op where op: "op_funct3 op = funct3_field inst" "op_funct7 op = funct7_field inst" by (rule op_of_fields)
  then have "has_word_form op" using assms(3) by (cases op) (auto simp: has_word_form_def)
  moreover have "inst = encode (OP_32 op (rd_field inst) (rs1_field inst) (rs2_field inst))"
    using format_fields_inverse(1) [of inst] assms(1) op by simp
  ultimately show ?thesis by (metis valid_insn.simps(2))
qed

lemma exact_OP_IMM_32:
  assumes "opcode7 inst = 0b0011011"
    "funct3_field inst = 0 \<or> funct3_field inst = 1 \<and> funct7_field inst = 0 \<or>
     funct3_field inst = 5 \<and> \<not> bit (funct7_field inst) 6 \<and> (ucast (funct7_field inst) :: 5 word) = 0"
  shows "\<exists>a. valid_insn a \<and> inst = encode a"
proof -
  have "inst = encode (ADDIW (rd_field inst) (rs1_field inst) (imm12_field inst))" if "funct3_field inst = 0"
    using format_fields_inverse(2) [of inst] assms(1) that by simp
  moreover have "\<exists>a. valid_insn a \<and> inst = encode a"
    if f: "funct3_field inst = 1 \<and> funct7_field inst = 0 \<or> funct3_field inst = 5 \<and> (funct7_field inst = 0 \<or> funct7_field inst = 0b0100000)"
  proof -
    have "funct7_field inst = 0 \<or> funct7_field inst = 0b0100000 \<and> (funct3_field inst = 0 \<or> funct3_field inst = 5)" using f by blast
    then obtain op where op: "op_funct3 op = funct3_field inst" "op_funct7 op = funct7_field inst" by (rule op_of_fields)
    then have "is_shift op" using f by (cases op) (auto simp: is_shift_def)
    moreover have "inst = encode (SHIFT_IMM_32 op (rd_field inst) (rs1_field inst) (rs2_field inst))"
      using format_fields_inverse(1) [of inst] assms(1) op by simp
    ultimately show ?thesis by (metis valid_insn.simps(6))
  qed
  ultimately show ?thesis using assms(2) upper_two [of "funct7_field inst"] by (metis valid_insn.simps(5))
qed

lemma exact_OP_IMM:
  assumes "opcode7 inst = 0b0010011" "funct3_field inst = 1 \<longrightarrow> (ucast (drop_bit 26 inst) :: 6 word) = 0"
    "funct3_field inst = 5 \<longrightarrow> like ''0?0000'' (ucast (drop_bit 26 inst) :: 6 word)"
  shows "\<exists>a. valid_insn a \<and> inst = encode a"
proof (cases "funct3_field inst = 1 \<or> funct3_field inst = 5")
  case True
  let ?u = "ucast (drop_bit 26 inst) :: 6 word"
  have u: "?u = 0 \<or> ?u = 0b010000 \<and> funct3_field inst = 5" using assms(2,3) True
    by (auto simp: like_alternative simp del: like.simps)
  then have "2 * ucast ?u = (0 :: 7 word) \<or> 2 * ucast ?u = (0b0100000 :: 7 word) \<and> (funct3_field inst = 0 \<or> funct3_field inst = 5)"
    by auto
  then obtain op where op: "op_funct3 op = funct3_field inst" "op_funct7 op = 2 * ucast ?u" by (rule op_of_fields)
  have "is_shift op" using True op(1) by (cases op) (auto simp: is_shift_def)
  moreover have "ucast (drop_bit 1 (op_funct7 op)) = ?u" using u op(2) by auto
  then have "imm12_field inst = word_cat (ucast (drop_bit 1 (op_funct7 op)) :: 6 word) (ucast (imm12_field inst) :: 6 word)"
    using upper_six [of "imm12_field inst" ?u] field_parts(5) [of inst] by simp
  then have "inst = encode (SHIFT_IMM op (rd_field inst) (rs1_field inst) (ucast (imm12_field inst)))"
    using format_fields_inverse(2) [of inst] assms(1) op(1) by simp
  ultimately show ?thesis by (metis valid_insn.simps(4))
next
  case False
  have "(0 :: 7 word) = 0 \<or> (0 :: 7 word) = 0b0100000 \<and> (funct3_field inst = 0 \<or> funct3_field inst = 5)" by simp
  then obtain op where op: "op_funct3 op = funct3_field inst" "op_funct7 op = 0" by (rule op_of_fields)
  then have "\<not> is_shift op \<and> op \<noteq> SUB" using False by (cases op) (auto simp: is_shift_def op_funct7_def)
  moreover have "inst = encode (OP_IMM op (rd_field inst) (rs1_field inst) (imm12_field inst))"
    using format_fields_inverse(2) [of inst] assms(1) op(1) by simp
  ultimately show ?thesis by (metis valid_insn.simps(3))
qed

lemma exact_upper:
  assumes "opcode7 inst = 0b0110111 \<or> opcode7 inst = 0b0010111"
  shows "\<exists>a. valid_insn a \<and> inst = encode a"
  using assms format_fields_inverse(3) [of inst] encode.simps(7,8) valid_insn.simps(7,8) by metis

lemma alu_fields_exact: "alu_fields inst \<Longrightarrow> \<exists>a. valid_insn a \<and> inst = encode a"
  unfolding alu_fields_def Let_def
  by (elim disjE conjE) (simp_all only: exact_upper exact_OP_IMM exact_OP exact_OP_32 exact_OP_IMM_32 simp_thms)

subsection \<open>Immediates\<close>

lemma if_minus_one: "bit (if b then - 1 else 0 :: 'n::len word) n \<longleftrightarrow> b \<and> n < LENGTH('n)"
  by simp

lemmas imm_bits = bit_field_simps bit_of_bool_iff bit_signed_iff if_minus_one

lemma bit_immediate_value:
  "bit (immediate_value b31 b20_30 b12_19 b11 b5_10 b1_4 b0) n \<longleftrightarrow>
    (if n = 0 then b0 else if n < 5 then bit b1_4 (n - 1) else if n < 11 then bit b5_10 (n - 5) else if n = 11 then b11
     else if n < 20 then bit b12_19 (n - 12) else if n < 31 then bit b20_30 (n - 20) else n = 31 \<and> b31)"
  by (auto simp: immediate_value_def imm_bits)

lemma decode_immediate_I:
  assumes "opcode inst \<notin> {0b01000, 0b01001, 0b11000, 0b01101, 0b00101, 0b11011, 0b01011, 0b11100}"
  shows "fn_decode_immediate inst csrs = scast (imm12_field inst)"
proof -
  have "fn_decode_immediate inst csrs = immediate_value (bit inst 31) (if bit inst 31 then - 1 else 0) (if bit inst 31 then - 1 else 0)
      (bit inst 31) (ucast (drop_bit 25 inst)) (ucast (drop_bit 21 inst)) (bit inst 20)"
    using assms by (simp add: fn_decode_immediate_def Let_def)
  also have "\<dots> = scast (imm12_field inst)"
    by (rule bit_word_eqI) (auto simp: bit_immediate_value imm_bits min_def)
  finally show ?thesis .
qed

lemma at_31: "n < 32 \<Longrightarrow> \<not> n < 31 \<Longrightarrow> n = (31 :: nat)"
  by simp

lemma decode_immediate_U:
  assumes "opcode inst = 0b01101 \<or> opcode inst = 0b00101"
  shows "fn_decode_immediate inst csrs = word_cat (ucast (drop_bit 12 inst) :: 20 word) (0 :: 12 word)"
proof -
  have "fn_decode_immediate inst csrs = immediate_value (bit inst 31) (ucast (drop_bit 20 inst)) (ucast (drop_bit 12 inst)) False 0 0 False"
    using assms by (auto simp: fn_decode_immediate_def Let_def)
  also have "\<dots> = word_cat (ucast (drop_bit 12 inst) :: 20 word) (0 :: 12 word)"
    by (rule bit_word_eqI) (auto simp: bit_immediate_value imm_bits dest: at_31)
  finally show ?thesis .
qed

lemma decode_immediate_S:
  "fn_decode_immediate (s_format i rs2 rs1 f3 0b0100011) csrs = scast i" (is "fn_decode_immediate ?inst csrs = _")
proof -
  have "opcode ?inst = 0b01000" by (simp add: s_format_def field_parts(1) r_format_fields)
  then have "fn_decode_immediate ?inst csrs = immediate_value (bit ?inst 31) (if bit ?inst 31 then - 1 else 0) (if bit ?inst 31 then - 1 else 0)
      (bit ?inst 31) (ucast (drop_bit 25 ?inst)) (ucast (drop_bit 8 ?inst)) (bit ?inst 7)"
    by (simp add: fn_decode_immediate_def Let_def)
  also have "\<dots> = scast i"
    by (rule bit_word_eqI) (auto simp: bit_immediate_value s_format_def r_format_def imm_bits min_def)
  finally show ?thesis .
qed

lemma decode_immediate_B:
  "fn_decode_immediate (b_format i rs2 rs1 f3 0b1100011) csrs = scast (word_cat i (0 :: 1 word) :: 13 word)" (is "fn_decode_immediate ?inst csrs = _")
proof -
  have "opcode ?inst = 0b11000" by (simp add: b_format_def field_parts(1) r_format_fields)
  then have "fn_decode_immediate ?inst csrs = immediate_value (bit ?inst 31) (if bit ?inst 31 then - 1 else 0) (if bit ?inst 31 then - 1 else 0)
      (bit ?inst 7) (ucast (drop_bit 25 ?inst)) (ucast (drop_bit 8 ?inst)) False"
    by (simp add: fn_decode_immediate_def Let_def)
  also have "\<dots> = scast (word_cat i (0 :: 1 word) :: 13 word)"
    by (rule bit_word_eqI) (auto simp: bit_immediate_value b_format_def r_format_def imm_bits min_def)
  finally show ?thesis .
qed

lemma decode_immediate_J:
  "fn_decode_immediate (j_format i rd 0b1101111) csrs = scast (word_cat i (0 :: 1 word) :: 21 word)" (is "fn_decode_immediate ?inst csrs = _")
proof -
  have "opcode ?inst = 0b11011" by (simp add: j_format_def field_parts(1) u_format_fields)
  then have "fn_decode_immediate ?inst csrs = immediate_value (bit ?inst 31) (if bit ?inst 31 then - 1 else 0) (ucast (drop_bit 12 ?inst))
      (bit ?inst 20) (ucast (drop_bit 25 ?inst)) (ucast (drop_bit 21 ?inst)) False"
    by (simp add: fn_decode_immediate_def Let_def)
  also have "\<dots> = scast (word_cat i (0 :: 1 word) :: 21 word)"
    by (rule bit_word_eqI) (auto simp: bit_immediate_value j_format_def u_format_def imm_bits min_def)
  finally show ?thesis .
qed

subsection \<open>Executing an encoded instruction\<close>

lemmas operand_simps = fn_decode_rs1_def fn_decode_rs1type_def fn_decode_rs2_def fn_decode_rs2type_def fn_decode_rd_def
  fn_decode_rdtype_def decode_word32_def Let_def

lemmas format_simps = pat_def r_format_fields i_format_fields u_format_fields field_parts(1)

lemma like_funct7_op: "like ''0?00000'' (op_funct7 op)"
  by (simp add: op_funct7_def like_alternative del: like.simps)

lemma like_split: "like (p @ CHR ''?'' # q) w \<longleftrightarrow> like (p @ CHR ''0'' # q) w \<or> like (p @ CHR ''1'' # q) w"
  by (induction p) auto

lemma like_groups:
  fixes w :: "7 word"
  shows "like ''001?011'' w \<longleftrightarrow> w = 0b0010011 \<or> w = 0b0011011" "like ''011?011'' w \<longleftrightarrow> w = 0b0110011 \<or> w = 0b0111011"
    "like ''10?????'' w \<longleftrightarrow> bit w 6 \<and> \<not> bit w 5"
  using like_split [of "''001''" "''011''" w] like_split [of "''011''" "''011''" w]
  by (simp_all add: like_value del: like.simps) (simp add: numeral_eq_Suc)

text \<open>The function codes of the arithmetic instructions, by their fields.\<close>

definition arith_fn :: "3 word \<Rightarrow> bool \<Rightarrow> 4 word" where
  "arith_fn f3 alt = (if f3 = 0b000 then (if alt then FNSUB else FNADD) else if f3 = 0b010 then FNSLT else if f3 = 0b011 then FNSLTU
     else if f3 = 0b101 then (if alt then FNSRA else FNSR) else word_cat (0 :: 1 word) f3)"

lemma arith_fn_op: "arith_fn (op_funct3 op) (bit (op_funct7 op) 5) = alu_fn op"
  by (cases op) (simp_all add: arith_fn_def op_funct7_def)

lemmas decode_fn_simps = fn_decode_fn_def Let_def pat_def like_opcodes like_any like_funct7 like_groups arith_fn_def

lemma decode_fn_imm:
  assumes "opcode7 inst = 0b0010011 \<or> opcode7 inst = 0b0011011"
  shows "fn_decode_fn fpu inst csrs = arith_fn (funct3_field inst) (bit (funct7_field inst) 5 \<and> funct3_field inst \<noteq> 0)"
  using assms by (elim disjE) (simp_all add: decode_fn_simps del: like.simps)

lemma decode_fn_reg:
  assumes "opcode7 inst = 0b0110011 \<or> opcode7 inst = 0b0111011" and "like ''0?00000'' (funct7_field inst)"
  shows "fn_decode_fn fpu inst csrs = arith_fn (funct3_field inst) (bit (funct7_field inst) 5)"
  using assms by (elim disjE) (simp_all add: decode_fn_simps del: like.simps)

lemma decode_fn_upper:
  assumes "opcode7 inst = 0b0110111 \<or> opcode7 inst = 0b0010111"
  shows "fn_decode_fn fpu inst csrs = FNADD"
  using assms by (elim disjE) (simp_all add: decode_fn_simps del: like.simps)

lemma like_split2: "like (p @ CHR ''?'' # CHR ''?'' # q) w \<longleftrightarrow>
    like (p @ CHR ''0'' # CHR ''0'' # q) w \<or> like (p @ CHR ''0'' # CHR ''1'' # q) w \<or>
    like (p @ CHR ''1'' # CHR ''0'' # q) w \<or> like (p @ CHR ''1'' # CHR ''1'' # q) w"
  by (induction p) auto

lemma like_op5:
  fixes w :: "5 word"
  shows "like ''01101'' w \<longleftrightarrow> w = 0b01101" "like ''00101'' w \<longleftrightarrow> w = 0b00101" "like ''11011'' w \<longleftrightarrow> w = 0b11011"
    "like ''11100'' w \<longleftrightarrow> w = 0b11100" "like ''11001'' w \<longleftrightarrow> w = 0b11001" "like ''00011'' w \<longleftrightarrow> w = 0b00011"
    "like ''11000'' w \<longleftrightarrow> w = 0b11000" "like ''01000'' w \<longleftrightarrow> w = 0b01000" "like ''01001'' w \<longleftrightarrow> w = 0b01001"
    "like ''100??'' w \<longleftrightarrow> w = 0b10000 \<or> w = 0b10001 \<or> w = 0b10010 \<or> w = 0b10011"
    "like ''101??'' w \<longleftrightarrow> w = 0b10100 \<or> w = 0b10101 \<or> w = 0b10110 \<or> w = 0b10111"
    "like ''000??'' w \<longleftrightarrow> w = 0b00000 \<or> w = 0b00001 \<or> w = 0b00010 \<or> w = 0b00011"
    "like ''001??'' w \<longleftrightarrow> w = 0b00100 \<or> w = 0b00101 \<or> w = 0b00110 \<or> w = 0b00111"
  using like_split2 [of "''100''" "[]" w] like_split2 [of "''101''" "[]" w] like_split2 [of "''000''" "[]" w]
    like_split2 [of "''001''" "[]" w]
  by (simp_all add: like_value del: like.simps)

lemma like_rdtype:
  fixes w :: "7 word"
  shows "like ''0000111'' w \<longleftrightarrow> w = 0b0000111" "like ''1010011'' w \<longleftrightarrow> w = 0b1010011"
    "like ''100??11'' w \<longleftrightarrow> w = 0b1000011 \<or> w = 0b1000111 \<or> w = 0b1001011 \<or> w = 0b1001111"
  using like_split2 [of "''100''" "''11''" w] by (simp_all add: like_value del: like.simps)

lemma operands_reg:
  assumes "opcode7 inst = 0b0110011 \<or> opcode7 inst = 0b0111011"
  shows "fn_decode_rs1 inst = rs1_field inst" "fn_decode_rs1type fpu inst = Op1_IntegerRF" "fn_decode_rs2 fpu inst = rs2_field inst"
    "fn_decode_rs2type fpu inst c = IntegerRF" "fn_decode_rd inst = rd_field inst" "fn_decode_rdtype inst = IRF"
    "decode_word32 fpu inst \<longleftrightarrow> opcode7 inst = 0b0111011"
  using assms by (elim disjE; simp add: operand_simps field_parts(1) pat_def like_op5 like_any like_rdtype del: like.simps)+

lemma operands_imm:
  assumes "opcode7 inst = 0b0010011 \<or> opcode7 inst = 0b0011011"
  shows "fn_decode_rs1 inst = rs1_field inst" "fn_decode_rs1type fpu inst = Op1_IntegerRF" "fn_decode_rs2 fpu inst = 0"
    "fn_decode_rs2type fpu inst c = Immediate" "fn_decode_rd inst = rd_field inst" "fn_decode_rdtype inst = IRF"
    "decode_word32 fpu inst \<longleftrightarrow> opcode7 inst = 0b0011011"
  using assms by (elim disjE; simp add: operand_simps field_parts(1) pat_def like_op5 like_any like_rdtype del: like.simps)+

lemma operands_upper:
  assumes "opcode7 inst = 0b0110111 \<or> opcode7 inst = 0b0010111"
  shows "fn_decode_rs1 inst = 0" "fn_decode_rs1type fpu inst = (if opcode7 inst = 0b0010111 then Op1_PC else Op1_IntegerRF)"
    "fn_decode_rs2 fpu inst = 0" "fn_decode_rs2type fpu inst c = Immediate" "fn_decode_rd inst = rd_field inst"
    "fn_decode_rdtype inst = IRF" "\<not> decode_word32 fpu inst"
  using assms by (elim disjE; simp add: operand_simps field_parts(1) pat_def like_op5 like_any like_rdtype del: like.simps)+

text \<open>What the pipeline computes from a decoded instruction and the registers.\<close>

definition alu_of :: "decoded \<Rightarrow> (reg \<Rightarrow> u64) \<Rightarrow> u64" where
  "alu_of m f = alu_result (f (src1 m)) (op2_value m f) (fn m) (pc m) (rs1type m = Op1_PC) (word32 m)"

lemma alu_64: "alu_result x y (alu_fn op) p False False = alu_spec op x y"
  and alu_32: "has_word_form op \<Longrightarrow> alu_result x y (alu_fn op) p False True = scast (alu_spec op (ucast x :: u32) (ucast y))"
  and alu_add: "alu_result x y FNADD p b False = (if b then p else x) + y"
  using base_alu_correct [of x y op p False] base_alu_correct [of x y ADD p b] by simp_all

lemma decode_stage_fields:
  fixes fpu pack_prv av csrs c ep addr inst
  defines "m \<equiv> decode_stage fpu pack_prv av csrs c ep addr inst"
  shows "src1 m = (if fn_decode_rs1type fpu inst = Op1_FloatingRF then FRF else IRF, fn_decode_rs1 inst)"
    "src2 m = (if fn_decode_rs2type fpu inst c = FloatingRF then FRF else IRF, fn_decode_rs2 fpu inst)"
    "rs2type m = fn_decode_rs2type fpu inst c" "rs1type m = fn_decode_rs1type fpu inst" "imm m = scast (fn_decode_immediate inst csrs)"
    "dest m = (if fpu then fn_decode_rdtype inst else IRF, fn_decode_rd inst)" "fn m = fn_decode_fn fpu inst csrs"
    "word32 m = decode_word32 fpu inst" "pc m = addr" "rs2addr m = fn_decode_rs2 fpu inst" "instruction m = inst"
  by (simp_all add: m_def decode_stage_def Let_def src1_def src2_def)

lemmas decoded_simps = decode_stage_fields alu_of_def op2_value_def r_format_fields i_format_fields u_format_fields

lemma value_OP: "alu_of (decode_stage fpu pack_prv av csrs c ep addr (encode (OP op rd rs1 rs2))) f = alu_spec op (f (IRF, rs1)) (f (IRF, rs2))"
  by (simp add: decoded_simps operands_reg decode_fn_reg like_funct7_op arith_fn_op alu_64 del: like.simps)

lemma value_OP_32:
  "has_word_form op \<Longrightarrow> alu_of (decode_stage fpu pack_prv av csrs c ep addr (encode (OP_32 op rd rs1 rs2))) f =
    scast (alu_spec op (ucast (f (IRF, rs1)) :: u32) (ucast (f (IRF, rs2))))"
  by (simp add: decoded_simps operands_reg decode_fn_reg like_funct7_op arith_fn_op alu_32 del: like.simps)

lemma scast_trans: "(scast (scast i :: u32) :: u64) = scast i" for i :: "12 word"
  by (rule bit_word_eqI) (auto simp: bit_signed_iff min_def)

lemma immediate_I:
  "opcode7 inst = 0b0010011 \<or> opcode7 inst = 0b0011011 \<Longrightarrow> fn_decode_immediate inst csrs = scast (imm12_field inst)"
  by (rule decode_immediate_I) (auto simp: field_parts(1))

lemma value_OP_IMM:
  "\<not> is_shift op \<Longrightarrow> op \<noteq> SUB \<Longrightarrow>
    alu_of (decode_stage fpu pack_prv av csrs c ep addr (encode (OP_IMM op rd rs1 i))) f = alu_spec op (f (IRF, rs1)) (scast i)"
proof -
  assume op: "\<not> is_shift op" "op \<noteq> SUB"
  have "arith_fn (op_funct3 op) b = alu_fn op" if "op_funct3 op = 0 \<longrightarrow> \<not> b" for b
    using op that by (cases op) (auto simp: arith_fn_def is_shift_def)
  then show ?thesis by (simp add: decoded_simps operands_imm decode_fn_imm immediate_I scast_trans alu_64)
qed

lemma value_ADDIW:
  "alu_of (decode_stage fpu pack_prv av csrs c ep addr (encode (ADDIW rd rs1 i))) f = scast (ucast (f (IRF, rs1)) + scast i :: u32)"
proof -
  have "(ucast (scast i :: u64) :: u32) = scast i" by (rule bit_word_eqI) (auto simp: bit_signed_iff bit_ucast_iff min_def)
  then show ?thesis using alu_32 [of ADD]
    by (simp add: decoded_simps operands_imm decode_fn_imm immediate_I scast_trans arith_fn_def has_word_form_def)
qed

text \<open>A shift looks at the lowest bits of its second operand only.\<close>

lemma shift_amount_64:
  fixes x y z :: u64
  assumes "is_shift op" and "(ucast y :: 6 word) = ucast z"
  shows "alu_spec op x y = alu_spec op x z"
proof -
  have "unat y mod 64 = unat z mod 64" using arg_cong [OF assms(2), of unat] by (simp add: unsigned_ucast_eq take_bit_eq_mod)
  then show ?thesis using assms(1) by (auto simp: is_shift_def)
qed

lemma shift_amount_32:
  fixes x y z :: u32
  assumes "is_shift op" and "(ucast y :: 5 word) = ucast z"
  shows "alu_spec op x y = alu_spec op x z"
proof -
  have "unat y mod 32 = unat z mod 32" using arg_cong [OF assms(2), of unat] by (simp add: unsigned_ucast_eq take_bit_eq_mod)
  then show ?thesis using assms(1) by (auto simp: is_shift_def)
qed

lemma shift_op_funct3: "is_shift op \<Longrightarrow> op_funct3 op \<noteq> 0 \<and> has_word_form op"
  by (auto simp: is_shift_def has_word_form_def)

lemma value_SHIFT_IMM:
  assumes "is_shift op"
  shows "alu_of (decode_stage fpu pack_prv av csrs c ep addr (encode (SHIFT_IMM op rd rs1 shamt))) f = alu_spec op (f (IRF, rs1)) (ucast shamt)"
proof -
  let ?i = "word_cat (ucast (drop_bit 1 (op_funct7 op)) :: 6 word) shamt :: 12 word"
  have alt: "bit (funct7_field (encode (SHIFT_IMM op rd rs1 shamt))) 5 = bit (op_funct7 op) 5"
    by (simp add: field_parts(4) i_format_fields) (simp add: imm_bits)
  have "alu_of (decode_stage fpu pack_prv av csrs c ep addr (encode (SHIFT_IMM op rd rs1 shamt))) f = alu_spec op (f (IRF, rs1)) (scast ?i)"
    using shift_op_funct3 [OF assms] alt arith_fn_op [of op]
    by (simp add: decoded_simps operands_imm decode_fn_imm immediate_I scast_trans alu_64)
  also have "\<dots> = alu_spec op (f (IRF, rs1)) (ucast shamt)"
    by (rule shift_amount_64 [OF assms]) (rule bit_word_eqI, auto simp: imm_bits min_def)
  finally show ?thesis .
qed

lemma value_SHIFT_IMM_32:
  assumes "is_shift op"
  shows "alu_of (decode_stage fpu pack_prv av csrs c ep addr (encode (SHIFT_IMM_32 op rd rs1 shamt))) f =
    scast (alu_spec op (ucast (f (IRF, rs1)) :: u32) (ucast shamt))"
proof -
  let ?i = "word_cat (op_funct7 op) shamt :: 12 word"
  have "alu_of (decode_stage fpu pack_prv av csrs c ep addr (encode (SHIFT_IMM_32 op rd rs1 shamt))) f =
      scast (alu_spec op (ucast (f (IRF, rs1)) :: u32) (ucast (scast ?i :: u64)))"
    using shift_op_funct3 [OF assms] arith_fn_op [of op]
    by (simp add: decoded_simps operands_imm decode_fn_imm immediate_I scast_trans alu_32 field_parts(2))
  also have "alu_spec op (ucast (f (IRF, rs1)) :: u32) (ucast (scast ?i :: u64)) = alu_spec op (ucast (f (IRF, rs1))) (ucast shamt)"
    by (rule shift_amount_32 [OF assms]) (rule bit_word_eqI, auto simp: imm_bits min_def)
  finally show ?thesis .
qed

lemma immediate_U:
  "opcode7 inst = 0b0110111 \<or> opcode7 inst = 0b0010111 \<Longrightarrow>
    fn_decode_immediate inst csrs = word_cat (ucast (drop_bit 12 inst) :: 20 word) (0 :: 12 word)"
  by (rule decode_immediate_U) (auto simp: field_parts(1))

lemma value_upper:
  "f x0 = 0 \<Longrightarrow> alu_of (decode_stage fpu pack_prv av csrs c ep addr (encode (LUI rd i))) f = upper_imm i"
  "alu_of (decode_stage fpu pack_prv av csrs c ep addr (encode (AUIPC rd i))) f = addr + upper_imm i"
  by (simp_all add: decoded_simps operands_upper decode_fn_upper immediate_U alu_add upper_imm_def)

text \<open>Every instruction of the set: what it computes, where it writes, and that its second operand is safe.\<close>

lemma decoded_value:
  "valid_insn a \<Longrightarrow> f x0 = 0 \<Longrightarrow>
    alu_of (decode_stage fpu pack_prv av csrs c ep addr (encode a)) f = isa_value a addr (\<lambda>r. f (IRF, r))"
  by (cases a) (simp_all add: value_OP value_OP_32 value_OP_IMM value_SHIFT_IMM value_ADDIW value_SHIFT_IMM_32 value_upper
    del: encode.simps)

lemma decoded_dest: "dest (decode_stage fpu pack_prv av csrs c ep addr (encode a)) = (IRF, target a)"
  by (cases a) (simp_all add: decoded_simps operands_reg operands_imm operands_upper)

text \<open>Of any word the decoder makes the second operand a register, or it names register 0 for it.\<close>

lemma like_overlaps:
  "like ''00011'' op \<Longrightarrow> like ''000??'' op" "like ''11100'' op \<Longrightarrow> \<not> like ''001??'' op" for op :: "5 word"
  by simp_all

lemma decoded_second_operand:
  "register2 (decode_stage fpu pack_prv av csrs c ep addr inst) \<or> rs2addr (decode_stage fpu pack_prv av csrs c ep addr inst) = 0"
  using like_overlaps [of "opcode inst"]
  by (auto simp add: decode_stage_def register2_def fn_decode_rs2_def fn_decode_rs2type_def Let_def del: like.simps)

lemma alu_fields_encode: "valid_insn a \<Longrightarrow> alu_fields (encode a)"
proof (cases a)
  case (OP op rd rs1 rs2)
  then show ?thesis by (cases op) (simp_all add: alu_fields_def r_format_fields op_funct7_def like_alternative del: like.simps)
next
  case (OP_32 op rd rs1 rs2)
  moreover assume "valid_insn a"
  ultimately show ?thesis
    by (cases op) (simp_all add: alu_fields_def r_format_fields op_funct7_def like_alternative has_word_form_def del: like.simps)
next
  case (OP_IMM op rd rs1 i)
  moreover assume "valid_insn a"
  ultimately show ?thesis by (cases op) (simp_all add: alu_fields_def i_format_fields is_shift_def)
next
  case (SHIFT_IMM op rd rs1 shamt)
  moreover assume "valid_insn a"
  moreover have "(ucast (drop_bit 6 (word_cat u shamt :: 12 word)) :: 6 word) = u" for u :: "6 word"
    by (rule bit_word_eqI) (auto simp: bit_field_simps)
  moreover have "(ucast (drop_bit 6 (ucast shamt :: 12 word)) :: 6 word) = 0"
    by (rule bit_word_eqI) (auto simp: bit_field_simps dest: bit_imp_le_length)
  ultimately show ?thesis
    by (cases op) (simp_all add: alu_fields_def i_format_fields field_parts(5) is_shift_def op_funct7_def like_alternative del: like.simps)
next
  case (SHIFT_IMM_32 op rd rs1 shamt)
  moreover assume "valid_insn a"
  ultimately show ?thesis by (cases op) (simp_all add: alu_fields_def r_format_fields is_shift_def op_funct7_def)
qed (simp_all add: alu_fields_def i_format_fields u_format_fields)

lemma decoded_ALU: "fn_decode_insttype fpu pack_prv av inst csrs = ALU \<longleftrightarrow> (\<exists>a. valid_insn a \<and> inst = encode a)"
  using insttype_ALU alu_fields_exact alu_fields_encode by metis

lemma decoded_type_ALU: "decoded_type fpu pack_prv av inst csrs = ALU \<Longrightarrow> fn_decode_insttype fpu pack_prv av inst csrs = ALU"
  by (auto simp: decoded_type_def Let_def split: prod.splits if_splits)

subsection \<open>Properties\<close>

text \<open>
  C13 (which instructions the ALU gets). The decoder takes a word for arithmetic exactly when it is
  an instruction of that kind of RV64I (register-register, immediate, shift, upper immediate, and
  the 32-bit forms), whatever the state of the CSRs and with or without floating point.
\<close>

theorem alu_decoding_exact: "fn_decode_insttype fpu pack_prv av inst csrs = ALU \<longleftrightarrow> (\<exists>a. valid_insn a \<and> inst = encode a)"
  by (rule decoded_ALU)

text \<open>
  C14 (immediates). For every format of the base instruction set the decoder returns the immediate
  with which the instruction was assembled, sign-extended: of loads, register-immediate
  instructions and indirect jumps, stores, branches, upper immediates and jumps.
\<close>

theorem immediates_roundtrip:
  "list_all (\<lambda>op. fn_decode_immediate (i_format i rs1 f3 rd op) csrs = scast i) [0b0000011, 0b0010011, 0b0011011, 0b1100111] \<and>
   fn_decode_immediate (s_format i rs2 rs1 f3 0b0100011) csrs = scast i \<and>
   fn_decode_immediate (b_format i rs2 rs1 f3 0b1100011) csrs = scast (word_cat i (0 :: 1 word) :: 13 word) \<and>
   list_all (\<lambda>op. fn_decode_immediate (u_format j rd op) csrs = word_cat j (0 :: 12 word)) [0b0110111, 0b0010111] \<and>
   fn_decode_immediate (j_format j rd 0b1101111) csrs = scast (word_cat j (0 :: 1 word) :: 21 word)"
  by (simp add: decode_immediate_I decode_immediate_U decode_immediate_S decode_immediate_B decode_immediate_J field_parts(1)
    i_format_fields u_format_fields)

text \<open>
  C12 (arithmetic instructions execute as specified). Whenever stage 5 commits an instruction that
  the decoder took for arithmetic, its word is the encoding of an RV64I arithmetic instruction,
  and the registers change as the instruction set says: its target gets the value that the
  instruction defines on the registers which the instructions before it have left, nothing else.
\<close>

theorem arith_instructions_commit:
  assumes "n34 + n45 \<le> 2 ^ LENGTH('i)" and "(core_rule n34 n45 spfpu psimd)\<^sup>*\<^sup>* mkcore (s :: 'i::len word core)"
    and "core_rule n34 n45 spfpu psimd s s'" and "s4s5_fuid s = u # us" and "s4s5_fuid s' = us" and "fu_epochs u = rg_wEpoch s"
    and "fu_inst u = decode_stage fpu pack_prv av csrs c ep addr inst" and "decoded_type fpu pack_prv av inst csrs = ALU"
  shows "\<exists>a. valid_insn a \<and> inst = encode a \<and>
    rf s' = commit_rd (IRF, target a) (isa_value a addr (\<lambda>r. rf s (IRF, r))) (rf s)"
proof -
  obtain a where a: "valid_insn a" "inst = encode a"
    using decoded_ALU [of fpu pack_prv av inst csrs] decoded_type_ALU [OF assms(8)] by blast
  have alu: "inst_type (fu_inst u) = ALU" using assms(7,8) by (simp add: decode_stage_def)
  have "fu_type u = BASE"
    using head_ok(2) [OF core_invariant [OF assms(2,1)] assms(1,4,6)] alu by (simp add: result_ok_def Let_def)
  then obtain v where v: "executes psimd u v (rf s) (rf s')"
    using commit_step [OF assms(1-3)] assms(4-6) by auto
  have "register2 (fu_inst u) \<or> rs2addr (fu_inst u) = 0"
    using decoded_second_operand [of fpu pack_prv av csrs c ep addr inst] assms(7) by simp
  then have "v = alu_of (fu_inst u) (rf s)" using v alu by (auto simp: executes_def alu_of_def Let_def)
  then have "v = isa_value a addr (\<lambda>r. rf s (IRF, r))"
    using decoded_value [OF a(1), of "rf s" fpu pack_prv av csrs c ep addr] rf_x0 [OF assms(2)] unfolding assms(7) a(2) by simp
  moreover have "rf s' = commit_rd (IRF, target a) v (rf s)"
    using v decoded_dest [of fpu pack_prv av csrs c ep addr a] unfolding executes_def Let_def assms(7) a(2) by simp
  ultimately show ?thesis using a by blast
qed


definition machine_csrs :: CSRtoDecode where
  "machine_csrs = \<lparr>prv = Machine, csr_mip = 0, csr_mie = 0, csr_mideleg = 0, csr_misa = 0, csr_mstatus = 0, csr_sstatus = 0, frm = 0\<rparr>"

lemma add_x2_decoded:
  "add_x2 = decode_stage False pack_prv av machine_csrs False (False, False) 4 0x00108133"
  "decoded_type False pack_prv av 0x00108133 machine_csrs = ALU"
  by (simp_all add: add_x2_def decode_stage_def decoded_type_def fn_decode_insttype_def chk_interrupt_def machine_csrs_def Let_def pat_def
    fn_decode_rs1_def fn_decode_rs1type_def fn_decode_rs2_def fn_decode_rs2type_def fn_decode_rd_def fn_decode_fn_def decode_word32_def
    fn_decode_immediate_def immediate_value_def)

theorem arith_instructions_commit_witness:
  "\<exists>a. valid_insn a \<and> (0x00108133 :: u32) = encode a \<and> target a = 2 \<and>
    rf (commit two_adds) = commit_rd (IRF, 2) (isa_value a 4 (\<lambda>r. rf two_adds (IRF, r))) (rf two_adds)"
proof -
  let ?pk = "case_Privilege_mode 0 1 3" and ?u = "hd (s4s5_fuid two_adds)"
  have head: "s4s5_fuid two_adds = [?u]" "fu_epochs ?u = rg_wEpoch two_adds" "fu_inst ?u = add_x2"
    "s4s5_baseout two_adds \<noteq> []" "fu_type ?u = BASE"
    unfolding two_adds_def by (simp_all add: run_simps addi_x1_def add_x2_def Let_def)
  have step: "core_rule 2 2 False (\<lambda>_ _ _ _. 0) two_adds (commit two_adds)" by (rule commit_rule) (use head in auto)
  have empty: "s4s5_fuid (commit two_adds) = []" by (simp add: commit_def retire_fields) (metis head(1) list.sel(3))
  obtain a where a: "valid_insn a" "0x00108133 = encode a"
    "rf (commit two_adds) = commit_rd (IRF, target a) (isa_value a 4 (\<lambda>r. rf two_adds (IRF, r))) (rf two_adds)"
    using arith_instructions_commit [OF _ two_adds_reachable step head(1) empty head(2), of False ?pk "\<lambda>_ _ _. True" machine_csrs False
      "(False, False)" 4 "0x00108133"] head(3) add_x2_decoded by auto
  have "dest add_x2 = (IRF, target a)"
    using decoded_dest [of False ?pk "\<lambda>_ _ _. True" machine_csrs False "(False, False)" 4 a] add_x2_decoded(1) a(2) by metis
  then have "target a = 2" by (simp add: add_x2_def)
  then show ?thesis using a by metis
qed

end
